(* ===== verification/Prelude.thy ===== *)
theory Prelude
  imports Main "HOL-Library.Sublist" "HOL-Library.Char_ord" "HOL-Library.AList"
    "HOL-Library.Code_Target_Nat"
begin

text \<open>
  What every component shares: the fact collections of the development, Go byte strings with the
  functions of packages \<open>strings\<close> and \<open>strconv\<close> that the sources call, HTTP responses as values,
  the environment of a request (clock, failures of external calls, generated identifiers), the
  small relational operations that translate the SQL statements embedded in the sources, and the
  locales for state machines with an invariant.
\<close>

named_theorems go_str \<open>facts on Go string functions\<close>
named_theorems sql_simps \<open>facts on the relational operations\<close>
named_theorems inv_pres \<open>every operation keeps the invariant of its component\<close>

section \<open>Go strings\<close>

text \<open>
  A Go string is a sequence of bytes, here a \<^typ>\<open>char list\<close>: \<open>len(s)\<close> is \<^term>\<open>length s\<close>.
  \<open>unicode.IsSpace\<close> accepts six ASCII bytes and the code points whose UTF-8 forms are listed by
  \<open>space2\<close> (U+0085, U+00A0) and \<open>space3\<close> (U+1680, U+2000 to U+200A, U+2028, U+2029, U+202F,
  U+205F, U+3000). A sequence of these bytes decodes to that code point wherever it stands, so
  trimming runes is trimming these byte sequences.
\<close>

definition space1 :: "char \<Rightarrow> bool" where
  "space1 a \<longleftrightarrow> a = CHR 0x20 \<or> (CHR 0x09 \<le> a \<and> a \<le> CHR 0x0D)"

definition space2 :: "char \<Rightarrow> char \<Rightarrow> bool" where
  "space2 a b \<longleftrightarrow> a = CHR 0xC2 \<and> (b = CHR 0x85 \<or> b = CHR 0xA0)"

definition space3 :: "char \<Rightarrow> char \<Rightarrow> char \<Rightarrow> bool" where
  "space3 a b c \<longleftrightarrow>
     (a = CHR 0xE1 \<and> b = CHR 0x9A \<and> c = CHR 0x80) \<or>
     (a = CHR 0xE2 \<and> b = CHR 0x80 \<and>
        ((CHR 0x80 \<le> c \<and> c \<le> CHR 0x8A) \<or> c = CHR 0xA8 \<or> c = CHR 0xA9 \<or> c = CHR 0xAF)) \<or>
     (a = CHR 0xE2 \<and> b = CHR 0x81 \<and> c = CHR 0x9F) \<or>
     (a = CHR 0xE3 \<and> b = CHR 0x80 \<and> c = CHR 0x80)"

fun trim_with :: "(char \<Rightarrow> bool) \<Rightarrow> (char \<Rightarrow> char \<Rightarrow> bool) \<Rightarrow> (char \<Rightarrow> char \<Rightarrow> char \<Rightarrow> bool) \<Rightarrow>
    string \<Rightarrow> string" where
  "trim_with p q r (a # b # c # s) =
     (if p a then trim_with p q r (b # c # s)
      else if q a b then trim_with p q r (c # s)
      else if r a b c then trim_with p q r s
      else a # b # c # s)"
| "trim_with p q r [a, b] =
     (if p a then trim_with p q r [b] else if q a b then [] else [a, b])"
| "trim_with p q r [a] = (if p a then [] else [a])"
| "trim_with p q r [] = []"

definition trim_left :: "string \<Rightarrow> string" where
  "trim_left = trim_with space1 space2 space3"

definition trim_right :: "string \<Rightarrow> string" where
  "trim_right s =
     rev (trim_with space1 (\<lambda>b a. space2 a b) (\<lambda>c b a. space3 a b c) (rev s))"

text \<open>\<open>strings.TrimSpace\<close>\<close>

definition TrimSpace :: "string \<Rightarrow> string" where
  "TrimSpace s = trim_right (trim_left s)"

text \<open>\<open>strings.TrimPrefix\<close>, \<open>strings.HasPrefix\<close> (\<^const>\<open>prefix\<close>) and \<open>strings.Contains\<close>.\<close>

definition TrimPrefix :: "string \<Rightarrow> string \<Rightarrow> string" where
  "TrimPrefix s p = (if prefix p s then drop (length p) s else s)"

fun Contains :: "string \<Rightarrow> string \<Rightarrow> bool" where
  "Contains [] p = (p = [])"
| "Contains (c # s) p = (prefix p (c # s) \<or> Contains s p)"

text \<open>\<open>strings.Split\<close> by a one-byte separator: never the empty list.\<close>

fun Split :: "string \<Rightarrow> char \<Rightarrow> string list" where
  "Split [] sep = [[]]"
| "Split (c # s) sep =
     (if c = sep then [] # Split s sep
      else (case Split s sep of [] \<Rightarrow> [[c]] | w # ws \<Rightarrow> (c # w) # ws))"

text \<open>\<open>strings.Cut\<close> at the first occurrence of a byte (\<open>SplitN(s, sep, 2)\<close> finds the same cut).\<close>

fun Cut :: "string \<Rightarrow> char \<Rightarrow> (string \<times> string) option" where
  "Cut [] sep = None"
| "Cut (c # s) sep =
     (if c = sep then Some ([], s)
      else (case Cut s sep of None \<Rightarrow> None | Some (a, b) \<Rightarrow> Some (c # a, b)))"

text \<open>\<open>strings.Join\<close>.\<close>

fun Join :: "string list \<Rightarrow> string \<Rightarrow> string" where
  "Join [] sep = []"
| "Join [w] sep = w"
| "Join (w # v # ws) sep = w @ sep @ Join (v # ws) sep"

section \<open>Decimal numbers: \<open>strconv\<close>\<close>

definition digit_char :: "nat \<Rightarrow> char" where
  "digit_char d = char_of (48 + d)"

definition is_digit :: "char \<Rightarrow> bool" where
  "is_digit c \<longleftrightarrow> CHR ''0'' \<le> c \<and> c \<le> CHR ''9''"

definition is_letter :: "char \<Rightarrow> bool" where
  "is_letter c \<longleftrightarrow> (let n = of_char c :: nat in n \<in> {65..90} \<or> n \<in> {97..122})"

definition is_word :: "char \<Rightarrow> bool" where
  "is_word c \<longleftrightarrow> is_letter c \<or> is_digit c \<or> c = CHR ''_''"

definition digit_val :: "char \<Rightarrow> nat" where
  "digit_val c = of_char c - 48"

fun dec_nat :: "nat \<Rightarrow> string" where
  "dec_nat n = (if n < 10 then [digit_char n] else dec_nat (n div 10) @ [digit_char (n mod 10)])"

declare dec_nat.simps [simp del]

definition Itoa :: "int \<Rightarrow> string" where
  "Itoa i = (if i < 0 then CHR ''-'' # dec_nat (nat (- i)) else dec_nat (nat i))"

definition nat_of_digits :: "string \<Rightarrow> nat" where
  "nat_of_digits s = foldl (\<lambda>n c. 10 * n + digit_val c) 0 s"

definition all_digits :: "string \<Rightarrow> bool" where
  "all_digits s \<longleftrightarrow> s \<noteq> [] \<and> list_all is_digit s"

text \<open>
  \<open>strconv.Atoi\<close> and \<open>strconv.ParseInt(s, 10, 64)\<close>: an optional sign, at least one digit, and a
  range error outside the signed 64-bit integers.
\<close>

definition int64 :: "int \<Rightarrow> bool" where
  "int64 i \<longleftrightarrow> - (2 ^ 63) \<le> i \<and> i < 2 ^ 63"

definition Atoi :: "string \<Rightarrow> int option" where
  "Atoi s =
     (let (neg, ds) = (case s of [] \<Rightarrow> (False, s)
                       | c # r \<Rightarrow> if c = CHR ''-'' then (True, r)
                                   else if c = CHR ''+'' then (False, r) else (False, s));
          v = (if neg then - int (nat_of_digits ds) else int (nat_of_digits ds))
      in if all_digits ds \<and> int64 v then Some v else None)"

section \<open>Facts on strings\<close>

lemma trim_with_idem [go_str]: "trim_with p q r (trim_with p q r s) = trim_with p q r s"
  by (induction p q r s rule: trim_with.induct) auto

lemma trim_with_length: "length (trim_with p q r s) \<le> length s"
  by (induction p q r s rule: trim_with.induct) auto

lemma trim_with_fix:
  "trim_with p q r s = s \<longleftrightarrow>
     (case s of [] \<Rightarrow> True | [a] \<Rightarrow> \<not> p a | [a, b] \<Rightarrow> \<not> p a \<and> \<not> q a b
      | a # b # c # _ \<Rightarrow> \<not> p a \<and> \<not> q a b \<and> \<not> r a b c)"
proof -
  have shrink: "trim_with p q r t \<noteq> u @ t" if "u \<noteq> []" for t u
    using trim_with_length [of p q r t] that by (auto dest!: arg_cong [where f = length])
  show ?thesis
    using shrink [of "[_]"] shrink [of "[_, _]"] shrink [of "[_, _, _]"]
    by (cases "(p, q, r, s)" rule: trim_with.cases) auto
qed

lemma trim_with_prefix:
  assumes "trim_with p q r s = s" "prefix t s"
  shows "trim_with p q r t = t"
  using assms by (auto simp: trim_with_fix prefix_def split: list.splits)

lemma trim_left_suffix: "suffix (trim_left s) s"
proof -
  have "suffix (trim_with p q r s) s" for p q r
    by (induction p q r s rule: trim_with.induct) (auto intro: suffix_ConsI)
  then show ?thesis by (simp add: trim_left_def)
qed

lemma trim_right_prefix: "prefix (trim_right s) s"
proof -
  have "suffix (trim_with p q r t) t" for p q r t
    by (induction p q r t rule: trim_with.induct) (auto intro: suffix_ConsI)
  from this [of _ _ _ "rev s"] show ?thesis
    by (simp add: trim_right_def suffix_to_prefix)
qed

lemma TrimSpace_idem [go_str, simp]: "TrimSpace (TrimSpace s) = TrimSpace s"
proof -
  have "trim_left (trim_right (trim_left s)) = trim_right (trim_left s)"
    using trim_with_prefix [OF _ trim_right_prefix, of space1 space2 space3 "trim_left s"]
    by (simp add: trim_left_def trim_with_idem)
  then show ?thesis
    by (simp add: TrimSpace_def) (simp add: trim_right_def trim_with_idem)
qed

lemma length_TrimSpace: "length (TrimSpace s) \<le> length s"
  using trim_left_suffix [of s] trim_right_prefix [of "trim_left s"]
  by (auto simp: TrimSpace_def dest: prefix_length_le suffix_length_le intro: order_trans)

lemma set_TrimSpace: "set (TrimSpace s) \<subseteq> set s"
  using set_mono_prefix [OF trim_right_prefix [of "trim_left s"]]
    set_mono_suffix [OF trim_left_suffix [of s]]
  by (auto simp: TrimSpace_def)

lemma TrimSpace_Nil [simp]: "TrimSpace [] = []"
  by (simp add: TrimSpace_def trim_left_def trim_right_def)

text \<open>A character that is neither part of a multi-byte sequence nor white space.\<close>

definition plain_char :: "char \<Rightarrow> bool" where
  "plain_char c \<longleftrightarrow> c < CHR 0x80 \<and> \<not> space1 c"

lemma plain_not_space: "plain_char c \<Longrightarrow> \<not> space2 c b \<and> \<not> space2 b c \<and> \<not> space3 c b a \<and> \<not> space3 a b c"
  by (auto simp: plain_char_def space2_def space3_def less_char_def less_eq_char_def)

lemma trim_left_plain: "plain_char c \<Longrightarrow> trim_left (c # s) = c # s"
  unfolding trim_left_def trim_with_fix
  by (auto simp: plain_not_space split: list.splits) (simp_all add: plain_char_def)

lemma trim_right_plain: "plain_char c \<Longrightarrow> trim_right (s @ [c]) = s @ [c]"
proof -
  assume c: "plain_char c"
  have "trim_with space1 (\<lambda>b a. space2 a b) (\<lambda>c b a. space3 a b c) (c # rev s) = c # rev s"
    unfolding trim_with_fix
    using c by (auto simp: plain_not_space split: list.splits) (simp_all add: plain_char_def)
  then show ?thesis by (simp add: trim_right_def)
qed

lemma TrimSpace_plain: "s \<noteq> [] \<Longrightarrow> plain_char (hd s) \<Longrightarrow> plain_char (last s) \<Longrightarrow> TrimSpace s = s"
  using trim_left_plain [of "hd s" "tl s"] trim_right_plain [of "last s" "butlast s"]
  by (simp add: TrimSpace_def)

definition plain_word :: "string \<Rightarrow> bool" where
  "plain_word w \<longleftrightarrow> w \<noteq> [] \<and> list_all plain_char w"

lemma Split_neq_Nil [simp]: "Split s sep \<noteq> []"
  by (induction s) (auto split: list.splits)

lemma Join_Cons: "Join (w # ws) sep = (if ws = [] then w else w @ sep @ Join ws sep)"
  by (cases ws) auto

lemma Join_Split [go_str]: "Join (Split s sep) [sep] = s"
  by (induction s) (auto simp: Join_Cons split: list.splits)

lemma Split_plain: "sep \<notin> set w \<Longrightarrow> Split w sep = [w]"
  by (induction w) auto

lemma Split_append: "sep \<notin> set w \<Longrightarrow> Split (w @ sep # s) sep = w # Split s sep"
  by (induction w) auto

lemma Split_Join [go_str]:
  "ws \<noteq> [] \<Longrightarrow> list_all (\<lambda>w. sep \<notin> set w) ws \<Longrightarrow> Split (Join ws [sep]) sep = ws"
  by (induction ws) (auto simp: Join_Cons Split_plain Split_append)

lemma Split_append_any: "Split (a @ sep # b) sep = Split a sep @ Split b sep"
  by (induction a) (auto split: list.splits)

lemma Join_snoc: "Join (ws @ [w]) sep = (if ws = [] then w else Join ws sep @ sep @ w)"
  by (induction ws) (auto simp: Join_Cons)

lemma Split_no_sep: "w \<in> set (Split s sep) \<Longrightarrow> sep \<notin> set w"
  by (induction s arbitrary: w) (auto split: list.splits if_splits)

lemma Cut_append [go_str]: "sep \<notin> set a \<Longrightarrow> Cut (a @ sep # b) sep = Some (a, b)"
  by (induction a) auto

lemma Cut_SomeD: "Cut s sep = Some (a, b) \<Longrightarrow> s = a @ sep # b \<and> sep \<notin> set a"
  by (induction s arbitrary: a b) (auto split: if_splits option.splits)

lemma Cut_None [go_str]: "Cut s sep = None \<longleftrightarrow> sep \<notin> set s"
  by (induction s) (auto split: option.splits)

subsection \<open>Decimal\<close>

lemma digit_char_val [simp]: "d < 10 \<Longrightarrow> digit_val (digit_char d) = d"
  by (simp add: digit_val_def digit_char_def)

lemma is_digit_digit_char [simp]: "d < 10 \<Longrightarrow> is_digit (digit_char d)"
  by (simp add: is_digit_def digit_char_def less_eq_char_def)

lemma is_digit_code: "is_digit c \<longleftrightarrow> 48 \<le> (of_char c :: nat) \<and> (of_char c :: nat) \<le> 57"
  by (simp add: is_digit_def less_eq_char_def)

lemma dec_nat_neq_Nil [simp]: "dec_nat n \<noteq> []"
  by (subst dec_nat.simps) simp

lemma dec_nat_digits: "list_all is_digit (dec_nat n)"
proof (induction n rule: dec_nat.induct)
  case (1 n)
  then show ?case by (subst dec_nat.simps) simp
qed

lemma nat_of_digits_append: "nat_of_digits (s @ [c]) = 10 * nat_of_digits s + digit_val c"
  by (simp add: nat_of_digits_def)

lemma nat_of_digits_dec_nat [go_str]: "nat_of_digits (dec_nat n) = n"
proof (induction n rule: dec_nat.induct)
  case (1 n)
  show ?case
  proof (cases "n < 10")
    case True
    then show ?thesis by (subst dec_nat.simps) (simp add: nat_of_digits_def)
  next
    case False
    with 1 show ?thesis by (subst dec_nat.simps) (simp add: nat_of_digits_append)
  qed
qed

lemma all_digits_dec_nat [simp]: "all_digits (dec_nat n)"
  by (simp add: all_digits_def dec_nat_digits)

lemma digit_not_sign: "is_digit c \<Longrightarrow> c \<noteq> CHR ''-'' \<and> c \<noteq> CHR ''+'' \<and> c \<noteq> CHR '':'' \<and> c \<noteq> CHR ''/''
    \<and> c \<noteq> CHR ''.''"
  by (auto simp: is_digit_code)

lemma Atoi_Itoa [go_str]: "int64 i \<Longrightarrow> Atoi (Itoa i) = Some i"
proof -
  assume i: "int64 i"
  obtain c r where d: "dec_nat (nat i) = c # r" by (cases "dec_nat (nat i)") auto
  have "all_digits (c # r)" "nat_of_digits (c # r) = nat i"
    using all_digits_dec_nat [of "nat i"] nat_of_digits_dec_nat [of "nat i"] by (simp_all only: d)
  moreover from this(1) have "is_digit c" by (simp add: all_digits_def)
  ultimately show ?thesis
    using i d digit_not_sign [of c] by (auto simp: Atoi_def Itoa_def nat_of_digits_dec_nat)
qed

lemma Itoa_nonneg: "0 \<le> i \<Longrightarrow> Itoa i = dec_nat (nat i)"
  by (simp add: Itoa_def)

lemma Itoa_no_colon: "CHR '':'' \<notin> set (Itoa i)"
  using dec_nat_digits by (auto simp: Itoa_def list_all_iff dest: digit_not_sign)

lemma dec_nat_no_sep: "c \<in> {CHR '':'', CHR ''/'', CHR ''.''} \<Longrightarrow> c \<notin> set (dec_nat n)"
  using dec_nat_digits by (auto simp: list_all_iff dest: digit_not_sign)
section \<open>Responses and the environment of a request\<close>

text \<open>
  What a handler writes: an error status with its message, the \<open>429\<close> with its \<open>Retry-After\<close>
  seconds, or a success status with a payload.
\<close>

datatype 'a response =
    Error nat string
  | RateLimited int
  | Reply nat 'a

fun status_of :: "'a response \<Rightarrow> nat" where
  "status_of (Error n m) = n"
| "status_of (RateLimited s) = 429"
| "status_of (Reply n a) = n"

text \<open>
  Times and durations are integers in nanoseconds, as in package \<open>time\<close>. A request runs in an
  environment: the reading of the clock, which of its external calls (numbered in program order)
  fail, the identifiers \<open>gen_random_uuid()\<close> delivers to it, and PostgreSQL's conversion of text
  to \<open>uuid\<close> and to \<open>bytea\<close> (\<^const>\<open>None\<close> is the conversion error).
\<close>

type_synonym time = int
type_synonym duration = int

definition Second :: duration where "Second = 1000000000"
definition Minute :: duration where "Minute = 60 * Second"
definition Hour :: duration where "Hour = 60 * Minute"

record env =
  clock :: time
  fails :: "nat \<Rightarrow> bool"
  gen_uuid :: "nat \<Rightarrow> string"
  uuid_in :: "string \<Rightarrow> string option"
  bytea_in :: "string \<Rightarrow> string option"

text \<open>The environment without failures whose identifiers are the given ones, used by witnesses.\<close>

definition calm :: "time \<Rightarrow> string list \<Rightarrow> env" where
  "calm t ids = \<lparr>clock = t, fails = (\<lambda>_. False), gen_uuid = (\<lambda>n. if n < length ids then ids ! n else []),
     uuid_in = Some, bytea_in = Some\<rparr>"

lemma calm_simps [simp]:
  "clock (calm t ids) = t" "\<not> fails (calm t ids) n" "uuid_in (calm t ids) s = Some s" "bytea_in (calm t ids) s = Some s"
  "gen_uuid (calm t ids) n = (if n < length ids then ids ! n else [])"
  by (simp_all add: calm_def)

section \<open>Relational operations\<close>

text \<open>
  A table is the list of its rows. \<open>sql_update p f t\<close> is an \<open>UPDATE\<close> whose \<open>WHERE\<close> clause is \<open>p\<close>,
  \<open>sql_count p t\<close> the number of rows it affects.
\<close>

definition sql_update :: "('r \<Rightarrow> bool) \<Rightarrow> ('r \<Rightarrow> 'r) \<Rightarrow> 'r list \<Rightarrow> 'r list" where
  "sql_update p f t = map (\<lambda>r. if p r then f r else r) t"

definition sql_count :: "('r \<Rightarrow> bool) \<Rightarrow> 'r list \<Rightarrow> nat" where
  "sql_count p t = length (filter p t)"

text \<open>\<open>unique_on k t\<close>: a \<open>UNIQUE\<close> constraint; rows whose key is NULL do not take part.\<close>

definition unique_on :: "('r \<Rightarrow> 'k option) \<Rightarrow> 'r list \<Rightarrow> bool" where
  "unique_on k t \<longleftrightarrow> distinct (List.map_filter k t)"

lemma sql_update_Nil [simp]: "sql_update p f [] = []"
  by (simp add: sql_update_def)

lemma sql_update_Cons [simp]:
  "sql_update p f (r # t) = (if p r then f r else r) # sql_update p f t"
  by (simp add: sql_update_def)

lemma sql_update_append [sql_simps]: "sql_update p f (s @ t) = sql_update p f s @ sql_update p f t"
  by (simp add: sql_update_def)

lemma set_sql_update [sql_simps]:
  "set (sql_update p f t) = f ` {r \<in> set t. p r} \<union> {r \<in> set t. \<not> p r}"
  by (auto simp: sql_update_def)

lemma sql_update_in: "r \<in> set (sql_update p f t) \<Longrightarrow> \<exists>r0 \<in> set t. r = (if p r0 then f r0 else r0)"
  by (auto simp: sql_update_def)

lemma length_sql_update [simp]: "length (sql_update p f t) = length t"
  by (simp add: sql_update_def)

lemma sql_update_none [sql_simps]: "sql_count p t = 0 \<Longrightarrow> sql_update p f t = t"
  by (induction t) (auto simp: sql_count_def split: if_splits)

lemma sql_count_pos [sql_simps]: "sql_count p t = 0 \<longleftrightarrow> (\<forall>r \<in> set t. \<not> p r)"
  by (simp add: sql_count_def filter_empty_conv)

lemma map_sql_update [sql_simps]:
  assumes "\<And>r. g (f r) = g r"
  shows "map g (sql_update p f t) = map g t"
  using assms by (induction t) auto

lemma map_filter_sql_update:
  assumes "\<And>r. p r \<Longrightarrow> k (f r) = k r"
  shows "List.map_filter k (sql_update p f t) = List.map_filter k t"
  using assms by (induction t) (auto split: option.splits)

lemma unique_on_update [sql_simps]:
  assumes "\<And>r. p r \<Longrightarrow> k (f r) = k r"
  shows "unique_on k (sql_update p f t) = unique_on k t"
  using map_filter_sql_update [of p k f t] assms by (simp add: unique_on_def)

lemma map_filter_drop:
  assumes "\<And>r. p r \<Longrightarrow> k (f r) = None"
  shows "List.map_filter k (sql_update p f t) = List.map_filter k (filter (\<lambda>r. \<not> p r) t)"
  using assms by (induction t) (auto split: option.splits)

lemma set_map_filter [sql_simps]: "set (List.map_filter k t) = {x. \<exists>r \<in> set t. k r = Some x}"
  by (induction t) (auto split: option.splits)

lemma distinct_map_filter_filter:
  "distinct (List.map_filter k t) \<Longrightarrow> distinct (List.map_filter k (filter q t))"
  by (induction t) (auto simp: set_map_filter split: option.splits)

text \<open>An update that sets the key of the rows it touches to NULL keeps uniqueness.\<close>

lemma unique_on_update_None [sql_simps]:
  assumes "\<And>r. p r \<Longrightarrow> k (f r) = None" and "unique_on k t"
  shows "unique_on k (sql_update p f t)"
  using assms by (simp add: unique_on_def map_filter_drop distinct_map_filter_filter)

lemma unique_on_Nil [simp]: "unique_on k []"
  by (simp add: unique_on_def)

lemma unique_on_append [sql_simps]:
  "unique_on k (t @ [r]) \<longleftrightarrow>
     unique_on k t \<and> (case k r of None \<Rightarrow> True | Some x \<Rightarrow> \<forall>r' \<in> set t. k r' \<noteq> Some x)"
proof -
  have "List.map_filter k (t @ [r]) = List.map_filter k t @ (case k r of None \<Rightarrow> [] | Some x \<Rightarrow> [x])"
    by (induction t) (auto split: option.splits)
  then show ?thesis
    by (auto simp: unique_on_def set_map_filter split: option.splits)
qed

lemma unique_onD:
  assumes "unique_on k t" "r \<in> set t" "r' \<in> set t" "k r = Some x" "k r' = Some x"
  shows "r = r'"
  using assms
  by (induction t) (auto simp: unique_on_def set_map_filter split: option.splits)

text \<open>
  An update that gives the rows of one primary key the same fresh key keeps uniqueness.
\<close>

lemma unique_on_update_one:
  assumes "unique_on k t" "unique_on (\<lambda>r. Some (q r)) t" "\<And>r. r \<in> set t \<Longrightarrow> k r \<noteq> Some x"
    and "\<And>r. k (f r) = Some x"
  shows "unique_on k (sql_update (\<lambda>r. q r = i) f t)"
  using assms(1-3)
proof (induction t)
  case (Cons r t)
  have IH: "unique_on k (sql_update (\<lambda>r. q r = i) f t)"
    using Cons by (auto simp: unique_on_def split: option.splits)
  have rest: "sql_update (\<lambda>r. q r = i) f t = t" if "q r = i"
    using Cons.prems(2) that
    by (intro sql_update_none) (auto simp: sql_count_pos unique_on_def set_map_filter)
  show ?case
  proof (cases "q r = i")
    case True
    with Cons.prems rest show ?thesis
      by (auto simp: unique_on_def assms(4) set_map_filter split: option.splits)
  next
    case False
    have "k r' \<noteq> Some y" if "r' \<in> set (sql_update (\<lambda>r. q r = i) f t)" "k r = Some y" for r' y
      using that Cons.prems
      by (auto simp: set_sql_update assms(4) unique_on_def set_map_filter split: option.splits)
    with IH False show ?thesis
      by (auto simp: unique_on_def set_map_filter split: option.splits)
  qed
qed simp

section \<open>State machines\<close>

text \<open>
  The contract every stateful component has: a step relation (which request or event comes next is
  not determined) and an invariant that each step keeps; it then holds in every state reached from
  one where it holds.
\<close>

inductive reach :: "'s \<Rightarrow> ('s \<Rightarrow> 's \<Rightarrow> bool) \<Rightarrow> 's \<Rightarrow> bool" for s0 step where
  reach_start: "reach s0 step s0"
| reach_step: "reach s0 step s \<Longrightarrow> step s t \<Longrightarrow> reach s0 step t"

lemma reach_trans: "reach a st b \<Longrightarrow> reach b st c \<Longrightarrow> reach a st c"
  by (rotate_tac 1, induction rule: reach.induct) (auto intro: reach_step)

locale invariant_system =
  fixes step :: "'s \<Rightarrow> 's \<Rightarrow> bool" and inv :: "'s \<Rightarrow> bool"
  assumes inv_step: "inv s \<Longrightarrow> step s t \<Longrightarrow> inv t"
begin

lemma reach_inv: "reach s0 step s \<Longrightarrow> inv s0 \<Longrightarrow> inv s"
  by (induction rule: reach.induct) (auto intro: inv_step)

end

end
