(* ===== verification/Ratelimit.thy ===== *)
theory Ratelimit
  imports Prelude
begin

text \<open>
  Package \<open>internal/ratelimit\<close>: the in-memory limiter of development servers (\<open>memory.go\<close>), the
  Redis limiter (\<open>redis.go\<close>) with its two scripts, limiter keys, and the decision every handler
  takes from them. The commands of Redis itself are arguments of the model (\<open>redis_ops\<close>).
\<close>

section \<open>The in-memory limiter\<close>

definition memorySweepEvery :: int where "memorySweepEvery = 64"
definition memoryMaxBuckets :: nat where "memoryMaxBuckets = 100000"

datatype limit_error =
    LimiterUnavailable | KeyRequired | NotPositive | ErrMemoryLimiterOverloaded
  | RedisFailed | UnexpectedResult

record decision =
  Allowed :: bool
  Count :: int
  RetryAfter :: duration

record memoryBucket =
  count :: int
  expireAt :: time

text \<open>A Go map is an association list with distinct keys; \<open>len\<close> is its length.\<close>

record MemoryLimiter =
  buckets :: "(string \<times> memoryBucket) list"
  sinceGC :: int

definition NewMemoryLimiter :: MemoryLimiter where
  "NewMemoryLimiter = \<lparr>buckets = [], sinceGC = 0\<rparr>"

definition sweepLocked :: "MemoryLimiter \<Rightarrow> time \<Rightarrow> MemoryLimiter" where
  "sweepLocked l now = l\<lparr>buckets := filter (\<lambda>(k, b). now < expireAt b) (buckets l)\<rparr>"

text \<open>
  \<open>Allow\<close> reads the clock twice: \<open>now\<close> before taking the lock and \<open>now'\<close> for the time that remains.
\<close>

definition memory_gc :: "MemoryLimiter \<Rightarrow> time \<Rightarrow> MemoryLimiter" where
  "memory_gc l now =
     (let l1 = l\<lparr>sinceGC := sinceGC l + 1\<rparr> in
      if memorySweepEvery \<le> sinceGC l1 then (sweepLocked l1 now)\<lparr>sinceGC := 0\<rparr> else l1)"

definition memory_hit :: "MemoryLimiter \<Rightarrow> string \<Rightarrow> int \<Rightarrow> memoryBucket \<Rightarrow> time \<Rightarrow>
    (limit_error + decision) \<times> MemoryLimiter" where
  "memory_hit l key limit b now' =
     (let b' = b\<lparr>count := count b + 1\<rparr> in
      (Inr \<lparr>Allowed = (count b' \<le> limit), Count = count b',
            RetryAfter = max 0 (expireAt b' - now')\<rparr>,
       l\<lparr>buckets := AList.update key b' (buckets l)\<rparr>))"

definition memory_Allow :: "MemoryLimiter option \<Rightarrow> string \<Rightarrow> int \<Rightarrow> duration \<Rightarrow> time \<Rightarrow> time \<Rightarrow>
    (limit_error + decision) \<times> MemoryLimiter option" where
  "memory_Allow lo key limit window now now' =
     (case lo of None \<Rightarrow> (Inl LimiterUnavailable, None)
      | Some l \<Rightarrow>
          if TrimSpace key = [] then (Inl KeyRequired, lo)
          else if limit \<le> 0 \<or> window \<le> 0 then (Inl NotPositive, lo)
          else let l1 = memory_gc l now in
            (case map_of (buckets l1) key of
               Some b \<Rightarrow>
                 if now < expireAt b then apsnd Some (memory_hit l1 key limit b now')
                 else apsnd Some (memory_hit l1 key limit
                        \<lparr>count = 0, expireAt = now + window\<rparr> now')
             | None \<Rightarrow>
                 if memoryMaxBuckets \<le> length (buckets l1)
                 then (Inl ErrMemoryLimiterOverloaded, Some l1)
                 else apsnd Some (memory_hit l1 key limit
                        \<lparr>count = 0, expireAt = now + window\<rparr> now')))"

text \<open>The call as a step of a limiter that exists, both readings of the clock being the same.\<close>

definition memory_step :: "MemoryLimiter \<Rightarrow> string \<Rightarrow> int \<Rightarrow> duration \<Rightarrow> time \<Rightarrow>
    (limit_error + decision) \<times> MemoryLimiter" where
  "memory_step l key limit window now =
     (case memory_Allow (Some l) key limit window now now of
        (res, Some l') \<Rightarrow> (res, l') | (res, None) \<Rightarrow> (res, l))"

section \<open>The Redis limiter\<close>

text \<open>
  The Redis commands the two scripts call. A key holds a counter and possibly an expiry;
  \<open>PTTL\<close> answers in milliseconds, negative when there is no key or no expiry.
\<close>

record 'r redis_ops =
  INCR :: "string \<Rightarrow> time \<Rightarrow> 'r \<Rightarrow> int \<times> 'r"
  PEXPIRE :: "string \<Rightarrow> int \<Rightarrow> time \<Rightarrow> 'r \<Rightarrow> 'r"
  PTTL :: "string \<Rightarrow> time \<Rightarrow> 'r \<Rightarrow> int"
  GET :: "string \<Rightarrow> time \<Rightarrow> 'r \<Rightarrow> int option"

datatype any_val = AnyInt64 int | AnyInt int | AnyString string | AnyFloat64 int | AnyOther

text \<open>A reply of \<open>Script.Run\<close>: a list of values or something else.\<close>

datatype script_reply = ReplyList "any_val list" | ReplyOther

definition allowScript :: "'r redis_ops \<Rightarrow> string \<Rightarrow> int \<Rightarrow> time \<Rightarrow> 'r \<Rightarrow> script_reply \<times> 'r" where
  "allowScript R k ms now r =
     (let (current, r1) = INCR R k now r;
          r2 = (if current = 1 then PEXPIRE R k ms now r1 else r1)
      in (ReplyList [AnyInt64 current, AnyInt64 (PTTL R k now r2)], r2))"

definition peekScript :: "'r redis_ops \<Rightarrow> string \<Rightarrow> time \<Rightarrow> 'r \<Rightarrow> script_reply" where
  "peekScript R k now r =
     (case GET R k now r of None \<Rightarrow> ReplyList [AnyInt64 0, AnyInt64 0]
      | Some current \<Rightarrow> ReplyList [AnyInt64 current, AnyInt64 (PTTL R k now r)])"

text \<open>A \<open>float64\<close> is given by its truncation to an integer.\<close>

fun toInt64 :: "any_val \<Rightarrow> limit_error + int" where
  "toInt64 (AnyInt64 v) = Inr v"
| "toInt64 (AnyInt v) = Inr v"
| "toInt64 (AnyString s) = (case Atoi s of Some v \<Rightarrow> Inr v | None \<Rightarrow> Inl UnexpectedResult)"
| "toInt64 (AnyFloat64 v) = Inr v"
| "toInt64 AnyOther = Inl UnexpectedResult"

definition parseDecision :: "script_reply \<Rightarrow> limit_error + decision" where
  "parseDecision result =
     (case result of ReplyList [v0, v1] \<Rightarrow>
        (case toInt64 v0 of Inl e \<Rightarrow> Inl e
         | Inr c \<Rightarrow>
             (case toInt64 v1 of Inl e \<Rightarrow> Inl e
              | Inr ttlMillis \<Rightarrow>
                  Inr \<lparr>Allowed = False, Count = c, RetryAfter = max 0 ttlMillis * 1000000\<rparr>))
      | _ \<Rightarrow> Inl UnexpectedResult)"

definition redisKey :: "string \<Rightarrow> string \<Rightarrow> string" where
  "redisKey rprefix key = (if rprefix = [] then key else rprefix @ '':'' @ key)"

definition Key :: "string list \<Rightarrow> string" where
  "Key parts = Join (filter (\<lambda>p. p \<noteq> []) (map TrimSpace parts)) '':''"

text \<open>
  The limiter a handler holds: the interface value is nil, a \<open>MemoryLimiter\<close> or a \<open>RedisLimiter\<close>
  (whose key prefix is \<open>ratelimit\<close>). \<open>fail\<close> tells whether the call to Redis fails.
\<close>

datatype 'r limiter = NilLimiter | InMemory "MemoryLimiter" | OnRedis 'r

abbreviation (input) rkey :: "string \<Rightarrow> string" where
  "rkey key \<equiv> redisKey ''ratelimit'' key"

definition redis_bump :: "'r redis_ops \<Rightarrow> bool \<Rightarrow> string \<Rightarrow> duration \<Rightarrow> time \<Rightarrow> 'r \<Rightarrow>
    (limit_error + decision) \<times> 'r" where
  "redis_bump R fail key window now r =
     (if fail then (Inl RedisFailed, r)
      else let (res, r') = allowScript R (rkey key) (window div 1000000) now r
           in (parseDecision res, r'))"

definition redis_Allow :: "'r redis_ops \<Rightarrow> bool \<Rightarrow> string \<Rightarrow> int \<Rightarrow> duration \<Rightarrow> time \<Rightarrow> 'r \<Rightarrow>
    (limit_error + decision) \<times> 'r" where
  "redis_Allow R fail key limit window now r =
     (if TrimSpace key = [] then (Inl KeyRequired, r)
      else if limit \<le> 0 then (Inl NotPositive, r)
      else if window \<le> 0 then (Inl NotPositive, r)
      else (case redis_bump R fail key window now r of
              (Inl e, r') \<Rightarrow> (Inl e, r')
            | (Inr d, r') \<Rightarrow> (Inr (d\<lparr>Allowed := Count d \<le> limit\<rparr>), r')))"

definition redis_Hit :: "'r redis_ops \<Rightarrow> bool \<Rightarrow> string \<Rightarrow> duration \<Rightarrow> time \<Rightarrow> 'r \<Rightarrow>
    (limit_error + decision) \<times> 'r" where
  "redis_Hit R fail key window now r =
     (if TrimSpace key = [] then (Inl KeyRequired, r)
      else if window \<le> 0 then (Inl NotPositive, r)
      else redis_bump R fail key window now r)"

definition redis_Peek :: "'r redis_ops \<Rightarrow> bool \<Rightarrow> string \<Rightarrow> time \<Rightarrow> 'r \<Rightarrow> limit_error + decision" where
  "redis_Peek R fail key now r =
     (if TrimSpace key = [] then Inl KeyRequired
      else if fail then Inl RedisFailed
      else parseDecision (peekScript R (rkey key) now r))"

fun limiter_Allow :: "'r redis_ops \<Rightarrow> bool \<Rightarrow> string \<Rightarrow> int \<Rightarrow> duration \<Rightarrow> time \<Rightarrow> 'r limiter \<Rightarrow>
    (limit_error + decision) \<times> 'r limiter" where
  "limiter_Allow R fail key limit window now NilLimiter = (Inl LimiterUnavailable, NilLimiter)"
| "limiter_Allow R fail key limit window now (InMemory l) =
     (case memory_step l key limit window now of (res, l') \<Rightarrow> (res, InMemory l'))"
| "limiter_Allow R fail key limit window now (OnRedis r) =
     (case redis_Allow R fail key limit window now r of (res, r') \<Rightarrow> (res, OnRedis r'))"

section \<open>The decision of a handler\<close>

text \<open>
  \<open>writeRateLimitError\<close>: whole seconds, rounded up, at least one.
\<close>

definition retry_seconds :: "duration \<Rightarrow> int" where
  "retry_seconds ra =
     (let s = sgn ra * (\<bar>ra\<bar> div Second); s1 = (if ra mod Second \<noteq> 0 then s + 1 else s)
      in if s1 < 1 then 1 else s1)"

text \<open>\<open>allowRateLimit\<close>: \<^const>\<open>None\<close> lets the request through.\<close>

definition allowRateLimit :: "'r redis_ops \<Rightarrow> bool \<Rightarrow> string \<Rightarrow> int \<Rightarrow> duration \<Rightarrow> time \<Rightarrow> 'r limiter \<Rightarrow>
    'a response option \<times> 'r limiter" where
  "allowRateLimit R fail key limit window now l =
     (case limiter_Allow R fail key limit window now l of
        (Inl e, l') \<Rightarrow> (Some (Error 503 ''rate limiting unavailable''), l')
      | (Inr d, l') \<Rightarrow>
          if Allowed d then (None, l') else (Some (RateLimited (retry_seconds (RetryAfter d))), l'))"

section \<open>The contract of a limiter\<close>

text \<open>
  What the handlers rely on (interface \<open>Limiter\<close>): per key a window with a count and an end. A
  request in an open window counts one more, the first request without one opens it for the
  requested duration (to the millisecond), and neither another key nor an error touches it.
\<close>

locale rate_limiter =
  fixes allow :: "'l \<Rightarrow> string \<Rightarrow> int \<Rightarrow> duration \<Rightarrow> time \<Rightarrow> (limit_error + decision) \<times> 'l"
    and open_window :: "'l \<Rightarrow> string \<Rightarrow> time \<Rightarrow> (int \<times> time) option"
    and linv :: "'l \<Rightarrow> bool"
  assumes linv_allow: "linv l \<Longrightarrow> allow l k n w t = (res, l') \<Longrightarrow> linv l'"
    and hit_open: "linv l \<Longrightarrow> allow l k n w t = (Inr d, l') \<Longrightarrow> open_window l k t = Some (c, e) \<Longrightarrow>
      Count d = c + 1 \<and> (Allowed d \<longleftrightarrow> c + 1 \<le> n) \<and> open_window l' k t = Some (c + 1, e)"
    and hit_closed: "linv l \<Longrightarrow> allow l k n w t = (Inr d, l') \<Longrightarrow> open_window l k t = None \<Longrightarrow>
      1000000 \<le> w \<Longrightarrow> Count d = 1 \<and> (Allowed d \<longleftrightarrow> 1 \<le> n) \<and>
      (\<exists>e. open_window l' k t = Some (1, e) \<and> t + w div 1000000 * 1000000 \<le> e \<and> e \<le> t + w)"
    and frame: "linv l \<Longrightarrow> allow l k n w t = (res, l') \<Longrightarrow> k' \<noteq> k \<or> (\<exists>e. res = Inl e) \<Longrightarrow>
      open_window l' k' t = open_window l k' t"
    and stays_open: "open_window l k t = Some (c, e) \<Longrightarrow> t \<le> t' \<Longrightarrow> t' < e \<Longrightarrow>
      open_window l k t' = Some (c, e)"
    and stays_closed: "open_window l k t = None \<Longrightarrow> t \<le> t' \<Longrightarrow> open_window l k t' = None"

text \<open>How many requests for a key a run of requests (key, limit, window, time) lets through.\<close>

fun granted :: "('l \<Rightarrow> string \<Rightarrow> int \<Rightarrow> duration \<Rightarrow> time \<Rightarrow> (limit_error + decision) \<times> 'l) \<Rightarrow>
    string \<Rightarrow> 'l \<Rightarrow> (string \<times> int \<times> duration \<times> time) list \<Rightarrow> int" where
  "granted f k l [] = 0"
| "granted f k l ((k', n, w, t) # rs) =
     (case f l k' n w t of
        (Inl e, l') \<Rightarrow> granted f k l' rs
      | (Inr d, l') \<Rightarrow> (if k' = k \<and> Allowed d then 1 else 0) + granted f k l' rs)"

text \<open>
  A run for limit \<open>n\<close> and window \<open>w\<close> of key \<open>k\<close> whose times do not decrease and stay in
  \<open>[t, h)\<close>.
\<close>

fun timed_run :: "string \<Rightarrow> int \<Rightarrow> duration \<Rightarrow> time \<Rightarrow> time \<Rightarrow>
    (string \<times> int \<times> duration \<times> time) list \<Rightarrow> bool" where
  "timed_run k n w t h [] = True"
| "timed_run k n w t h ((k', n', w', t') # rs) =
     (t \<le> t' \<and> t' < h \<and> (k' = k \<longrightarrow> n' = n \<and> w' = w) \<and> timed_run k n w t' h rs)"

context rate_limiter
begin

lemma granted_open:
  assumes "linv l" "open_window l k t = Some (c, e)" "timed_run k n w t h rs" "h \<le> e"
  shows "granted allow k l rs \<le> max 0 (n - c)"
  using assms
proof (induction rs arbitrary: l t c)
  case Nil
  then show ?case by simp
next
  case (Cons r rs)
  obtain k' n' w' t' where r: "r = (k', n', w', t')" by (cases r)
  from Cons.prems r have t': "t \<le> t'" "t' < h" and own: "k' = k \<Longrightarrow> n' = n \<and> w' = w"
    and rest: "timed_run k n w t' h rs" by auto
  have op: "open_window l k t' = Some (c, e)"
    using Cons.prems(2,4) t' by (auto intro: stays_open)
  obtain res l' where a: "allow l k' n' w' t' = (res, l')" by force
  have li: "linv l'" using Cons.prems(1) a by (rule linv_allow)
  show ?case
  proof (cases "k' = k \<and> (\<exists>d. res = Inr d)")
    case True
    then obtain d where d: "res = Inr d" "k' = k" by auto
    have h: "(Allowed d \<longleftrightarrow> c + 1 \<le> n)" "open_window l' k t' = Some (c + 1, e)"
      using hit_open [OF Cons.prems(1) _ op] a d own by auto
    from Cons.IH [OF li h(2) rest Cons.prems(4)] h(1) show ?thesis
      using r a d by auto
  next
    case False
    then have "open_window l' k t' = Some (c, e)"
      using frame [OF Cons.prems(1) a, of k] op by (cases res) auto
    from Cons.IH [OF li this rest Cons.prems(4)] False show ?thesis
      using r a by (cases res) auto
  qed
qed

text \<open>At most the limit is granted within one window.\<close>

lemma granted_fresh:
  assumes "linv l" "open_window l k t = None" "1000000 \<le> w" "0 \<le> n"
    and "timed_run k n w t h rs" "h \<le> t + w div 1000000 * 1000000"
  shows "granted allow k l rs \<le> n"
  using assms
proof (induction rs arbitrary: l t)
  case Nil
  then show ?case by simp
next
  case (Cons r rs)
  obtain k' n' w' t' where r: "r = (k', n', w', t')" by (cases r)
  from Cons.prems r have t': "t \<le> t'" "t' < h" and own: "k' = k \<Longrightarrow> n' = n \<and> w' = w"
    and rest: "timed_run k n w t' h rs" by auto
  have cl: "open_window l k t' = None" using Cons.prems(2) t' by (auto intro: stays_closed)
  obtain res l' where a: "allow l k' n' w' t' = (res, l')" by force
  have li: "linv l'" using Cons.prems(1) a by (rule linv_allow)
  show ?case
  proof (cases "k' = k \<and> (\<exists>d. res = Inr d)")
    case True
    then obtain d where d: "res = Inr d" "k' = k" by auto
    with a own have "allow l k n w t' = (Inr d, l')" by simp
    from hit_closed [OF Cons.prems(1) this cl Cons.prems(3)] obtain e
      where h: "(Allowed d \<longleftrightarrow> 1 \<le> n)" "open_window l' k t' = Some (1, e)"
        "t' + w div 1000000 * 1000000 \<le> e" by blast
    have "h \<le> e" using Cons.prems(6) h(3) t' by simp
    from granted_open [OF li h(2) rest this] h(1) Cons.prems(4) show ?thesis
      using r a d by auto
  next
    case False
    then have "open_window l' k t' = None"
      using frame [OF Cons.prems(1) a, of k] cl by (cases res) auto
    from Cons.IH [OF li this Cons.prems(3,4) rest] False Cons.prems(6) t' show ?thesis
      using r a by (cases res) auto
  qed
qed

end

section \<open>The in-memory limiter meets the contract\<close>

definition memory_window :: "MemoryLimiter \<Rightarrow> string \<Rightarrow> time \<Rightarrow> (int \<times> time) option" where
  "memory_window l k t =
     (case map_of (buckets l) k of None \<Rightarrow> None
      | Some b \<Rightarrow> if t < expireAt b then Some (count b, expireAt b) else None)"

definition memory_inv :: "MemoryLimiter \<Rightarrow> bool" where
  "memory_inv l \<longleftrightarrow> distinct (map fst (buckets l)) \<and> length (buckets l) \<le> memoryMaxBuckets \<and>
     0 \<le> sinceGC l \<and> sinceGC l < memorySweepEvery"

lemma map_of_filter_val:
  "distinct (map fst xs) \<Longrightarrow>
   map_of (filter (\<lambda>(k, v). P v) xs) k =
     (case map_of xs k of None \<Rightarrow> None | Some v \<Rightarrow> if P v then Some v else None)"
  by (induction xs) (force split: option.splits dest: map_of_SomeD simp: image_iff)+

lemma distinct_fst_filter: "distinct (map fst xs) \<Longrightarrow> distinct (map fst (filter P xs))"
  by (induction xs) auto

lemma memory_gc_window:
  "memory_inv l \<Longrightarrow> memory_window (memory_gc l t) k t = memory_window l k t"
  by (auto simp: memory_gc_def sweepLocked_def memory_window_def memory_inv_def Let_def
      map_of_filter_val split: option.splits)

lemma memory_gc_inv [inv_pres]: "memory_inv l \<Longrightarrow> memory_inv (memory_gc l t)"
  by (auto simp: memory_gc_def sweepLocked_def memory_inv_def Let_def memorySweepEvery_def
      distinct_fst_filter intro: order_trans [OF length_filter_le])

lemma length_alist_update:
  "length (AList.update k v xs) = (if map_of xs k = None then Suc (length xs) else length xs)"
  by (induction xs) auto

lemma memory_hit_inv [inv_pres]:
  assumes "memory_inv l" "map_of (buckets l) k \<noteq> None \<or> length (buckets l) < memoryMaxBuckets"
  shows "memory_inv (snd (memory_hit l k n b t))"
  using assms
  by (auto simp: memory_hit_def memory_inv_def Let_def distinct_update length_alist_update)

lemma memory_hit_window:
  "memory_window (snd (memory_hit l k n b t')) k' t =
     (if k' = k then if t < expireAt b then Some (count b + 1, expireAt b) else None
      else memory_window l k' t)"
  by (auto simp: memory_hit_def memory_window_def Let_def update_conv split: option.splits)

lemmas memory_step_defs = memory_step_def memory_Allow_def

lemma apsnd_Some_eq [simp]:
  "apsnd Some p = (a, Some b) \<longleftrightarrow> p = (a, b)" "apsnd Some p \<noteq> (a, None)"
  by (cases p; auto)+

lemma memory_step_inv [inv_pres]:
  assumes "memory_inv l" "memory_step l k n w t = (res, l')"
  shows "memory_inv l'"
proof -
  have hit: "memory_inv l'"
    if "memory_hit (memory_gc l t) k n b t = (res, l')"
      "map_of (buckets (memory_gc l t)) k \<noteq> None \<or> length (buckets (memory_gc l t)) < memoryMaxBuckets"
    for b
    using memory_hit_inv [OF memory_gc_inv [OF assms(1)] that(2), of n b t] that(1) by simp
  show ?thesis
    using assms memory_gc_inv [OF assms(1), of t]
    by (auto simp: memory_step_defs Let_def not_le intro: hit
        split: if_splits option.splits prod.splits)
qed

interpretation mem: rate_limiter memory_step memory_window memory_inv
proof (unfold_locales, goal_cases)
  case (1 l k n w t res l')
  then show ?case by (rule memory_step_inv)
next
  case (2 l k n w t d l' c e)
  then have "memory_window (memory_gc l t) k t = Some (c, e)" by (simp add: memory_gc_window)
  with 2(2) show ?case
    by (auto simp: memory_step_defs Let_def memory_window_def memory_hit_def update_conv
        split: if_splits option.splits)
next
  case (3 l k n w t d l')
  have "w div 1000000 * 1000000 \<le> w"
    using div_mult_mod_eq [of w 1000000] pos_mod_sign [of 1000000 w] by linarith
  moreover from 3 have "memory_window (memory_gc l t) k t = None" by (simp add: memory_gc_window)
  ultimately show ?case using 3(2)
    by (auto simp: memory_step_defs Let_def memory_window_def memory_hit_def update_conv
        split: if_splits option.splits)
next
  case (4 l k n w t res l' k')
  have g: "memory_window (memory_gc l t) k' t = memory_window l k' t"
    using 4(1) by (rule memory_gc_window)
  show ?case
  proof (cases "\<exists>d. res = Inr d")
    case True
    with 4(2,3) g show ?thesis
      by (auto simp: memory_step_defs Let_def memory_hit_def memory_window_def update_conv
          split: if_splits option.splits)
  next
    case False
    with 4(2) g show ?thesis
      by (auto simp: memory_step_defs Let_def memory_hit_def split: if_splits option.splits)
  qed
next
  case (5 l k t c e t')
  then show ?case by (auto simp: memory_window_def split: option.splits if_splits)
next
  case (6 l k t t')
  then show ?case by (auto simp: memory_window_def split: option.splits if_splits)
qed

text \<open>
  C24. The in-memory limiter keeps its promise: started on a key without an open window, it lets
  through at most \<open>n\<close> of the requests for that key that arrive within one window, however the
  requests are interleaved with requests for other keys, sweeps and refusals at capacity.
\<close>

theorem memory_limiter_grants:
  assumes "memory_inv l" "memory_window l k t = None" "1000000 \<le> w" "0 \<le> n"
    and "timed_run k n w t h rs" "h \<le> t + w div 1000000 * 1000000"
  shows "granted memory_step k l rs \<le> n"
  using assms by (rule mem.granted_fresh)

theorem memory_limiter_grants_witness:
  "granted memory_step ''a'' NewMemoryLimiter
     [(''a'', 1, Second, 5), (''b'', 9, Minute, 6), (''a'', 1, Second, 7)] \<le> 1 \<and>
   granted memory_step ''a'' NewMemoryLimiter
     [(''a'', 1, Second, 5), (''b'', 9, Minute, 6), (''a'', 1, Second, 7)] = 1"
  using memory_limiter_grants
    [of NewMemoryLimiter "''a''" 5 Second 1 "5 + Second"
       "[(''a'', 1, Second, 5), (''b'', 9, Minute, 6), (''a'', 1, Second, 7)]"]
  by (simp add: memory_inv_def NewMemoryLimiter_def memory_window_def memorySweepEvery_def
      Second_def Minute_def memory_step_defs memory_gc_def sweepLocked_def memory_hit_def
      memoryMaxBuckets_def TrimSpace_def trim_left_def trim_right_def space1_def less_eq_char_def)

subsection \<open>The map of buckets stays bounded and expired buckets go\<close>

fun memory_run :: "MemoryLimiter \<Rightarrow> (string \<times> int \<times> duration \<times> time) list \<Rightarrow> MemoryLimiter" where
  "memory_run l [] = l"
| "memory_run l ((k, n, w, t) # rs) = memory_run (snd (memory_step l k n w t)) rs"

lemma memory_run_inv [inv_pres]: "memory_inv l \<Longrightarrow> memory_inv (memory_run l rs)"
  by (induction l rs rule: memory_run.induct)
    (auto intro: memory_step_inv [OF _ surjective_pairing])

text \<open>A well-formed request: \<open>Allow\<close> gets past its argument checks.\<close>

fun proper_request :: "string \<times> int \<times> duration \<times> time \<Rightarrow> bool" where
  "proper_request (k, n, w, t) \<longleftrightarrow> TrimSpace k \<noteq> [] \<and> 0 < n \<and> 0 < w"

lemma memory_step_other:
  assumes "k' \<noteq> k" "proper_request (k, n, w, t)"
  shows "map_of (buckets (snd (memory_step l k n w t))) k' = map_of (buckets (memory_gc l t)) k'"
    and "sinceGC (snd (memory_step l k n w t)) = sinceGC (memory_gc l t)"
  using assms
  by (auto simp: memory_step_defs Let_def memory_hit_def update_conv split: option.splits)

lemma memory_gc_other:
  assumes "memory_inv l"
  shows "sinceGC (memory_gc l t) = (if sinceGC l + 1 = memorySweepEvery then 0 else sinceGC l + 1)"
    and "map_of (buckets (memory_gc l t)) k =
      (if sinceGC l + 1 = memorySweepEvery \<and> (\<exists>b. map_of (buckets l) k = Some b \<and> expireAt b \<le> t)
       then None else map_of (buckets l) k)"
  using assms
  by (auto simp: memory_gc_def sweepLocked_def memory_inv_def Let_def map_of_filter_val
      memorySweepEvery_def simp del: map_of_eq_Some_iff split: option.splits)

lemma memory_run_gone:
  assumes "memory_inv l" "map_of (buckets l) k = None"
    and "\<forall>(k', n, w, t) \<in> set rs. k' \<noteq> k \<and> proper_request (k', n, w, t)"
  shows "map_of (buckets (memory_run l rs)) k = None"
  using assms
proof (induction l rs rule: memory_run.induct)
  case (2 l k' n w t rs)
  have "map_of (buckets (snd (memory_step l k' n w t))) k = None"
    using 2 memory_step_other(1) [of k k' n w t l] memory_gc_other(2) [of l t k] by auto
  then show ?case
    using 2 memory_step_inv [of l k' n w t] by (auto simp: prod_eq_iff)
qed simp

lemma memory_run_swept:
  assumes "memory_inv l" "\<forall>b. map_of (buckets l) k = Some b \<longrightarrow> expireAt b \<le> T"
    and "\<forall>(k', n, w, t) \<in> set rs. k' \<noteq> k \<and> T \<le> t \<and> proper_request (k', n, w, t)"
    and "memorySweepEvery \<le> sinceGC l + int (length rs)"
  shows "map_of (buckets (memory_run l rs)) k = None"
  using assms
proof (induction l rs rule: memory_run.induct)
  case (1 l)
  then show ?case by (simp add: memory_inv_def)
next
  case (2 l k' n w t rs)
  let ?l = "snd (memory_step l k' n w t)"
  have other: "map_of (buckets ?l) k = map_of (buckets (memory_gc l t)) k"
    "sinceGC ?l = sinceGC (memory_gc l t)"
    using 2 memory_step_other [of k k' n w t l] by auto
  have inv: "memory_inv ?l"
    using 2 memory_step_inv [of l k' n w t] by (auto simp: prod_eq_iff)
  show ?case
  proof (cases "sinceGC l + 1 = memorySweepEvery")
    case True
    moreover have "expireAt b \<le> t" if "map_of (buckets l) k = Some b" for b
      using that 2(3,4) by fastforce
    ultimately have "map_of (buckets ?l) k = None"
      using memory_gc_other(2) [OF 2(2), of t k] other(1)
      by (cases "map_of (buckets l) k") simp_all
    then show ?thesis using memory_run_gone [OF inv, of k rs] 2(4) by fastforce
  next
    case False
    then show ?thesis using 2 other inv memory_gc_other [of l t] by auto
  qed
qed

text \<open>
  No bucket outlives its window by more than a sweep period: once the window of a key has
  closed, any \<open>memorySweepEvery\<close> further well-formed requests for other keys leave no bucket for
  it, and at every moment there are at most \<open>memoryMaxBuckets\<close> buckets.
\<close>

theorem memory_expired_evicted:
  assumes "memory_inv l" "map_of (buckets l) k = Some b" "expireAt b \<le> T"
    and "\<forall>(k', n, w, t) \<in> set rs. k' \<noteq> k \<and> T \<le> t \<and> proper_request (k', n, w, t)"
    and "memorySweepEvery \<le> int (length rs)"
  shows "map_of (buckets (memory_run l rs)) k = None \<and>
    length (buckets (memory_run l rs)) \<le> memoryMaxBuckets"
  using assms memory_run_swept [of l k T rs] memory_run_inv [of l rs]
  by (auto simp: memory_inv_def)

theorem memory_expired_evicted_witness:
  "map_of (buckets (memory_run
     \<lparr>buckets = [(''a'', \<lparr>count = 3, expireAt = 10\<rparr>)], sinceGC = 7\<rparr>
     (replicate 64 (''b'', 5, Second, 12)))) ''a'' = None"
  using memory_expired_evicted
    [of "\<lparr>buckets = [(''a'', \<lparr>count = 3, expireAt = 10\<rparr>)], sinceGC = 7\<rparr>" "''a''"
        "\<lparr>count = 3, expireAt = 10\<rparr>" 11 "replicate 64 (''b'', 5, Second, 12)"]
  by (simp add: memory_inv_def memorySweepEvery_def memoryMaxBuckets_def Second_def
      TrimSpace_def trim_left_def trim_right_def space1_def less_eq_char_def)

section \<open>The Redis limiter meets the contract\<close>

text \<open>
  What the Redis documentation says of the commands: a store of counters, each possibly with an
  expiry; a key past its expiry does not exist. \<open>INCR\<close> keeps the expiry of an existing key and
  creates a missing one at 1 without expiry, \<open>PEXPIRE\<close> sets the expiry (a key whose time is not
  positive is deleted), \<open>GET\<close> only reads.
\<close>

type_synonym redis_store = "string \<rightharpoonup> int \<times> time option"

definition alive :: "(int \<times> time option) option \<Rightarrow> time \<Rightarrow> (int \<times> time option) option" where
  "alive x t = (case x of Some (v, Some e) \<Rightarrow> if t < e then x else None | _ \<Rightarrow> x)"

abbreviation live :: "redis_store \<Rightarrow> string \<Rightarrow> time \<Rightarrow> (int \<times> time option) option" where
  "live st k t \<equiv> alive (st k) t"

definition incr_val :: "(int \<times> time option) option \<Rightarrow> int \<times> time option" where
  "incr_val x = (case x of None \<Rightarrow> (1, None) | Some (v, e) \<Rightarrow> (v + 1, e))"

definition redis_laws :: "'r redis_ops \<Rightarrow> ('r \<Rightarrow> redis_store) \<Rightarrow> bool" where
  "redis_laws R store \<longleftrightarrow>
     (\<forall>k t r. fst (INCR R k t r) = fst (incr_val (live (store r) k t)) \<and>
        store (snd (INCR R k t r)) = (store r)(k \<mapsto> incr_val (live (store r) k t))) \<and>
     (\<forall>k ms t r v e. live (store r) k t = Some (v, e) \<longrightarrow>
        store (PEXPIRE R k ms t r) =
          (store r)(k := (if 0 < ms then Some (v, Some (t + ms * 1000000)) else None))) \<and>
     (\<forall>k t r. GET R k t r = map_option fst (live (store r) k t))"

definition redis_step :: "'r redis_ops \<Rightarrow> 'r \<Rightarrow> string \<Rightarrow> int \<Rightarrow> duration \<Rightarrow> time \<Rightarrow>
    (limit_error + decision) \<times> 'r" where
  "redis_step R r key limit window now = redis_Allow R False key limit window now r"

definition redis_window :: "('r \<Rightarrow> redis_store) \<Rightarrow> 'r \<Rightarrow> string \<Rightarrow> time \<Rightarrow> (int \<times> time) option" where
  "redis_window store r k t =
     (case live (store r) (rkey k) t of Some (v, Some e) \<Rightarrow> Some (v, e) | _ \<Rightarrow> None)"

lemma redis_INCR:
  assumes "redis_laws R store"
  shows "fst (INCR R k t r) = fst (incr_val (live (store r) k t))"
    and "store (snd (INCR R k t r)) = (store r)(k \<mapsto> incr_val (live (store r) k t))"
  using assms by (simp_all add: redis_laws_def)

lemma redis_PEXPIRE:
  assumes "redis_laws R store" "live (store r) k t = Some (v, e)"
  shows "store (PEXPIRE R k ms t r) =
    (store r)(k := (if 0 < ms then Some (v, Some (t + ms * 1000000)) else None))"
  using assms by (simp add: redis_laws_def)

text \<open>Under the limiter's prefix every counter is positive and has an expiry.\<close>

definition redis_inv :: "('r \<Rightarrow> redis_store) \<Rightarrow> 'r \<Rightarrow> bool" where
  "redis_inv store r \<longleftrightarrow>
     (\<forall>k v e. store r (rkey k) = Some (v, e) \<longrightarrow> 1 \<le> v \<and> e \<noteq> None)"

lemma rkey_inject [simp]: "rkey k = rkey k' \<longleftrightarrow> k = k'"
  by (simp add: redisKey_def)

text \<open>What one run of \<open>allowScript\<close> does to the store.\<close>

definition bump_store :: "redis_store \<Rightarrow> string \<Rightarrow> int \<Rightarrow> time \<Rightarrow> redis_store" where
  "bump_store st k ms t =
     (let (v, e) = incr_val (live st k t)
      in st(k := if v = 1 then if 0 < ms then Some (1, Some (t + ms * 1000000)) else None
                 else Some (v, e)))"

lemma alive_Some: "alive x t = Some y \<Longrightarrow> x = Some y"
  by (auto simp: alive_def split: option.splits prod.splits if_splits)

lemma bump_store_other: "k' \<noteq> k \<Longrightarrow> bump_store st k ms t k' = st k'"
  by (simp add: bump_store_def Let_def split: prod.splits)

lemma bump_store_own:
  assumes "\<forall>v e. st k = Some (v, e) \<longrightarrow> 1 \<le> v \<and> e \<noteq> None"
  shows "bump_store st k ms t k =
    (case live st k t of
       None \<Rightarrow> if 0 < ms then Some (1, Some (t + ms * 1000000)) else None
     | Some (v, e) \<Rightarrow> Some (v + 1, e))"
  using assms
  by (auto simp: bump_store_def incr_val_def alive_def Let_def split: option.splits if_splits)

lemma live_upd_incr:
  "live (st(k \<mapsto> incr_val (live st k t))) k t = Some (incr_val (live st k t))"
  by (auto simp: alive_def incr_val_def split: option.splits prod.splits if_splits)

lemma redis_bump_store:
  assumes "redis_laws R store"
  shows "redis_bump R False k w t r = (res, r') \<Longrightarrow>
    (\<exists>x. res = Inr \<lparr>Allowed = False, Count = fst (incr_val (live (store r) (rkey k) t)), RetryAfter = x\<rparr>)
    \<and> store r' = bump_store (store r) (rkey k) (w div 1000000) t"
proof -
  assume run: "redis_bump R False k w t r = (res, r')"
  let ?k = "rkey k"
  obtain c r1 where i: "INCR R ?k t r = (c, r1)" by force
  have c: "c = fst (incr_val (live (store r) ?k t))"
    and s1: "store r1 = (store r)(?k \<mapsto> incr_val (live (store r) ?k t))"
    using redis_INCR [OF assms, of ?k t r] i by simp_all
  have s2: "store (PEXPIRE R ?k ms t r1) = (store r1)(?k :=
      (if 0 < ms then Some (c, Some (t + ms * 1000000)) else None))" for ms
    using redis_PEXPIRE [OF assms, of r1 ?k t c "snd (incr_val (live (store r) ?k t))" ms]
      live_upd_incr [of "store r" ?k t] by (simp add: s1 c)
  show ?thesis
    using run i c s1 s2
    by (auto simp: redis_bump_def allowScript_def parseDecision_def bump_store_def Let_def
        split: prod.splits if_splits)
qed

lemma redis_step_cases:
  assumes "redis_laws R store" "redis_step R r k n w t = (res, r')"
  obtains (error) e where "res = Inl e" "r' = r"
  | (hit) d where "res = Inr d" "0 < w" "Count d = fst (incr_val (live (store r) (rkey k) t))"
      "Allowed d \<longleftrightarrow> Count d \<le> n" "store r' = bump_store (store r) (rkey k) (w div 1000000) t"
proof -
  obtain x r1 where b: "redis_bump R False k w t r = (x, r1)" by force
  from redis_bump_store [OF assms(1) this] obtain y
    where y: "x = Inr \<lparr>Allowed = False, Count = fst (incr_val (live (store r) (rkey k) t)), RetryAfter = y\<rparr>"
      "store r1 = bump_store (store r) (rkey k) (w div 1000000) t" by blast
  show ?thesis
  proof (cases "TrimSpace k = [] \<or> n \<le> 0 \<or> w \<le> 0")
    case True
    then have "\<exists>e. res = Inl e" "r' = r"
      using assms(2) by (auto simp: redis_step_def redis_Allow_def split: if_splits)
    then show ?thesis using error by blast
  next
    case False
    let ?d = "\<lparr>Allowed = fst (incr_val (live (store r) (rkey k) t)) \<le> n,
      Count = fst (incr_val (live (store r) (rkey k) t)), RetryAfter = y\<rparr>"
    have "res = Inr ?d" "r' = r1"
      using assms(2) False b y(1) by (auto simp: redis_step_def redis_Allow_def)
    then show ?thesis using hit [of ?d] False y(2) by simp
  qed
qed

lemma redis_rate_limiter:
  assumes R: "redis_laws R store"
  shows "rate_limiter (redis_step R) (redis_window store) (redis_inv store)"
proof (unfold_locales, goal_cases)
  case (1 l k n w t res l')
  from R 1(2) show ?case
  proof (cases rule: redis_step_cases)
    case hit
    have own: "1 \<le> v \<and> e \<noteq> None" if "store l' (rkey k) = Some (v, e)" for v e
    proof -
      have base: "\<forall>v e. store l (rkey k) = Some (v, e) \<longrightarrow> 1 \<le> v \<and> e \<noteq> None"
        using 1(1) by (simp add: redis_inv_def)
      show ?thesis
        using that base unfolding hit(5) bump_store_own [of "store l", OF base]
        by (auto split: option.splits if_splits dest!: alive_Some)
    qed
    have "1 \<le> v \<and> e \<noteq> None" if "store l' (rkey k') = Some (v, e)" for k' v e
      using own that 1(1) hit(5) bump_store_other [of "rkey k'" "rkey k"]
      by (cases "k' = k") (auto simp: redis_inv_def)
    then show ?thesis by (auto simp: redis_inv_def)
  qed (use 1 in simp)
next
  case (2 l k n w t d l' c e)
  from 2(1,3) have "1 \<le> c" by (auto simp: redis_inv_def redis_window_def alive_def
      split: option.splits if_splits)
  from R 2(2) this 2(3) show ?case
    by (cases rule: redis_step_cases)
      (auto simp: redis_window_def bump_store_def incr_val_def alive_def Let_def
          split: option.splits if_splits prod.splits)
next
  case (3 l k n w t d l')
  have w: "0 < w div 1000000" "w div 1000000 * 1000000 \<le> w"
    using 3(4) div_mult_mod_eq [of w 1000000] pos_mod_sign [of 1000000 w] by linarith+
  from 3(1,3) have "live (store l) (rkey k) t = None"
    by (auto simp: redis_inv_def redis_window_def alive_def split: option.splits if_splits)
  with R 3(2) w show ?case
    by (cases rule: redis_step_cases)
      (auto simp: redis_window_def bump_store_def incr_val_def alive_def Let_def)
next
  case (4 l k n w t res l' k')
  from R 4(2,3) show ?case
    by (cases rule: redis_step_cases)
      (auto simp: redis_window_def bump_store_other)
next
  case (5 l k t c e t')
  then show ?case by (auto simp: redis_window_def alive_def split: option.splits if_splits)
next
  case (6 l k t t')
  then show ?case by (auto simp: redis_window_def alive_def split: option.splits if_splits)
qed

text \<open>A Redis that is its own store, for the witnesses.\<close>

definition plain_redis :: "redis_store redis_ops" where
  "plain_redis = \<lparr>
     INCR = (\<lambda>k t r. (fst (incr_val (live r k t)), r(k \<mapsto> incr_val (live r k t)))),
     PEXPIRE = (\<lambda>k ms t r. case live r k t of None \<Rightarrow> r
        | Some (v, e) \<Rightarrow> r(k := (if 0 < ms then Some (v, Some (t + ms * 1000000)) else None))),
     PTTL = (\<lambda>k t r. case live r k t of None \<Rightarrow> -2 | Some (v, None) \<Rightarrow> -1
        | Some (v, Some e) \<Rightarrow> (e - t) div 1000000),
     GET = (\<lambda>k t r. map_option fst (live r k t))\<rparr>"

lemma plain_redis_laws: "redis_laws plain_redis id"
  by (auto simp: redis_laws_def plain_redis_def)

text \<open>
  C25. The Redis limiter keeps the same promise, given the documented behaviour of the four Redis
  commands: the scripts it sends count every request of a window and never extend an open window.
\<close>

theorem redis_limiter_grants:
  assumes "redis_laws R store" "redis_inv store r" "redis_window store r k t = None"
    and "1000000 \<le> w" "0 \<le> n" "timed_run k n w t h rs" "h \<le> t + w div 1000000 * 1000000"
  shows "granted (redis_step R) k r rs \<le> n"
  using rate_limiter.granted_fresh [OF redis_rate_limiter [OF assms(1)] assms(2-7)] .

theorem redis_limiter_grants_witness:
  "granted (redis_step plain_redis) ''a'' Map.empty
     [(''a'', 1, Second, 5), (''a'', 1, Second, 7)] \<le> 1 \<and>
   granted (redis_step plain_redis) ''a'' Map.empty
     [(''a'', 1, Second, 5), (''a'', 1, Second, 7)] = 1"
  using redis_limiter_grants [OF plain_redis_laws, of Map.empty "''a''" 5 Second 1 "5 + Second"
     "[(''a'', 1, Second, 5), (''a'', 1, Second, 7)]"]
  by (simp add: redis_inv_def redis_window_def alive_def Second_def redis_step_def redis_Allow_def
      redis_bump_def allowScript_def plain_redis_def incr_val_def parseDecision_def redisKey_def
      TrimSpace_def trim_left_def trim_right_def space1_def less_eq_char_def)

text \<open>
  The \<open>Retry-After\<close> header of a refused request is the remaining time rounded up to whole
  seconds, and never below one second.
\<close>

theorem retry_seconds_ceiling: "retry_seconds ra = max 1 (- (- ra div Second))"
proof -
  have "- (- ra div Second) = ra div Second + (if ra mod Second = 0 then 0 else 1)"
    by (simp add: zdiv_zminus1_eq_if Second_def)
  moreover have "sgn ra * (\<bar>ra\<bar> div Second) = ra div Second" if "0 \<le> ra"
    using that by (cases "ra = 0") (simp_all add: sgn_if)
  moreover have "sgn ra * (\<bar>ra\<bar> div Second) \<le> 0" "ra div Second < 0" if "ra < 0"
    using that by (simp_all add: sgn_if Second_def)
  ultimately show ?thesis
    by (cases "0 \<le> ra") (auto simp: retry_seconds_def Let_def max_def)
qed

end
