(* ===== verification/Netip.thy ===== *)
theory Netip
  imports Prelude "HOL-Library.Word"
begin

unbundle bit_operations_syntax

text \<open>
  The parts of Go's packages \<open>net/netip\<close> and \<open>net\<close> that the sources call: addresses, their text
  form in both directions, address classes, prefixes, CIDR blocks and host-port pairs. An IPv4
  address is a 32-bit word, an IPv6 address a 128-bit word with a zone; an invalid address is
  \<^const>\<open>None\<close>.
\<close>

datatype addr = IPv4 "32 word" | IPv6 "128 word" string

section \<open>Parsing\<close>

text \<open>The dotted quad of \<open>parseIPv4Fields\<close>: no empty field, no leading zero, four fs below 256.\<close>

fun v4_loop :: "nat list \<Rightarrow> nat \<Rightarrow> nat \<Rightarrow> string \<Rightarrow> nat list option" where
  "v4_loop fs val digLen [] = (if length fs < 3 then None else Some (fs @ [val]))"
| "v4_loop fs val digLen (c # s) =
     (if is_digit c then
        if digLen = 1 \<and> val = 0 then None
        else let val' = val * 10 + digit_val c in
          if 255 < val' then None else v4_loop fs val' (digLen + 1) s
      else if c = CHR ''.'' then
        if digLen = 0 \<or> s = [] then None
        else if length fs = 3 then None
        else v4_loop (fs @ [val]) 0 0 s
      else None)"

definition parse_v4_fields :: "string \<Rightarrow> nat list option" where
  "parse_v4_fields s = v4_loop [] 0 0 s"

definition word_of_bytes :: "nat list \<Rightarrow> 'a::len word" where
  "word_of_bytes bs = of_nat (foldl (\<lambda>n b. n * 256 + b) 0 bs)"

definition hex_val :: "char \<Rightarrow> nat option" where
  "hex_val c =
     (if is_digit c then Some (digit_val c)
      else if CHR ''a'' \<le> c \<and> c \<le> CHR ''f'' then Some (of_char c - 87)
      else if CHR ''A'' \<le> c \<and> c \<le> CHR ''F'' then Some (of_char c - 55)
      else None)"

definition hex_num :: "string \<Rightarrow> nat" where
  "hex_num ds = foldl (\<lambda>n c. n * 16 + (case hex_val c of Some d \<Rightarrow> d | None \<Rightarrow> 0)) 0 ds"

text \<open>
  The loop of \<open>parseIPv6\<close>: the bytes read so far, the position of the ellipsis, the text to read.
\<close>

function v6_loop :: "nat option \<Rightarrow> nat list \<Rightarrow> string \<Rightarrow> (nat option \<times> nat list \<times> string) option" where
  "v6_loop ell bs s =
     (if 16 \<le> length bs then Some (ell, bs, s)
      else let ds = takeWhile (\<lambda>c. hex_val c \<noteq> None) s;
               rest = drop (length ds) s in
        if ds = [] \<or> 4 < length ds then None
        else if rest \<noteq> [] \<and> hd rest = CHR ''.'' then
          if ell = None \<and> length bs \<noteq> 12 then None
          else if 16 < length bs + 4 then None
          else (case parse_v4_fields s of None \<Rightarrow> None | Some fs \<Rightarrow> Some (ell, bs @ fs, []))
        else let bs' = bs @ [hex_num ds div 256, hex_num ds mod 256] in
          (case rest of [] \<Rightarrow> Some (ell, bs', [])
           | c # r \<Rightarrow>
               if c \<noteq> CHR '':'' then None
               else (case r of [] \<Rightarrow> None
                     | d # r' \<Rightarrow>
                         if d = CHR '':'' then
                           if ell \<noteq> None then None
                           else if r' = [] then Some (Some (length bs'), bs', [])
                           else v6_loop (Some (length bs')) bs' r'
                         else v6_loop ell bs' r)))"
  by pat_completeness auto
termination
proof (relation "measure (\<lambda>(ell, bs, s). length s)", goal_cases)
  case 1
  then show ?case by simp
next
  case (2 ell bs s ds rest bs' c r d r')
  then have "drop (length ds) s = c # d # r'" by metis
  from arg_cong [OF this, of length] show ?case by simp
next
  case (3 ell bs s ds rest bs' c r d r')
  then have "drop (length ds) s = c # r" by metis
  from arg_cong [OF this, of length] show ?case by simp
qed

declare v6_loop.simps [simp del]

definition parse_v6 :: "string \<Rightarrow> addr option" where
  "parse_v6 s0 =
     (let (s, zone, bad) = (case Cut s0 (CHR ''%'') of None \<Rightarrow> (s0, [], False)
                            | Some (a, z) \<Rightarrow> (a, z, z = []));
          lead = (2 \<le> length s \<and> s ! 0 = CHR '':'' \<and> s ! 1 = CHR '':'');
          s1 = (if lead then drop 2 s else s) in
      if bad then None
      else if lead \<and> s1 = [] then Some (IPv6 0 zone)
      else (case v6_loop (if lead then Some 0 else None) [] s1 of
          None \<Rightarrow> None
        | Some (ell, bs, rest) \<Rightarrow>
            if rest \<noteq> [] then None
            else if length bs < 16 then
              (case ell of None \<Rightarrow> None
               | Some e \<Rightarrow> Some (IPv6 (word_of_bytes
                   (take e bs @ replicate (16 - length bs) 0 @ drop e bs)) zone))
            else if ell \<noteq> None then None
            else Some (IPv6 (word_of_bytes bs) zone)))"

definition parse_v4 :: "string \<Rightarrow> addr option" where
  "parse_v4 s = map_option (\<lambda>fs. IPv4 (word_of_bytes fs)) (parse_v4_fields s)"

text \<open>\<open>netip.ParseAddr\<close>: the first dot, colon or percent sign decides the family.\<close>

definition ParseAddr :: "string \<Rightarrow> addr option" where
  "ParseAddr s =
     (case dropWhile (\<lambda>c. c \<notin> {CHR ''.'', CHR '':'', CHR ''%''}) s of
        [] \<Rightarrow> None
      | c # _ \<Rightarrow> if c = CHR ''.'' then parse_v4 s else if c = CHR '':'' then parse_v6 s else None)"

section \<open>Printing\<close>

definition v4_byte :: "32 word \<Rightarrow> nat \<Rightarrow> nat" where
  "v4_byte w i = unat w div 2 ^ (24 - 8 * i) mod 256"

definition v4_bytes :: "32 word \<Rightarrow> nat list" where
  "v4_bytes w = map (v4_byte w) [0, 1, 2, 3]"

definition v4_string :: "32 word \<Rightarrow> string" where
  "v4_string w = Join (map dec_nat (v4_bytes w)) ''.''"

definition v6_group :: "128 word \<Rightarrow> nat \<Rightarrow> nat" where
  "v6_group w i = unat w div 2 ^ (112 - 16 * i) mod 65536"

definition hex_digit :: "nat \<Rightarrow> char" where
  "hex_digit d = (if d < 10 then char_of (48 + d) else char_of (87 + d))"

fun hex_nat :: "nat \<Rightarrow> string" where
  "hex_nat n = (if n < 16 then [hex_digit n] else hex_nat (n div 16) @ [hex_digit (n mod 16)])"

declare hex_nat.simps [simp del]

text \<open>The longest run of at least two zero groups, the first one among equals.\<close>

definition zero_run :: "nat list \<Rightarrow> nat \<Rightarrow> nat" where
  "zero_run gs i = length (takeWhile (\<lambda>g. g = 0) (drop i gs))"

definition longest_zeros :: "nat list \<Rightarrow> nat \<times> nat" where
  "longest_zeros gs =
     foldl (\<lambda>(zs, ze) i. let l = zero_run gs i in
              if 2 \<le> l \<and> ze - zs < l then (i, i + l) else (zs, ze))
       (255, 255) [0..<8]"

function print_groups :: "nat \<Rightarrow> nat \<Rightarrow> nat list \<Rightarrow> nat \<Rightarrow> string" where
  "print_groups zs ze gs i =
     (if 8 \<le> i then []
      else if i = zs \<and> zs < ze then
        ''::'' @ (if 8 \<le> ze then [] else hex_nat (gs ! ze) @ print_groups zs ze gs (Suc ze))
      else (if 0 < i then '':'' else []) @ hex_nat (gs ! i) @ print_groups zs ze gs (Suc i))"
  by pat_completeness auto
termination
  by (relation "measure (\<lambda>(zs, ze, gs, i). 8 - i)") auto

declare print_groups.simps [simp del]

definition v6_string :: "128 word \<Rightarrow> string" where
  "v6_string w =
     (let gs = map (v6_group w) [0..<8]; (zs, ze) = longest_zeros gs in print_groups zs ze gs 0)"

definition is_4in6 :: "128 word \<Rightarrow> bool" where
  "is_4in6 w \<longleftrightarrow> drop_bit 32 w = 0xFFFF"

definition zone_suffix :: "string \<Rightarrow> string" where
  "zone_suffix z = (if z = [] then [] else CHR ''%'' # z)"

text \<open>\<open>Addr.String\<close>\<close>

fun addr_string :: "addr \<Rightarrow> string" where
  "addr_string (IPv4 w) = v4_string w"
| "addr_string (IPv6 w z) =
     (if is_4in6 w then ''::ffff:'' @ v4_string (ucast w) @ zone_suffix z
      else v6_string w @ zone_suffix z)"

section \<open>Classes and prefixes\<close>

text \<open>\<open>Addr.Unmap\<close>, \<open>Addr.Zone\<close>, \<open>Addr.WithZone\<close>, \<open>Addr.Is4\<close>, \<open>Addr.BitLen\<close>\<close>

fun Unmap :: "addr \<Rightarrow> addr" where
  "Unmap (IPv4 w) = IPv4 w"
| "Unmap (IPv6 w z) = (if is_4in6 w then IPv4 (ucast w) else IPv6 w z)"

fun addr_zone :: "addr \<Rightarrow> string" where
  "addr_zone (IPv4 w) = []"
| "addr_zone (IPv6 w z) = z"

fun without_zone :: "addr \<Rightarrow> addr" where
  "without_zone (IPv4 w) = IPv4 w"
| "without_zone (IPv6 w z) = IPv6 w []"

fun Is4 :: "addr \<Rightarrow> bool" where
  "Is4 (IPv4 w) = True"
| "Is4 (IPv6 w z) = False"

fun Is4In6 :: "addr \<Rightarrow> bool" where
  "Is4In6 (IPv4 w) = False"
| "Is4In6 (IPv6 w z) = is_4in6 w"

definition IsUnspecified :: "addr \<Rightarrow> bool" where
  "IsUnspecified a \<longleftrightarrow> a = IPv4 0 \<or> a = IPv6 0 []"

definition IsMulticast :: "addr \<Rightarrow> bool" where
  "IsMulticast a = (case Unmap a of
     IPv4 w \<Rightarrow> v4_byte w 0 div 16 = 14 | IPv6 w z \<Rightarrow> v6_group w 0 div 256 = 255)"

definition IsLinkLocalUnicast :: "addr \<Rightarrow> bool" where
  "IsLinkLocalUnicast a = (case Unmap a of
     IPv4 w \<Rightarrow> v4_byte w 0 = 169 \<and> v4_byte w 1 = 254
   | IPv6 w z \<Rightarrow> v6_group w 0 div 64 = 0xFE80 div 64)"

definition IsLoopback :: "addr \<Rightarrow> bool" where
  "IsLoopback a = (case Unmap a of IPv4 w \<Rightarrow> v4_byte w 0 = 127 | IPv6 w z \<Rightarrow> w = 1)"

definition IsPrivate :: "addr \<Rightarrow> bool" where
  "IsPrivate a = (case Unmap a of
     IPv4 w \<Rightarrow> v4_byte w 0 = 10 \<or> (v4_byte w 0 = 172 \<and> v4_byte w 1 div 16 = 1) \<or>
       (v4_byte w 0 = 192 \<and> v4_byte w 1 = 168)
   | IPv6 w z \<Rightarrow> v6_group w 0 div 512 = 0xFC00 div 512)"

definition IsGlobalUnicast :: "addr \<Rightarrow> bool" where
  "IsGlobalUnicast a \<longleftrightarrow>
     Unmap a \<noteq> IPv4 0 \<and> Unmap a \<noteq> IPv4 0xFFFFFFFF \<and> Unmap a \<noteq> IPv6 0 [] \<and>
     \<not> IsLoopback a \<and> \<not> IsMulticast a \<and> \<not> IsLinkLocalUnicast a"

text \<open>\<open>netip.Prefix\<close>: an address (its host bits are kept) and a number of bits.\<close>

record prefix =
  p_addr :: addr
  p_bits :: nat

fun Prefix_Contains :: "prefix \<Rightarrow> addr \<Rightarrow> bool" where
  "Prefix_Contains p (IPv4 w) =
     (case p_addr p of IPv4 v \<Rightarrow> drop_bit (32 - p_bits p) (w XOR v) = 0 | IPv6 _ _ \<Rightarrow> False)"
| "Prefix_Contains p (IPv6 w z) =
     (z = [] \<and> (case p_addr p of IPv4 _ \<Rightarrow> False
                | IPv6 v _ \<Rightarrow> drop_bit (128 - p_bits p) (w XOR v) = 0))"

definition LastCut :: "string \<Rightarrow> char \<Rightarrow> (string \<times> string) option" where
  "LastCut s c = (case Cut (rev s) c of None \<Rightarrow> None | Some (b, a) \<Rightarrow> Some (rev a, rev b))"

text \<open>\<open>netip.ParsePrefix\<close>\<close>

definition ParsePrefix :: "string \<Rightarrow> prefix option" where
  "ParsePrefix s =
     (case LastCut s (CHR ''/'') of None \<Rightarrow> None
      | Some (a, b) \<Rightarrow>
          (case ParseAddr a of None \<Rightarrow> None
           | Some ip \<Rightarrow>
               if addr_zone ip \<noteq> [] then None
               else if 1 < length b \<and> (hd b < CHR ''1'' \<or> CHR ''9'' < hd b) then None
               else (case Atoi b of None \<Rightarrow> None
                     | Some bits \<Rightarrow>
                         if bits < 0 \<or> (if Is4 ip then 32 else 128) < bits then None
                         else Some \<lparr>p_addr = ip, p_bits = nat bits\<rparr>)))"

text \<open>\<open>Prefix.Masked\<close> and \<open>Prefix.String\<close>\<close>

definition mask_bits :: "nat \<Rightarrow> 'a::len word \<Rightarrow> 'a word" where
  "mask_bits h w = push_bit h (drop_bit h w)"

fun Masked :: "addr \<Rightarrow> nat \<Rightarrow> addr" where
  "Masked (IPv4 w) b = IPv4 (mask_bits (32 - b) w)"
| "Masked (IPv6 w z) b = IPv6 (mask_bits (128 - b) w) []"

definition prefix_string :: "addr \<Rightarrow> nat \<Rightarrow> string" where
  "prefix_string a b = addr_string a @ ''/'' @ dec_nat b"

section \<open>CIDR blocks and host-port pairs of package \<open>net\<close>\<close>

text \<open>
  \<open>net.ParseCIDR\<close>: the address as written and the network with its mask length. The mask is read
  by \<open>dtoi\<close>: digits only, below \<open>0xFFFFFF\<close>.
\<close>

record ipnet =
  net_ip :: addr
  ones :: nat
  bits :: nat

definition ParseCIDR :: "string \<Rightarrow> (addr \<times> ipnet) option" where
  "ParseCIDR s =
     (case Cut s (CHR ''/'') of None \<Rightarrow> None
      | Some (a, m) \<Rightarrow>
          (case ParseAddr a of None \<Rightarrow> None
           | Some ip \<Rightarrow>
               let bl = (if Is4 ip then 32 else 128); n = nat_of_digits m in
               if addr_zone ip \<noteq> [] \<or> \<not> all_digits m \<or> 0xFFFFFF \<le> n \<or> bl < n then None
               else Some (ip, \<lparr>net_ip = Masked ip n, ones = n, bits = bl\<rparr>)))"

definition JoinHostPort :: "string \<Rightarrow> string \<Rightarrow> string" where
  "JoinHostPort host port =
     (if CHR '':'' \<in> set host then ''['' @ host @ '']:'' @ port else host @ '':'' @ port)"

definition SplitHostPort :: "string \<Rightarrow> (string \<times> string) option" where
  "SplitHostPort hp =
     (case LastCut hp (CHR '':'') of None \<Rightarrow> None
      | Some (hpre, port) \<Rightarrow>
          if hp \<noteq> [] \<and> hd hp = CHR ''['' then
            (case Cut hp (CHR '']'') of None \<Rightarrow> None
             | Some (h, _) \<Rightarrow>
                 if hpre = h @ '']'' then
                   if CHR ''['' \<in> set (tl hp) \<or> CHR '']'' \<in> set port then None
                   else Some (tl h, port)
                 else None)
          else if CHR '':'' \<in> set hpre \<or> CHR ''['' \<in> set hp \<or> CHR '']'' \<in> set hp then None
          else Some (hpre, port))"

section \<open>Facts\<close>

text \<open>Printing an IPv4 address and reading it back.\<close>

lemma dec_nat_small:
  "v < 10 \<Longrightarrow> dec_nat v = [digit_char v]"
  "10 \<le> v \<Longrightarrow> v < 100 \<Longrightarrow> dec_nat v = [digit_char (v div 10), digit_char (v mod 10)]"
  "100 \<le> v \<Longrightarrow> v < 1000 \<Longrightarrow>
     dec_nat v = [digit_char (v div 100), digit_char (v div 10 mod 10), digit_char (v mod 10)]"
proof -
  show one: "v < 10 \<Longrightarrow> dec_nat v = [digit_char v]" for v
    by (subst dec_nat.simps) simp
  show two: "10 \<le> v \<Longrightarrow> v < 100 \<Longrightarrow> dec_nat v = [digit_char (v div 10), digit_char (v mod 10)]" for v
    by (subst dec_nat.simps) (simp add: one)
  show "100 \<le> v \<Longrightarrow> v < 1000 \<Longrightarrow>
      dec_nat v = [digit_char (v div 100), digit_char (v div 10 mod 10), digit_char (v mod 10)]"
    by (subst dec_nat.simps) (simp add: two div_mult2_eq [symmetric])
qed

lemma v4_loop_dec_nat:
  assumes "v < 256"
  shows "v4_loop fs 0 0 (dec_nat v @ s) = v4_loop fs v (length (dec_nat v)) s"
proof -
  have q: "v div 100 * 10 + v div 10 mod 10 = v div 10"
    using div_mult_mod_eq [of "v div 10" 10] by (simp add: div_mult2_eq [symmetric])
  have r: "v div 10 * 10 + v mod 10 = v" by simp
  have b: "v div 100 < 10" "v div 10 \<le> 255" using assms by simp_all
  consider "v < 10" | "10 \<le> v" "v < 100" | "100 \<le> v" "v < 1000" using assms by linarith
  then show ?thesis
  proof cases
    case 3
    then have "v div 100 \<noteq> 0" "v div 10 \<noteq> 0" by (simp_all add: div_eq_0_iff)
    with 3 q r b assms show ?thesis by (simp add: dec_nat_small Let_def)
  next
    case 2
    then have "v div 10 \<noteq> 0" "v div 10 < 10" by (simp_all add: div_eq_0_iff)
    with 2 r b assms show ?thesis by (simp add: dec_nat_small Let_def)
  qed (simp add: dec_nat_small Let_def)
qed

lemma not_digit_dot [simp]: "\<not> is_digit (CHR ''.'')"
  by (simp add: is_digit_code)

lemma v4_dot: "0 < n \<Longrightarrow> s \<noteq> [] \<Longrightarrow> length fs \<noteq> 3 \<Longrightarrow>
    v4_loop fs v n (CHR ''.'' # s) = v4_loop (fs @ [v]) 0 0 s"
  by simp

lemma parse_v4_fields_print:
  assumes "a < 256" "b < 256" "c < 256" "d < 256"
  shows "parse_v4_fields (Join (map dec_nat [a, b, c, d]) ''.'') = Some [a, b, c, d]"
proof -
  have "0 < length (dec_nat v)" for v by simp
  with assms v4_loop_dec_nat [OF assms(4), of "[a, b, c]" "[]"] show ?thesis
    by (simp add: parse_v4_fields_def v4_loop_dec_nat v4_dot)
qed

lemma v4_byte_less [simp]: "v4_byte w i < 256"
  by (simp add: v4_byte_def)

lemma word_of_v4_bytes: "word_of_bytes (v4_bytes w) = w"
proof -
  define n where "n = unat w"
  have "n < 2 ^ 32" using unsigned_less [of w, where 'a = nat] by (simp add: n_def)
  then have "n div 16777216 mod 256 = n div 16777216" by simp
  moreover have "n div 16777216 * 256 + n div 65536 mod 256 = n div 65536"
    using div_mult_mod_eq [of "n div 65536" 256] by (simp add: div_mult2_eq [symmetric])
  moreover have "n div 65536 * 256 + n div 256 mod 256 = n div 256"
    using div_mult_mod_eq [of "n div 256" 256] by (simp add: div_mult2_eq [symmetric])
  moreover have "n div 256 * 256 + n mod 256 = n" by simp
  ultimately have "foldl (\<lambda>n b. n * 256 + b) 0 (v4_bytes w) = n"
    by (simp add: v4_bytes_def v4_byte_def flip: n_def)
  then show ?thesis by (simp add: word_of_bytes_def n_def)
qed

lemma v4_string_split:
  obtains r where "v4_string w = dec_nat (v4_byte w 0) @ CHR ''.'' # r"
  by (simp add: v4_string_def v4_bytes_def)

lemma ParseAddr_v4_string [go_str]: "ParseAddr (v4_string w) = Some (IPv4 w)"
proof -
  obtain r where r: "v4_string w = dec_nat (v4_byte w 0) @ CHR ''.'' # r"
    by (rule v4_string_split)
  have "dropWhile (\<lambda>c. c \<notin> {CHR ''.'', CHR '':'', CHR ''%''}) (v4_string w) = CHR ''.'' # r"
    using dec_nat_digits [of "v4_byte w 0"] unfolding r
    by (subst dropWhile_append2) (auto simp: list_all_iff is_digit_code)
  moreover have "parse_v4_fields (v4_string w) = Some (v4_bytes w)"
    using parse_v4_fields_print [of "v4_byte w 0" "v4_byte w 1" "v4_byte w 2" "v4_byte w 3"]
    by (simp add: v4_string_def v4_bytes_def)
  ultimately show ?thesis
    by (simp add: ParseAddr_def parse_v4_def word_of_v4_bytes)
qed

lemma v4_string_inject [simp]: "v4_string v = v4_string w \<longleftrightarrow> v = w"
  by (metis ParseAddr_v4_string addr.inject(1) option.inject)

lemma hex_nat_neq_Nil [simp]: "hex_nat n \<noteq> []"
  by (subst hex_nat.simps) simp

lemma addr_string_neq_Nil [simp]: "addr_string a \<noteq> []"
proof (cases a)
  case (IPv4 w)
  then show ?thesis by (simp add: v4_string_def v4_bytes_def)
next
  case (IPv6 w z)
  have "print_groups zs ze gs 0 \<noteq> []" for zs ze gs by (subst print_groups.simps) auto
  then show ?thesis using IPv6 by (simp add: v6_string_def Let_def split: prod.splits)
qed

text \<open>Host-port pairs.\<close>

lemma LastCut_append: "c \<notin> set b \<Longrightarrow> LastCut (a @ c # b) c = Some (a, b)"
  by (simp add: LastCut_def Cut_append)

lemma SplitHostPort_JoinHostPort [go_str]:
  assumes "CHR ''['' \<notin> set host" "CHR '']'' \<notin> set host"
    and "CHR '':'' \<notin> set port" "CHR ''['' \<notin> set port" "CHR '']'' \<notin> set port"
  shows "SplitHostPort (JoinHostPort host port) = Some (host, port)"
proof (cases "CHR '':'' \<in> set host")
  case True
  have "LastCut (''['' @ host @ '']:'' @ port) (CHR '':'') = Some (''['' @ host @ '']'', port)"
    using LastCut_append [OF assms(3), of "''['' @ host @ '']''"] by simp
  moreover have "Cut (''['' @ host @ '']:'' @ port) (CHR '']'') = Some (''['' @ host, '':'' @ port)"
    using Cut_append [of "CHR '']''" "''['' @ host" "'':'' @ port"] assms(2) by simp
  ultimately show ?thesis
    using assms True by (simp add: SplitHostPort_def JoinHostPort_def)
next
  case False
  have "LastCut (host @ '':'' @ port) (CHR '':'') = Some (host, port)"
    using LastCut_append [OF assms(3), of host] by simp
  with assms False show ?thesis
    by (cases host) (auto simp: SplitHostPort_def JoinHostPort_def)
qed

lemma Unmap_idem [simp]: "Unmap (Unmap a) = Unmap a"
  by (cases a) auto

lemma Prefix_Contains_self: "addr_zone (p_addr p) = [] \<Longrightarrow> Prefix_Contains p (p_addr p)"
  by (cases "p_addr p") auto

end
