(* ===== verification/Encoding.thy ===== *)
theory Encoding
  imports Prelude
begin

text \<open>
  The encodings of the standard library that the sources rely on: package \<open>encoding/base64\<close>
  (standard and URL alphabets, padded), the UTF-8 scanner behind \<open>strings.ToValidUTF8\<close> and the
  one regular expression of the schema and of package \<open>mobile\<close>.
\<close>

section \<open>Base64\<close>

definition b64_std :: "nat \<Rightarrow> char" where
  "b64_std v =
     (if v < 26 then char_of (65 + v) else if v < 52 then char_of (71 + v)
      else if v < 62 then char_of (v - 4) else if v = 62 then CHR ''+'' else CHR ''/'')"

definition b64_url :: "nat \<Rightarrow> char" where
  "b64_url v = (if v = 62 then CHR ''-'' else if v = 63 then CHR ''_'' else b64_std v)"

fun b64_encode :: "(nat \<Rightarrow> char) \<Rightarrow> nat list \<Rightarrow> string" where
  "b64_encode e (a # b # c # bs) =
     e (a div 4) # e (a mod 4 * 16 + b div 16) # e (b mod 16 * 4 + c div 64) # e (c mod 64) #
     b64_encode e bs"
| "b64_encode e [a, b] = [e (a div 4), e (a mod 4 * 16 + b div 16), e (b mod 16 * 4), CHR ''='']"
| "b64_encode e [a] = [e (a div 4), e (a mod 4 * 16), CHR ''='', CHR ''='']"
| "b64_encode e [] = []"

definition b64_val :: "char \<Rightarrow> nat option" where
  "b64_val ch =
     (let n = of_char ch :: nat in
      if 65 \<le> n \<and> n \<le> 90 then Some (n - 65)
      else if 97 \<le> n \<and> n \<le> 122 then Some (n - 71)
      else if 48 \<le> n \<and> n \<le> 57 then Some (n + 4)
      else if ch = CHR ''+'' then Some 62 else if ch = CHR ''/'' then Some 63 else None)"

text \<open>
  \<open>StdEncoding.DecodeString\<close> on input without line breaks. The decoder is not the strict one: the
  unused low bits of the last digit are dropped, whatever they are.
\<close>

fun b64_decode :: "string \<Rightarrow> nat list option" where
  "b64_decode [] = Some []"
| "b64_decode (p # q # r # s # rest) =
     (case (b64_val p, b64_val q) of
        (Some w, Some x) \<Rightarrow>
          if r = CHR ''='' then
            (if s = CHR ''='' \<and> rest = [] then Some [w * 4 + x div 16] else None)
          else
            (case b64_val r of None \<Rightarrow> None
             | Some y \<Rightarrow>
                 if s = CHR ''='' then
                   (if rest = [] then Some [w * 4 + x div 16, x mod 16 * 16 + y div 4] else None)
                 else
                   (case b64_val s of None \<Rightarrow> None
                    | Some z \<Rightarrow>
                        (case b64_decode rest of None \<Rightarrow> None
                         | Some bs \<Rightarrow>
                             Some ((w * 4 + x div 16) # (x mod 16 * 16 + y div 4) # (y mod 4 * 64 + z) # bs))))
      | _ \<Rightarrow> None)"
| "b64_decode _ = None"

lemma of_char_of_small [simp]: "n < 256 \<Longrightarrow> of_char (char_of n :: char) = (n :: nat)"
  by simp

lemma b64_val_std [simp]: "v < 64 \<Longrightarrow> b64_val (b64_std v) = Some v"
  by (auto simp: b64_val_def b64_std_def Let_def)

lemma b64_std_not_pad [simp]: "v < 64 \<Longrightarrow> b64_std v \<noteq> CHR ''=''"
proof
  assume "v < 64" "b64_std v = CHR ''=''"
  then have "b64_val (CHR ''='') = Some v" using b64_val_std by metis
  then show False by (simp add: b64_val_def)
qed

lemma b64_digits:
  "a < 256 \<Longrightarrow> a div 4 < (64 :: nat)" "b < 256 \<Longrightarrow> a mod 4 * 16 + b div 16 < (64 :: nat)"
  "c < 256 \<Longrightarrow> b mod 16 * 4 + c div 64 < (64 :: nat)" "a mod 4 * 16 < (64 :: nat)"
  "b mod 16 * 4 < (64 :: nat)"
  by (simp_all add: div_less_iff_less_mult)

lemma b64_decode_encode [go_str]:
  assumes "list_all (\<lambda>b. b < 256) bs"
  shows "b64_decode (b64_encode b64_std bs) = Some bs"
  using assms
proof (induction b64_std bs rule: b64_encode.induct)
  case (1 a b c bs)
  then have "c div 64 < 4" "b div 16 < 16" by (simp_all add: div_less_iff_less_mult)
  with 1 show ?case by (simp add: b64_digits)
next
  case (2 a b)
  then have "b div 16 < 16" by (simp add: div_less_iff_less_mult)
  with 2 show ?case by (simp add: b64_digits)
next
  case (3 a)
  then show ?case by (simp add: b64_digits)
qed simp

section \<open>The key pattern\<close>

text \<open>The regular expression \<open>^[A-Za-z0-9+/]{43}=$\<close>.\<close>

definition wg_key_format :: "string \<Rightarrow> bool" where
  "wg_key_format k \<longleftrightarrow>
     length k = 44 \<and> list_all (\<lambda>c. b64_val c \<noteq> None) (take 43 k) \<and> k ! 43 = CHR ''=''"

section \<open>UTF-8\<close>

text \<open>
  \<open>rune_size s\<close>: the number of bytes of the well-formed UTF-8 sequence at the head of \<open>s\<close>, 0 when
  there is none (overlong forms, surrogates, values above U+10FFFF and truncated sequences).
\<close>

definition cont :: "nat \<Rightarrow> bool" where "cont b \<longleftrightarrow> 0x80 \<le> b \<and> b \<le> 0xBF"

definition rune_need :: "nat \<Rightarrow> nat" where
  "rune_need a =
     (if a < 0x80 then 1 else if 0xC2 \<le> a \<and> a \<le> 0xDF then 2
      else if 0xE0 \<le> a \<and> a \<le> 0xEF then 3 else if 0xF0 \<le> a \<and> a \<le> 0xF4 then 4 else 0)"

fun tail_ok :: "nat \<Rightarrow> nat list \<Rightarrow> bool" where
  "tail_ok a [] = True"
| "tail_ok a (b # cs) =
     ((if a = 0xE0 then 0xA0 else if a = 0xF0 then 0x90 else 0x80) \<le> b \<and>
      b \<le> (if a = 0xED then 0x9F else if a = 0xF4 then 0x8F else 0xBF) \<and> list_all cont cs)"

fun rune_size :: "nat list \<Rightarrow> nat" where
  "rune_size [] = 0"
| "rune_size (a # s) =
     (let n = rune_need a in
      if n \<noteq> 0 \<and> n \<le> Suc (length s) \<and> tail_ok a (take (n - 1) s) then n else 0)"

lemma rune_size_le: "rune_size s \<le> length s"
  by (cases s) (auto simp: Let_def)

lemma rune_size_bound: "rune_size s \<le> 4"
  by (cases s) (auto simp: Let_def rune_need_def)

lemma rune_size_append: "rune_size s \<noteq> 0 \<Longrightarrow> rune_size (s @ t) = rune_size s"
  by (cases s) (auto simp: Let_def split: if_splits)

lemma rune_size_take: "rune_size s = n \<Longrightarrow> n \<le> m \<Longrightarrow> n \<noteq> 0 \<Longrightarrow> rune_size (take m s) = n"
  by (cases s; cases m) (auto simp: Let_def min_def split: if_splits)

text \<open>\<open>strings.ToValidUTF8(s, "")\<close> drops the bytes that start no sequence.\<close>

function to_valid :: "nat list \<Rightarrow> nat list" where
  "to_valid [] = []"
| "to_valid (a # s) =
     (let n = rune_size (a # s) in
      if n = 0 then to_valid s else take n (a # s) @ to_valid (drop n (a # s)))"
  by pat_completeness auto
termination by (relation "measure length") auto

function valid_utf8 :: "nat list \<Rightarrow> bool" where
  "valid_utf8 [] = True"
| "valid_utf8 (a # s) =
     (let n = rune_size (a # s) in n \<noteq> 0 \<and> (n \<noteq> 0 \<longrightarrow> valid_utf8 (drop n (a # s))))"
  by pat_completeness auto
termination by (relation "measure length") auto

declare rune_size.simps(2) [simp del]

definition str_bytes :: "string \<Rightarrow> nat list" where "str_bytes s = map of_char s"

definition ToValidUTF8 :: "string \<Rightarrow> string" where
  "ToValidUTF8 s = map char_of (to_valid (str_bytes s))"

lemma to_valid_length: "length (to_valid s) \<le> length s"
proof (induction s rule: to_valid.induct)
  case (2 a s)
  show ?case
  proof (cases "rune_size (a # s) = 0")
    case True
    with 2(1) [OF refl True] show ?thesis by (simp add: Let_def)
  next
    case False
    with 2(2) [OF refl False] rune_size_le [of "a # s"] show ?thesis by (simp add: Let_def)
  qed
qed simp

lemma to_valid_cont: "list_all cont s \<Longrightarrow> to_valid s = []"
  by (induction s) (auto simp: Let_def cont_def rune_need_def rune_size.simps(2))

lemma to_valid_short:
  assumes "length s < rune_size (s @ t)"
  shows "to_valid s = []"
proof (cases s)
  case (Cons a s')
  have n: "Suc (length s') < rune_need a" "tail_ok a (take (rune_need a - 1) (s' @ t))"
    using assms Cons by (auto simp: rune_size.simps(2) Let_def split: if_splits)
  have "take (rune_need a - 1) (s' @ t) = s' @ take (rune_need a - 1 - length s') t"
    using n(1) by simp
  with n(2) have "list_all cont s'"
    by (cases s') (auto simp: cont_def list_all_iff split: if_splits)
  moreover have "rune_size (a # s') = 0" using n(1) by (simp add: rune_size.simps(2) Let_def)
  ultimately show ?thesis using Cons by (simp add: Let_def to_valid_cont)
qed simp

lemma valid_utf8_append:
  "valid_utf8 s \<Longrightarrow> valid_utf8 t \<Longrightarrow> valid_utf8 (s @ t)"
proof (induction s rule: valid_utf8.induct)
  case (2 a s)
  let ?n = "rune_size (a # s)"
  from 2 have n: "?n \<noteq> 0" and v: "valid_utf8 (drop ?n (a # s) @ t)" by (auto simp: Let_def)
  have "drop ?n ((a # s) @ t) = drop ?n (a # s) @ t"
    using rune_size_le [of "a # s"] by (simp only: drop_append) simp
  with n v rune_size_append [OF n, of t] show ?case by (simp add: Let_def)
qed simp

lemma valid_rune: "rune_size s \<noteq> 0 \<Longrightarrow> valid_utf8 (take (rune_size s) s)"
proof -
  assume n: "rune_size s \<noteq> 0"
  let ?t = "take (rune_size s) s"
  have "rune_size ?t = rune_size s" using rune_size_take [of s, OF refl le_refl n] .
  moreover have "length ?t = rune_size s" using rune_size_le [of s] by simp
  ultimately show ?thesis using n by (cases ?t) (auto simp: Let_def)
qed

lemma valid_to_valid: "valid_utf8 (to_valid s)"
proof (induction s rule: to_valid.induct)
  case (2 a s)
  then show ?case
    using valid_rune [of "a # s"]
    by (auto simp: Let_def simp del: valid_utf8.simps(2) intro!: valid_utf8_append)
qed simp

text \<open>
  A well-formed string cut anywhere loses at most the sequence that was cut: what \<open>to_valid\<close>
  leaves is a prefix of it, at most three bytes shorter than the cut.
\<close>

lemma to_valid_cut:
  assumes "valid_utf8 (s @ t)"
  shows "prefix (to_valid s) s \<and> length s \<le> length (to_valid s) + 3"
  using assms
proof (induction s rule: to_valid.induct)
  case (2 a s)
  let ?n = "rune_size ((a # s) @ t)"
  have n: "?n \<noteq> 0" "valid_utf8 (drop ?n ((a # s) @ t))"
    using "2.prems" by (auto simp: Let_def)
  show ?case
  proof (cases "?n \<le> length (a # s)")
    case True
    have "take ?n ((a # s) @ t) = take ?n (a # s)" using True by (simp only: take_append) simp
    then have r: "rune_size (a # s) = ?n"
      using rune_size_take [of "(a # s) @ t", OF refl le_refl n(1)]
        rune_size_append [of "take ?n (a # s)" "drop ?n (a # s)"] n(1) by simp
    have "drop ?n ((a # s) @ t) = drop ?n (a # s) @ t" using True by (simp only: drop_append) simp
    then have IH: "prefix (to_valid (drop ?n (a # s))) (drop ?n (a # s)) \<and>
        length (drop ?n (a # s)) \<le> length (to_valid (drop ?n (a # s))) + 3"
      using "2.IH"(2) [OF refl] r n by simp
    have v: "to_valid (a # s) = take ?n (a # s) @ to_valid (drop ?n (a # s))"
      using r n(1) by (simp add: Let_def)
    have "prefix (take ?n (a # s) @ to_valid (drop ?n (a # s))) (take ?n (a # s) @ drop ?n (a # s))"
      using IH by (simp only: same_prefix_prefix)
    moreover have "length (drop ?n (a # s)) = length (a # s) - ?n" by (rule length_drop)
    moreover have "length (take ?n (a # s)) = ?n" using True by simp
    ultimately show ?thesis using IH True unfolding v append_take_drop_id length_append by linarith
  next
    case False
    then show ?thesis
      using to_valid_short [of "a # s" t] rune_size_bound [of "(a # s) @ t"] by simp
  qed
qed simp

end
