(* ===== verification/Schema.thy ===== *)
theory Schema
  imports Prelude Netip Encoding
begin

text \<open>
  The PostgreSQL schema the components share (\<open>migrations/*.sql\<close>): one record per table with the
  columns the sources read or write, and the constraints of the schema as predicates. A statement
  of the sources is a function on the database; it fails with \<^const>\<open>None\<close> when its result
  violates a constraint, and a failed statement of a transaction undoes the whole of it.
\<close>

section \<open>Rows\<close>

record user =
  u_id :: string
  u_external_id :: string
  u_status :: string
  u_is_super :: bool
  u_last_login_at :: "time option"
  u_updated_at :: time

record device =
  d_id :: string
  d_owner_user_id :: string
  d_hostname :: string
  d_status :: string
  d_overlay_ip :: "addr option"
  d_overlay_ip_allocated_at :: "time option"
  d_overlay_ip_reclaim_after :: "time option"
  d_credential_hash :: string
  d_agent_version :: string
  d_os_platform :: string
  d_os_arch :: string
  d_disk_free_bytes :: int
  d_external_endpoint_host :: "string option"
  d_external_endpoint_port :: "int option"
  d_last_seen_at :: "time option"
  d_revoked_at :: "time option"
  d_created_at :: time
  d_updated_at :: time
  d_direct_scoped :: bool
  d_direct_home_port :: "int option"

record device_key =
  k_id :: string
  k_device_id :: string
  k_key_version :: int
  k_wg_public_key :: string
  k_state :: string
  k_rotated_from :: "string option"
  k_retired_at :: "time option"

record pair_code =
  pc_id :: string
  pc_code_hash :: string
  pc_hostname :: string
  pc_wg_public_key :: string
  pc_agent_version :: string
  pc_os_platform :: string
  pc_os_arch :: string
  pc_status :: string
  pc_fail_count :: int
  pc_locked_until :: "time option"
  pc_claimant :: "string option"
  pc_claimed_device :: "string option"
  pc_claimed_at :: "time option"
  pc_expires_at :: time
  pc_created_at :: time

record service =
  sv_id :: string
  sv_device_id :: string
  sv_name :: string
  sv_protocol :: string
  sv_local_bind :: string
  sv_exposure_type :: string
  sv_auth_mode :: string
  sv_health_status :: string
  sv_tags :: "string list"

record connect_session =
  cs_id :: string
  cs_requester_user :: string
  cs_requester_device :: "string option"
  cs_target_device :: string
  cs_target_service :: string
  cs_action :: string
  cs_status :: string
  cs_requester_candidates :: string
  cs_target_candidates :: string
  cs_denial_reason :: "string option"
  cs_expires_at :: time
  cs_created_at :: time
  cs_updated_at :: time

record relay_credential =
  rc_session :: string
  rc_username :: string
  rc_password :: string
  rc_transport :: string
  rc_ttl :: int
  rc_issued_at :: time
  rc_expires_at :: time

record relay_allocation =
  ra_id :: string
  ra_session :: string
  ra_key :: string
  ra_transport :: string
  ra_state :: string
  ra_bytes_up :: int
  ra_bytes_down :: int
  ra_started_at :: time
  ra_ended_at :: "time option"
  ra_updated_at :: time

record audit_event =
  ae_actor_user :: "string option"
  ae_actor_device :: "string option"
  ae_action :: string
  ae_outcome :: string
  ae_target_table :: string
  ae_target_id :: "string option"
  ae_remote_ip :: "addr option"
  ae_user_agent :: string
  ae_metadata :: "(string \<times> string) list"
  ae_occurred_at :: time

record handoff_code =
  hc_code_hash :: string
  hc_user_id :: string
  hc_session_id :: "string option"
  hc_expires_at :: time
  hc_consumed_at :: "time option"
  hc_created_at :: time

record uoa_session =
  us_id :: string
  us_user_id :: "string option"
  us_subject :: string
  us_organization_id :: "string option"
  us_team_id :: "string option"
  us_sealed :: string
  us_kind :: string
  us_expires_at :: time
  us_closing :: bool
  us_cleanup_after :: time
  us_created_at :: time

record home_grant =
  hg_mobile :: string
  hg_home :: string
  hg_expires_at :: time

record db =
  users :: "user list"
  devices :: "device list"
  device_keys :: "device_key list"
  pair_codes :: "pair_code list"
  services :: "service list"
  connect_sessions :: "connect_session list"
  relay_credentials :: "relay_credential list"
  relay_allocations :: "relay_allocation list"
  audit_events :: "audit_event list"
  handoff_codes :: "handoff_code list"
  uoa_sessions :: "uoa_session list"
  home_grants :: "home_grant list"

definition empty_db :: db where
  "empty_db = \<lparr>users = [], devices = [], device_keys = [], pair_codes = [], services = [],
     connect_sessions = [], relay_credentials = [], relay_allocations = [], audit_events = [],
     handoff_codes = [], uoa_sessions = [], home_grants = []\<rparr>"

section \<open>Constraints\<close>

definition pk :: "('r \<Rightarrow> 'k) \<Rightarrow> 'r list \<Rightarrow> bool" where
  "pk k t \<longleftrightarrow> unique_on (\<lambda>r. Some (k r)) t"

definition refs :: "string \<Rightarrow> ('r \<Rightarrow> string) \<Rightarrow> 'r list \<Rightarrow> bool" where
  "refs i k t \<longleftrightarrow> list_ex (\<lambda>r. k r = i) t"

definition refs_opt :: "string option \<Rightarrow> ('r \<Rightarrow> string) \<Rightarrow> 'r list \<Rightarrow> bool" where
  "refs_opt io k t = (case io of None \<Rightarrow> True | Some i \<Rightarrow> refs i k t)"

definition port_ok :: "int option \<Rightarrow> bool" where
  "port_ok p = (case p of None \<Rightarrow> True | Some n \<Rightarrow> 1 \<le> n \<and> n \<le> 65535)"

definition users_ok :: "user list \<Rightarrow> bool" where
  "users_ok us \<longleftrightarrow> pk u_id us \<and> pk u_external_id us \<and>
     list_all (\<lambda>u. u_status u \<in> {''active'', ''disabled''}) us"

definition device_ok :: "device \<Rightarrow> bool" where
  "device_ok d \<longleftrightarrow>
     d_status d \<in> {''pending'', ''active'', ''revoked'', ''quarantined''} \<and>
     d_os_platform d \<in> {''darwin'', ''linux'', ''windows'', ''ios'', ''android'', ''tvos''} \<and>
     0 \<le> d_disk_free_bytes d \<and> port_ok (d_external_endpoint_port d) \<and>
     port_ok (d_direct_home_port d) \<and>
     (d_overlay_ip_reclaim_after d = None \<or> d_revoked_at d \<noteq> None)"

definition devices_ok :: "user list \<Rightarrow> device list \<Rightarrow> bool" where
  "devices_ok us ds \<longleftrightarrow> list_all device_ok ds \<and> pk d_id ds \<and> unique_on d_overlay_ip ds \<and>
     pk (\<lambda>d. (d_owner_user_id d, d_hostname d)) ds \<and>
     list_all (\<lambda>d. refs (d_owner_user_id d) u_id us) ds"

text \<open>The key of a partial unique index: the rows that are active.\<close>

definition active_key :: "(device_key \<Rightarrow> 'k) \<Rightarrow> device_key \<Rightarrow> 'k option" where
  "active_key f k = (if k_state k = ''active'' then Some (f k) else None)"

definition key_ok :: "device_key \<Rightarrow> bool" where
  "key_ok k \<longleftrightarrow> 0 < k_key_version k \<and> wg_key_format (k_wg_public_key k) \<and>
     k_state k \<in> {''active'', ''retired'', ''revoked''}"

definition keys_ok :: "device list \<Rightarrow> device_key list \<Rightarrow> bool" where
  "keys_ok ds ks \<longleftrightarrow> list_all key_ok ks \<and> pk k_id ks \<and>
     pk (\<lambda>k. (k_device_id k, k_key_version k)) ks \<and>
     unique_on (active_key k_wg_public_key) ks \<and> unique_on (active_key k_device_id) ks \<and>
     list_all (\<lambda>k. refs (k_device_id k) d_id ds) ks \<and>
     list_all (\<lambda>k. refs_opt (k_rotated_from k) k_id ks) ks"

definition pair_code_ok :: "pair_code \<Rightarrow> bool" where
  "pair_code_ok p \<longleftrightarrow> length (pc_code_hash p) = 32 \<and> wg_key_format (pc_wg_public_key p) \<and>
     pc_status p \<in> {''pending'', ''claimed'', ''expired'', ''locked''} \<and>
     0 \<le> pc_fail_count p \<and> pc_fail_count p \<le> 5 \<and> pc_created_at p < pc_expires_at p \<and>
     (case pc_locked_until p of None \<Rightarrow> True | Some t \<Rightarrow> pc_created_at p \<le> t)"

definition pair_codes_ok :: "user list \<Rightarrow> device list \<Rightarrow> pair_code list \<Rightarrow> bool" where
  "pair_codes_ok us ds ps \<longleftrightarrow> list_all pair_code_ok ps \<and> pk pc_id ps \<and> pk pc_code_hash ps \<and>
     list_all (\<lambda>p. refs_opt (pc_claimant p) u_id us \<and> refs_opt (pc_claimed_device p) d_id ds) ps"

definition service_ok :: "service \<Rightarrow> bool" where
  "service_ok s \<longleftrightarrow>
     sv_protocol s \<in> {''tcp'', ''udp'', ''http'', ''https'', ''ws'', ''wss'', ''browser-control''} \<and>
     sv_exposure_type s \<in> {''tcp'', ''udp'', ''http'', ''ws'', ''browser-control''} \<and>
     sv_auth_mode s \<in> {''inherit'', ''none'', ''device'', ''user''} \<and>
     sv_health_status s \<in> {''healthy'', ''degraded'', ''unhealthy'', ''unknown''}"

definition services_ok :: "device list \<Rightarrow> service list \<Rightarrow> bool" where
  "services_ok ds ss \<longleftrightarrow> list_all service_ok ss \<and> pk sv_id ss \<and>
     pk (\<lambda>s. (sv_device_id s, sv_name s, sv_local_bind s)) ss \<and>
     list_all (\<lambda>s. refs (sv_device_id s) d_id ds) ss"

text \<open>\<open>jsonb_typeof(x) = 'array'\<close> on the text of a JSON value.\<close>

definition json_array :: "string \<Rightarrow> bool" where
  "json_array s = (case TrimSpace s of [] \<Rightarrow> False | c # _ \<Rightarrow> c = CHR ''['')"

definition connect_session_ok :: "connect_session \<Rightarrow> bool" where
  "connect_session_ok c \<longleftrightarrow>
     cs_status c \<in> {''pending'', ''authorizing'', ''candidate_exchange'', ''established'', ''closing'',
       ''closed'', ''denied'', ''expired'', ''failed''} \<and>
     json_array (cs_requester_candidates c) \<and> json_array (cs_target_candidates c)"

definition connect_sessions_ok ::
    "user list \<Rightarrow> device list \<Rightarrow> service list \<Rightarrow> connect_session list \<Rightarrow> bool" where
  "connect_sessions_ok us ds ss cs \<longleftrightarrow> list_all connect_session_ok cs \<and> pk cs_id cs \<and>
     list_all (\<lambda>c. refs (cs_requester_user c) u_id us \<and> refs_opt (cs_requester_device c) d_id ds \<and>
       refs (cs_target_device c) d_id ds \<and> refs (cs_target_service c) sv_id ss) cs"

definition relay_credentials_ok :: "connect_session list \<Rightarrow> relay_credential list \<Rightarrow> bool" where
  "relay_credentials_ok cs rs \<longleftrightarrow> pk rc_username rs \<and>
     list_all (\<lambda>r. rc_transport r \<in> {''udp'', ''tcp'', ''tls''} \<and> 0 < rc_ttl r \<and> rc_ttl r \<le> 3600 \<and>
       rc_issued_at r < rc_expires_at r \<and> refs (rc_session r) cs_id cs) rs"

definition relay_allocations_ok :: "connect_session list \<Rightarrow> relay_allocation list \<Rightarrow> bool" where
  "relay_allocations_ok cs as \<longleftrightarrow> pk ra_id as \<and> pk ra_key as \<and>
     list_all (\<lambda>a. ra_transport a \<in> {''udp'', ''tcp'', ''tls''} \<and>
       ra_state a \<in> {''active'', ''closed'', ''expired'', ''failed''} \<and>
       0 \<le> ra_bytes_up a \<and> 0 \<le> ra_bytes_down a \<and>
       (case ra_ended_at a of None \<Rightarrow> True | Some t \<Rightarrow> ra_started_at a \<le> t) \<and>
       refs (ra_session a) cs_id cs) as"

definition audit_events_ok :: "user list \<Rightarrow> device list \<Rightarrow> audit_event list \<Rightarrow> bool" where
  "audit_events_ok us ds es \<longleftrightarrow>
     list_all (\<lambda>e. ae_outcome e \<in> {''success'', ''failure'', ''allow'', ''deny'', ''info''} \<and>
       refs_opt (ae_actor_user e) u_id us \<and> refs_opt (ae_actor_device e) d_id ds) es"

definition handoff_codes_ok :: "user list \<Rightarrow> uoa_session list \<Rightarrow> handoff_code list \<Rightarrow> bool" where
  "handoff_codes_ok us ss hs \<longleftrightarrow> pk hc_code_hash hs \<and>
     list_all (\<lambda>h. length (hc_code_hash h) = 32 \<and> hc_created_at h < hc_expires_at h \<and>
       (case hc_consumed_at h of None \<Rightarrow> True | Some t \<Rightarrow> hc_created_at h \<le> t) \<and>
       refs (hc_user_id h) u_id us \<and> refs_opt (hc_session_id h) us_id ss) hs"

definition uoa_sessions_ok :: "user list \<Rightarrow> uoa_session list \<Rightarrow> bool" where
  "uoa_sessions_ok us ss \<longleftrightarrow> pk us_id ss \<and>
     list_all (\<lambda>s. (us_user_id s \<noteq> None \<or> us_closing s) \<and>
       us_kind s \<in> {''refresh'', ''broker'', ''development''} \<and>
       refs_opt (us_user_id s) u_id us) ss"

definition home_grants_ok :: "device list \<Rightarrow> home_grant list \<Rightarrow> bool" where
  "home_grants_ok ds gs \<longleftrightarrow> pk (\<lambda>g. (hg_mobile g, hg_home g)) gs \<and>
     list_all (\<lambda>g. refs (hg_mobile g) d_id ds \<and> refs (hg_home g) d_id ds) gs"

definition db_ok :: "db \<Rightarrow> bool" where
  "db_ok d \<longleftrightarrow>
     users_ok (users d) \<and> devices_ok (users d) (devices d) \<and> keys_ok (devices d) (device_keys d) \<and>
     pair_codes_ok (users d) (devices d) (pair_codes d) \<and> services_ok (devices d) (services d) \<and>
     connect_sessions_ok (users d) (devices d) (services d) (connect_sessions d) \<and>
     relay_credentials_ok (connect_sessions d) (relay_credentials d) \<and>
     relay_allocations_ok (connect_sessions d) (relay_allocations d) \<and>
     audit_events_ok (users d) (devices d) (audit_events d) \<and>
     handoff_codes_ok (users d) (uoa_sessions d) (handoff_codes d) \<and>
     uoa_sessions_ok (users d) (uoa_sessions d) \<and> home_grants_ok (devices d) (home_grants d)"

text \<open>
  One statement: it fails when the call fails (connection, deadline, encoding: \<open>fail\<close>) or when the
  result violates a constraint.
\<close>

definition statement :: "bool \<Rightarrow> db \<Rightarrow> db option" where
  "statement fail d = (if fail \<or> \<not> db_ok d then None else Some d)"

lemma statement_Some [simp]: "statement fail d = Some d' \<longleftrightarrow> d' = d \<and> \<not> fail \<and> db_ok d"
  by (auto simp: statement_def)

lemma statement_ok: "statement fail d = Some d' \<Longrightarrow> db_ok d'"
  by simp

lemma empty_db_ok: "db_ok empty_db"
  by (simp add: db_ok_def empty_db_def users_ok_def devices_ok_def keys_ok_def pair_codes_ok_def
      services_ok_def connect_sessions_ok_def relay_credentials_ok_def relay_allocations_ok_def
      audit_events_ok_def handoff_codes_ok_def uoa_sessions_ok_def home_grants_ok_def pk_def)

text \<open>Rows with the defaults of the schema; the witnesses fill in what they need.\<close>

definition mk_user :: "string \<Rightarrow> user" where
  "mk_user i = \<lparr>u_id = i, u_external_id = i, u_status = ''active'', u_is_super = False,
     u_last_login_at = None, u_updated_at = 0\<rparr>"

definition mk_device :: "string \<Rightarrow> string \<Rightarrow> string \<Rightarrow> device" where
  "mk_device i owner platform =
     \<lparr>d_id = i, d_owner_user_id = owner, d_hostname = i, d_status = ''active'', d_overlay_ip = None,
      d_overlay_ip_allocated_at = None, d_overlay_ip_reclaim_after = None, d_credential_hash = [],
      d_agent_version = [], d_os_platform = platform, d_os_arch = [], d_disk_free_bytes = 0,
      d_external_endpoint_host = None, d_external_endpoint_port = None, d_last_seen_at = None,
      d_revoked_at = None, d_created_at = 0, d_updated_at = 0, d_direct_scoped = False,
      d_direct_home_port = None\<rparr>"

definition mk_key :: "string \<Rightarrow> string \<Rightarrow> int \<Rightarrow> string \<Rightarrow> device_key" where
  "mk_key i dev ver key = \<lparr>k_id = i, k_device_id = dev, k_key_version = ver, k_wg_public_key = key,
     k_state = ''active'', k_rotated_from = None, k_retired_at = None\<rparr>"

section \<open>Updates that keep the references\<close>

lemma refs_iff: "refs i k t \<longleftrightarrow> i \<in> set (map k t)"
  by (auto simp: refs_def list_ex_iff)

lemma refs_cong: "map k t = map k t' \<Longrightarrow> refs i k t = refs i k t'"
  by (simp only: refs_iff)

lemma refs_opt_cong: "map k t = map k t' \<Longrightarrow> refs_opt io k t = refs_opt io k t'"
  by (simp add: refs_opt_def refs_cong [of k t t'] split: option.splits)

lemma pk_cong: "map k t = map k t' \<Longrightarrow> pk k t = pk k t'"
proof -
  have "List.map_filter (\<lambda>r. Some (k r)) t = map k t" for t by (induction t) auto
  then show "map k t = map k t' \<Longrightarrow> pk k t = pk k t'" by (simp add: pk_def unique_on_def)
qed

lemma pk_distinct: "pk k t \<longleftrightarrow> distinct (map k t)"
proof -
  have "List.map_filter (\<lambda>r. Some (k r)) t = map k t" by (induction t) auto
  then show ?thesis by (simp add: pk_def unique_on_def)
qed

text \<open>New rows of \<open>devices\<close> with the same identifiers leave the rest of the database as it was.\<close>

lemma db_ok_devices:
  assumes "db_ok d" "map d_id ds = map d_id (devices d)" "devices_ok (users d) ds"
  shows "db_ok (d\<lparr>devices := ds\<rparr>)"
  using assms
  by (simp add: db_ok_def keys_ok_def pair_codes_ok_def services_ok_def connect_sessions_ok_def
      audit_events_ok_def home_grants_ok_def refs_cong [OF assms(2)] refs_opt_cong [OF assms(2)])

lemma devices_ok_update:
  assumes "devices_ok us ds"
    and "\<And>x. p x \<Longrightarrow> x \<in> set ds \<Longrightarrow> device_ok (f x)"
    and "\<And>x. d_id (f x) = d_id x" "\<And>x. d_owner_user_id (f x) = d_owner_user_id x"
    and "\<And>x. d_hostname (f x) = d_hostname x"
    and "unique_on d_overlay_ip (sql_update p f ds)"
  shows "devices_ok us (sql_update p f ds)"
proof -
  have "list_all device_ok (sql_update p f ds)"
    using assms(1,2) by (auto simp: devices_ok_def list_all_iff set_sql_update)
  moreover have "pk d_id (sql_update p f ds)"
    using assms(1) pk_cong [OF map_sql_update [of d_id f p ds, OF assms(3)]]
    by (simp add: devices_ok_def)
  moreover have "pk (\<lambda>d. (d_owner_user_id d, d_hostname d)) (sql_update p f ds)"
    using assms(1) pk_cong [OF map_sql_update [of "\<lambda>d. (d_owner_user_id d, d_hostname d)" f p ds]]
    by (simp add: devices_ok_def assms(4,5))
  moreover have "list_all (\<lambda>d. refs (d_owner_user_id d) u_id us) (sql_update p f ds)"
    using assms(1) by (auto simp: devices_ok_def list_all_iff set_sql_update assms(4))
  ultimately show ?thesis using assms(6) by (simp add: devices_ok_def)
qed

lemma device_unique:
  "devices_ok us ds \<Longrightarrow> x \<in> set ds \<Longrightarrow> y \<in> set ds \<Longrightarrow> d_id x = d_id y \<Longrightarrow> x = y"
  unfolding devices_ok_def pk_def by (auto dest: unique_onD)

end
