(* ===== verification/Overlay.thy ===== *)
theory Overlay
  imports Schema
begin

text \<open>
  Package \<open>internal/overlay\<close>: the allocator that gives each device an address of the overlay
  network, the address of the server itself and the peer stanzas of the WireGuard configuration.
\<close>

section \<open>The allocator\<close>

datatype overlay_error =
    NilPool | BadCIDR | NotInitialized | NilTx | NoDeviceAddresses
  | SelectFailed | InvalidOverlayIP | AssignFailed | ReleaseFailed
  | NotIPv4 | TooFewHostBits | ServerOutside

text \<open>An allocator: whether it holds a connection pool, and the network.\<close>

record Allocator =
  al_pool :: bool
  al_cidr :: ipnet

definition overlay_New :: "bool \<Rightarrow> string \<Rightarrow> overlay_error + Allocator" where
  "overlay_New pool cidrStr =
     (if \<not> pool then Inl NilPool
      else (case ParseCIDR cidrStr of None \<Rightarrow> Inl BadCIDR
            | Some (ip, cidr) \<Rightarrow>
                Inr \<lparr>al_pool = pool, al_cidr = cidr\<lparr>net_ip := Masked ip (ones cidr)\<rparr>\<rparr>))"

text \<open>The \<open>int\<close> of Go has 64 bits.\<close>

definition go_int :: "int \<Rightarrow> int" where
  "go_int i = (i + 2 ^ 63) mod 2 ^ 64 - 2 ^ 63"

definition deviceHostOffsetRange :: "ipnet \<Rightarrow> overlay_error + int \<times> int" where
  "deviceHostOffsetRange cidr =
     (let hostBits = bits cidr - ones cidr;
          maxHosts = go_int (go_int (2 ^ hostBits) - 2)
      in if maxHosts < 2 then Inl NoDeviceAddresses else Inr (2, maxHosts))"

text \<open>\<open>inet + bigint\<close> of PostgreSQL: an error beyond the last address.\<close>

fun inet_add :: "addr \<Rightarrow> nat \<Rightarrow> addr option" where
  "inet_add (IPv4 w) n = (if unat w + n < 2 ^ 32 then Some (IPv4 (w + of_nat n)) else None)"
| "inet_add (IPv6 w z) n = (if unat w + n < 2 ^ 128 then Some (IPv6 (w + of_nat n) z) else None)"

text \<open>
  The query of \<open>allocateOn\<close>: the addresses \<open>base + n\<close> for \<open>n\<close> in the series, without those a device
  has, the least first. The bounds of the series are 4-byte integers.
\<close>

function first_free :: "(nat \<Rightarrow> bool) \<Rightarrow> nat \<Rightarrow> nat \<Rightarrow> nat option" where
  "first_free used n hi =
     (if hi < n then None else if used n then first_free used (n + 1) hi else Some n)"
  by pat_completeness auto
termination by (relation "measure (\<lambda>(u, n, hi). hi + 1 - n)") auto

declare first_free.simps [simp del]

definition select_overlay_ip :: "db \<Rightarrow> addr \<Rightarrow> int \<Rightarrow> int \<Rightarrow> addr option" where
  "select_overlay_ip d base lo hi =
     (if 2 ^ 31 \<le> hi \<or> inet_add base (nat hi) = None then None
      else (case first_free
              (\<lambda>n. list_ex (\<lambda>r. d_overlay_ip r \<noteq> None \<and> d_overlay_ip r = inet_add base n) (devices d))
              (nat lo) (nat hi) of
              None \<Rightarrow> None | Some n \<Rightarrow> inet_add base n))"

text \<open>\<open>net.ParseIP\<close>, whose result is the same for the two forms of an IPv4 address.\<close>

definition ParseIP :: "string \<Rightarrow> addr option" where
  "ParseIP s = (case ParseAddr s of None \<Rightarrow> None
     | Some a \<Rightarrow> if addr_zone a = [] then Some (Unmap a) else None)"

definition assign_overlay_ip :: "env \<Rightarrow> addr \<Rightarrow> string \<Rightarrow> db \<Rightarrow> db option" where
  "assign_overlay_ip E ip deviceID d =
     (case uuid_in E deviceID of None \<Rightarrow> None
      | Some u \<Rightarrow> Some (d\<lparr>devices := sql_update (\<lambda>r. d_id r = u)
          (\<lambda>r. r\<lparr>d_overlay_ip := Some ip, d_overlay_ip_allocated_at := Some (clock E)\<rparr>) (devices d)\<rparr>))"

text \<open>The two external calls of \<open>allocateOn\<close> have the numbers \<open>i\<close> and \<open>i + 1\<close>.\<close>

definition allocateOn :: "env \<Rightarrow> nat \<Rightarrow> ipnet \<Rightarrow> string \<Rightarrow> db \<Rightarrow> (overlay_error + addr) \<times> db" where
  "allocateOn E i cidr deviceID d =
     (case deviceHostOffsetRange cidr of Inl e \<Rightarrow> (Inl e, d)
      | Inr (firstOffset, lastOffset) \<Rightarrow>
          (case (if fails E i then None else select_overlay_ip d (net_ip cidr) firstOffset lastOffset) of
             None \<Rightarrow> (Inl SelectFailed, d)
           | Some r \<Rightarrow>
               (case ParseIP (addr_string r) of None \<Rightarrow> (Inl InvalidOverlayIP, d)
                | Some ip \<Rightarrow>
                    (case Option.bind (assign_overlay_ip E ip deviceID d) (statement (fails E (i + 1))) of
                       None \<Rightarrow> (Inl AssignFailed, d)
                     | Some d' \<Rightarrow> (Inr ip, d')))))"

definition Allocate :: "env \<Rightarrow> nat \<Rightarrow> Allocator option \<Rightarrow> string \<Rightarrow> db \<Rightarrow> (overlay_error + addr) \<times> db" where
  "Allocate E i a deviceID d =
     (case a of None \<Rightarrow> (Inl NotInitialized, d)
      | Some al \<Rightarrow> if \<not> al_pool al then (Inl NotInitialized, d) else allocateOn E i (al_cidr al) deviceID d)"

text \<open>\<open>AllocateTx\<close> works on the state of the caller's transaction; the callers pass one.\<close>

definition AllocateTx :: "env \<Rightarrow> nat \<Rightarrow> Allocator option \<Rightarrow> string \<Rightarrow> db \<Rightarrow> (overlay_error + addr) \<times> db" where
  "AllocateTx E i a deviceID d =
     (case a of None \<Rightarrow> (Inl NotInitialized, d)
      | Some al \<Rightarrow> allocateOn E i (al_cidr al) deviceID d)"

definition Release :: "env \<Rightarrow> nat \<Rightarrow> Allocator option \<Rightarrow> string \<Rightarrow> db \<Rightarrow> (overlay_error + unit) \<times> db" where
  "Release E i a deviceID d =
     (case a of None \<Rightarrow> (Inl NotInitialized, d)
      | Some al \<Rightarrow>
          if \<not> al_pool al then (Inl NotInitialized, d)
          else (case Option.bind (uuid_in E deviceID) (\<lambda>u. statement (fails E i)
                  (d\<lparr>devices := sql_update (\<lambda>r. d_id r = u)
                     (\<lambda>r. r\<lparr>d_overlay_ip := None, d_overlay_ip_allocated_at := None\<rparr>) (devices d)\<rparr>)) of
                  None \<Rightarrow> (Inl ReleaseFailed, d) | Some d' \<Rightarrow> (Inr (), d')))"

section \<open>The server's address\<close>

text \<open>\<open>IPNet.Contains\<close>\<close>

fun IPNet_Contains :: "ipnet \<Rightarrow> addr \<Rightarrow> bool" where
  "IPNet_Contains nt (IPv4 w) =
     (case net_ip nt of IPv4 v \<Rightarrow> mask_bits (32 - ones nt) w = mask_bits (32 - ones nt) v | IPv6 _ _ \<Rightarrow> False)"
| "IPNet_Contains nt (IPv6 w z) =
     (case net_ip nt of IPv4 _ \<Rightarrow> False | IPv6 v _ \<Rightarrow> mask_bits (128 - ones nt) w = mask_bits (128 - ones nt) v)"

text \<open>
  The loop of \<open>serverAddress\<close> adds one to the last byte and carries while a byte wraps to 0.
\<close>

fun increment_loop :: "nat list \<Rightarrow> nat list" where
  "increment_loop [] = []"
| "increment_loop (b # bs) =
     (let b' = (b + 1) mod 256 in if b' \<noteq> 0 then b' # bs else b' # increment_loop bs)"

definition increment :: "32 word \<Rightarrow> 32 word" where
  "increment w = word_of_bytes (rev (increment_loop (rev (v4_bytes w))))"

definition serverAddress :: "string \<Rightarrow> overlay_error + addr \<times> ipnet" where
  "serverAddress cidrStr =
     (case ParseCIDR cidrStr of None \<Rightarrow> Inl BadCIDR
      | Some (baseIP, network) \<Rightarrow>
          (case Unmap baseIP of IPv6 _ _ \<Rightarrow> Inl NotIPv4
           | IPv4 ip4 \<Rightarrow>
               if bits network \<noteq> 32 \<or> bits network - ones network < 2 then Inl TooFewHostBits
               else let serverIP = IPv4 (increment ip4) in
                 if \<not> IPNet_Contains network serverIP then Inl ServerOutside
                 else Inr (serverIP, network)))"

definition ServerOverlayIP :: "string \<Rightarrow> overlay_error + string" where
  "ServerOverlayIP cidrStr =
     (case serverAddress cidrStr of Inl e \<Rightarrow> Inl e | Inr (ip, network) \<Rightarrow> Inr (addr_string ip))"

definition ServerInterfaceAddress :: "string \<Rightarrow> overlay_error + string" where
  "ServerInterfaceAddress cidrStr =
     (case serverAddress cidrStr of Inl e \<Rightarrow> Inl e
      | Inr (ip, network) \<Rightarrow> Inr (addr_string ip @ ''/'' @ dec_nat (ones network)))"

section \<open>Peer stanzas\<close>

abbreviation (input) nl :: string where "nl \<equiv> [CHR 0x0A]"

record PeerConfig =
  DeviceSide :: string
  ServerSide :: string
  OverlayIP :: string

definition GeneratePeerConfig ::
    "string \<Rightarrow> string \<Rightarrow> int \<Rightarrow> string \<Rightarrow> string \<Rightarrow> string \<Rightarrow> PeerConfig" where
  "GeneratePeerConfig serverPublicKey serverEndpoint serverWGPort serverOverlayIP
       devicePublicKey deviceOverlayIP =
     \<lparr>DeviceSide =
        ''[Peer]'' @ nl @ ''PublicKey = '' @ serverPublicKey @ nl @
        ''Endpoint = '' @ serverEndpoint @ '':'' @ Itoa serverWGPort @ nl @
        ''AllowedIPs = '' @ serverOverlayIP @ ''/32'' @ nl @ ''PersistentKeepalive = 25'' @ nl,
      ServerSide =
        ''[Peer]'' @ nl @ ''PublicKey = '' @ devicePublicKey @ nl @
        ''AllowedIPs = '' @ deviceOverlayIP @ ''/32'' @ nl @ ''PersistentKeepalive = 25'' @ nl,
      OverlayIP = deviceOverlayIP\<rparr>"

section \<open>Facts on addresses\<close>

lemma first_free_Some:
  "first_free used n hi = Some m \<Longrightarrow> n \<le> m \<and> m \<le> hi \<and> \<not> used m \<and> (\<forall>k. n \<le> k \<and> k < m \<longrightarrow> used k)"
proof (induction used n hi rule: first_free.induct)
  case (1 used n hi)
  show ?case
  proof (cases "used n")
    case True
    have "n + 1 \<le> m \<and> m \<le> hi \<and> \<not> used m \<and> (\<forall>k. n + 1 \<le> k \<and> k < m \<longrightarrow> used k)"
      using 1 True by (subst (asm) first_free.simps) (auto split: if_splits)
    then show ?thesis using True by (metis Suc_eq_plus1 Suc_leD antisym_conv not_less_eq_eq)
  next
    case False
    with 1(2) show ?thesis by (subst (asm) first_free.simps) (auto split: if_splits)
  qed
qed

lemma first_free_ex:
  "n \<le> m \<Longrightarrow> m \<le> hi \<Longrightarrow> \<not> used m \<Longrightarrow> \<exists>k. first_free used n hi = Some k"
proof (induction used n hi rule: first_free.induct)
  case (1 used n hi)
  then show ?case by (subst first_free.simps) (cases "n = m", auto)
qed

lemma unat_mask_bits: "unat (mask_bits h w) = unat w div 2 ^ h * 2 ^ h" for w :: "'a::len word"
proof -
  have "unat w div 2 ^ h * 2 ^ h \<le> unat w" by (simp add: div_times_less_eq_dividend)
  then have "unat w div 2 ^ h * 2 ^ h < 2 ^ LENGTH('a)"
    using unsigned_less [of w, where 'a = nat] by (rule order_le_less_trans)
  moreover have "unat (drop_bit h w) = unat w div 2 ^ h"
    unfolding unat_drop_bit_eq by (rule drop_bit_eq_div)
  then have "drop_bit h w = of_nat (unat w div 2 ^ h)"
    by (metis of_nat_unat ucast_id)
  then have "mask_bits h w = of_nat (unat w div 2 ^ h * 2 ^ h)"
    by (simp add: mask_bits_def push_bit_eq_mult)
  ultimately show ?thesis by (simp add: unat_of_nat take_bit_nat_eq_self del: of_nat_mult)
qed

lemma mask_bits_add:
  fixes w :: "32 word"
  assumes "h \<le> 32" "n < 2 ^ h"
  shows "unat (mask_bits h w + of_nat n) = unat (mask_bits h w) + n"
    and "mask_bits h (mask_bits h w + of_nat n) = mask_bits h w"
proof -
  have h: "(2::nat) ^ 32 = 2 ^ (32 - h) * 2 ^ h" using assms(1) by (simp flip: power_add)
  have "unat w < 2 ^ (32 - h) * 2 ^ h" using unsigned_less [of w, where 'a = nat] h by simp
  then have "unat w div 2 ^ h < 2 ^ (32 - h)" by (simp add: div_less_iff_less_mult)
  then have "(unat w div 2 ^ h + 1) * 2 ^ h \<le> 2 ^ (32 - h) * 2 ^ h" by (intro mult_right_mono) auto
  then have lt: "unat (mask_bits h w) + n < 2 ^ 32" using assms(2) h by (simp add: unat_mask_bits)
  have n: "n < 2 ^ 32" using lt by simp
  show u: "unat (mask_bits h w + of_nat n) = unat (mask_bits h w) + n"
    using lt n by (simp add: unat_word_ariths take_bit_nat_eq_self unat_of_nat)
  have "unat (mask_bits h (mask_bits h w + of_nat n)) = unat (mask_bits h w)"
    unfolding unat_mask_bits [of h "mask_bits h w + of_nat n"] u unat_mask_bits [of h w]
    using assms(2) by simp
  then show "mask_bits h (mask_bits h w + of_nat n) = mask_bits h w" by (simp add: word_unat_eq_iff)
qed

text \<open>The carry loop adds one to the address.\<close>

lemma increment_loop_value:
  "list_all (\<lambda>b. b < 256) bs \<Longrightarrow>
   foldl (\<lambda>n b. n * 256 + b) 0 (rev (increment_loop bs)) mod 256 ^ length bs =
   (foldl (\<lambda>n b. n * 256 + b) 0 (rev bs) + 1) mod (256 :: nat) ^ length bs"
proof (induction bs)
  case (Cons b bs)
  let ?v = "foldl (\<lambda>n b. n * 256 + b) (0::nat)"
  show ?case
  proof (cases "b = 255")
    case True
    have "?v (rev (increment_loop bs)) mod 256 ^ length bs = (?v (rev bs) + 1) mod 256 ^ length bs"
      using Cons by simp
    then have "256 * ?v (rev (increment_loop bs)) mod (256 * 256 ^ length bs) =
        256 * (?v (rev bs) + 1) mod (256 * 256 ^ length bs)"
      by (simp only: mod_mult_mult1)
    then show ?thesis using True by (simp add: ac_simps)
  next
    case False
    with Cons.prems have "(b + 1) mod 256 = b + 1" by simp
    then show ?thesis by simp
  qed
qed simp

lemma increment_eq [simp]: "increment w = w + 1"
proof -
  let ?v = "foldl (\<lambda>n b. n * 256 + b) (0::nat)"
  have l: "length (increment_loop bs) = length bs" for bs
    by (induction bs) (auto simp: Let_def)
  have w: "of_nat (?v (v4_bytes w)) = w"
    using word_of_v4_bytes [of w] by (simp add: word_of_bytes_def)
  have "?v (rev (increment_loop (rev (v4_bytes w)))) mod 2 ^ 32 = (?v (v4_bytes w) + 1) mod 2 ^ 32"
    using increment_loop_value [of "rev (v4_bytes w)"]
    by (simp add: v4_bytes_def list_all_iff)
  then have "of_nat (?v (rev (increment_loop (rev (v4_bytes w))))) =
      (of_nat (?v (v4_bytes w) + 1) :: 32 word)"
    by (subst word_of_nat_eq_iff) (simp add: take_bit_eq_mod)
  then show ?thesis using w by (simp add: increment_def word_of_bytes_def)
qed

section \<open>The allocator's contract\<close>

lemma go_int_id: "- (2 ^ 63) \<le> i \<Longrightarrow> i < 2 ^ 63 \<Longrightarrow> go_int i = i"
  by (simp add: go_int_def)

lemma deviceHostOffsetRange_v4:
  assumes "bits c = 32"
  shows "deviceHostOffsetRange c =
    (if 2 \<le> 32 - ones c then Inr (2, 2 ^ (32 - ones c) - 2) else Inl NoDeviceAddresses)"
proof -
  have p: "(2::int) ^ (32 - ones c) \<le> 2 ^ 32" by (rule power_increasing) auto
  have "go_int (go_int m - 2) = m - 2" if "0 \<le> m" "m \<le> 2 ^ 32" for m
    using that by (simp add: go_int_id)
  then have g: "go_int (go_int (2 ^ (32 - ones c)) - 2) = 2 ^ (32 - ones c) - 2"
    using p by simp
  have "(2::int) ^ (32 - ones c) - 2 < 2 \<longleftrightarrow> \<not> 2 \<le> 32 - ones c"
  proof (cases "2 \<le> 32 - ones c")
    case True
    then have "(2::int) ^ 2 \<le> 2 ^ (32 - ones c)" by (rule power_increasing) simp
    with True show ?thesis by simp
  next
    case False
    then have "32 - ones c = 0 \<or> 32 - ones c = 1" by linarith
    with False show ?thesis by auto
  qed
  with g assms show ?thesis by (simp add: deviceHostOffsetRange_def Let_def)
qed

text \<open>
  The contract the handlers rely on: an allocation gives the device one address and changes nothing
  else, the database still satisfies its constraints, and a failed one leaves it alone.
\<close>

definition with_overlay_ip :: "time \<Rightarrow> addr \<Rightarrow> string \<Rightarrow> db \<Rightarrow> db" where
  "with_overlay_ip t ip u d = d\<lparr>devices := sql_update (\<lambda>r. d_id r = u)
     (\<lambda>r. r\<lparr>d_overlay_ip := Some ip, d_overlay_ip_allocated_at := Some t\<rparr>) (devices d)\<rparr>"

locale address_pool =
  fixes alloc :: "env \<Rightarrow> nat \<Rightarrow> 'a \<Rightarrow> string \<Rightarrow> db \<Rightarrow> (overlay_error + addr) \<times> db"
  assumes alloc_error: "alloc E i a dev d = (Inl e, d') \<Longrightarrow> d' = d"
    and alloc_done: "alloc E i a dev d = (Inr ip, d') \<Longrightarrow>
      \<exists>u. uuid_in E dev = Some u \<and> d' = with_overlay_ip (clock E) ip u d \<and> db_ok d'"
begin

lemma alloc_keeps_ok: "db_ok d \<Longrightarrow> alloc E i a dev d = (res, d') \<Longrightarrow> db_ok d'"
  by (cases res) (auto dest: alloc_error alloc_done)

lemma alloc_only_devices:
  assumes "alloc E i a dev d = (res, d')"
  shows "d'\<lparr>devices := []\<rparr> = d\<lparr>devices := []\<rparr>" "map d_id (devices d') = map d_id (devices d)"
  using assms
  by (cases res; auto dest!: alloc_error alloc_done simp: with_overlay_ip_def map_sql_update)+

text \<open>Nobody else has the address, neither after the allocation nor before.\<close>

lemma alloc_exclusive:
  assumes "alloc E i a dev d = (Inr ip, d')" "uuid_in E dev = Some u"
    and "r \<in> set (devices d')" "d_overlay_ip r = Some ip" "refs u d_id (devices d)"
  shows "d_id r = u"
proof -
  have d': "d' = with_overlay_ip (clock E) ip u d" "db_ok d'"
    using alloc_done [OF assms(1)] assms(2) by auto
  from assms(5) obtain q where q: "q \<in> set (devices d)" "d_id q = u"
    by (auto simp: refs_def list_ex_iff)
  let ?q = "q\<lparr>d_overlay_ip := Some ip, d_overlay_ip_allocated_at := Some (clock E)\<rparr>"
  have "?q \<in> set (devices d')" using q by (auto simp: d'(1) with_overlay_ip_def set_sql_update)
  moreover have "unique_on d_overlay_ip (devices d')" using d'(2) by (simp add: db_ok_def devices_ok_def)
  ultimately have "r = ?q" using assms(3,4) by (auto dest: unique_onD)
  then show ?thesis using q by simp
qed

lemma alloc_others_kept:
  assumes "alloc E i a dev d = (Inr ip, d')" "uuid_in E dev = Some u"
    and "r \<in> set (devices d)" "d_id r \<noteq> u"
  shows "r \<in> set (devices d')"
  using assms alloc_done [OF assms(1)] by (auto simp: with_overlay_ip_def set_sql_update)

end

lemma allocateOn_done:
  assumes "allocateOn E i cidr dev d = (Inr ip, d')"
  shows "\<exists>u. uuid_in E dev = Some u \<and> d' = with_overlay_ip (clock E) ip u d \<and> db_ok d'"
  using assms
  by (auto simp: allocateOn_def assign_overlay_ip_def with_overlay_ip_def
      split: sum.splits prod.splits option.splits if_splits bind_splits)

lemma allocateOn_error: "allocateOn E i cidr dev d = (Inl e, d') \<Longrightarrow> d' = d"
  by (auto simp: allocateOn_def split: sum.splits prod.splits option.splits if_splits)

interpretation pool: address_pool AllocateTx
  by unfold_locales
    (auto simp: AllocateTx_def dest: allocateOn_done allocateOn_error split: option.splits)

interpretation pool_direct: address_pool Allocate
  by unfold_locales
    (auto simp: Allocate_def dest: allocateOn_done allocateOn_error split: option.splits if_splits)

section \<open>Which address the allocator picks\<close>

abbreviation (input) holds :: "db \<Rightarrow> addr \<Rightarrow> bool" where
  "holds d ip \<equiv> (\<exists>r \<in> set (devices d). d_overlay_ip r = Some ip)"

lemma ParseIP_v4: "ParseIP (addr_string (IPv4 w)) = Some (IPv4 w)"
  by (simp add: ParseIP_def ParseAddr_v4_string)

lemma pow2_sub2: "k \<le> 2 ^ h - 2 \<Longrightarrow> k < (2::nat) ^ h"
proof -
  have "(2::nat) ^ h - 2 < 2 ^ h" by simp
  then show "k \<le> 2 ^ h - 2 \<Longrightarrow> k < (2::nat) ^ h" by (rule order_le_less_trans [rotated])
qed

lemma inet_add_v4:
  assumes "base = mask_bits h w" "h \<le> 32" "n < 2 ^ h"
  shows "inet_add (IPv4 base) n = Some (IPv4 (base + of_nat n))"
proof -
  have "unat base + n < 2 ^ 32"
    using mask_bits_add(1) [OF assms(2,3), of w] assms(1)
      unsigned_less [of "base + of_nat n", where 'a = nat] by simp
  then show ?thesis by simp
qed

lemma select_v4:
  assumes "base = mask_bits h w" "2 \<le> h" "h \<le> 31"
  shows "select_overlay_ip d (IPv4 base) 2 (2 ^ h - 2) =
    (case first_free (\<lambda>n. \<exists>r \<in> set (devices d). d_overlay_ip r \<noteq> None \<and>
        d_overlay_ip r = inet_add (IPv4 base) n) 2 (2 ^ h - 2) of
       None \<Rightarrow> None | Some n \<Rightarrow> inet_add (IPv4 base) n)"
proof -
  have "(2::int) ^ h \<le> 2 ^ 31" using assms(3) by (rule power_increasing) simp
  moreover have n: "nat (2 ^ h - 2) = 2 ^ h - 2"
    by (cases h) (simp_all add: nat_diff_distrib' nat_power_eq nat_mult_distrib)
  moreover have "(2::nat) ^ h - 2 < 2 ^ h" by simp
  then have "inet_add (IPv4 base) (2 ^ h - 2) = Some (IPv4 (base + of_nat (2 ^ h - 2)))"
    using inet_add_v4 [OF assms(1), of "2 ^ h - 2"] assms(3) by simp
  ultimately show ?thesis
    by (simp add: select_overlay_ip_def list_ex_iff del: inet_add.simps)
qed

lemma allocateOn_v4:
  assumes c: "net_ip c = IPv4 base" "bits c = 32" "base = mask_bits (32 - ones c) w"
    and a: "allocateOn E i c dev d = (Inr x, d')"
  obtains n where "2 \<le> n" "n \<le> 2 ^ (32 - ones c) - 2" "x = IPv4 (base + of_nat n)"
    "unat (base + of_nat n) = unat base + n" "\<not> holds d x"
    "\<And>k. 2 \<le> k \<Longrightarrow> k < n \<Longrightarrow> holds d (IPv4 (base + of_nat k))"
proof -
  let ?h = "32 - ones c"
  let ?used = "\<lambda>n. \<exists>r \<in> set (devices d). d_overlay_ip r \<noteq> None \<and> d_overlay_ip r = inet_add (IPv4 base) n"
  have h: "2 \<le> ?h" using a by (auto simp: allocateOn_def deviceHostOffsetRange_v4 [OF c(2)] split: if_splits)
  obtain r where r: "select_overlay_ip d (IPv4 base) 2 (2 ^ ?h - 2) = Some r"
    and x: "ParseIP (addr_string r) = Some x"
    using a h c by (auto simp: allocateOn_def deviceHostOffsetRange_v4 [OF c(2)]
        split: option.splits if_splits)
  have h31: "?h \<le> 31"
  proof (rule ccontr)
    assume "\<not> ?h \<le> 31"
    then have "(2::int) ^ 32 \<le> 2 ^ ?h" by (intro power_increasing) auto
    then show False using r by (simp add: select_overlay_ip_def)
  qed
  from r obtain n where n: "first_free ?used 2 (2 ^ ?h - 2) = Some n" "inet_add (IPv4 base) n = Some r"
    using select_v4 [OF c(3) h h31, of d] by (auto split: option.splits)
  from first_free_Some [OF n(1)] have f: "2 \<le> n" "n \<le> 2 ^ ?h - 2" "\<not> ?used n"
    "\<And>k. 2 \<le> k \<Longrightarrow> k < n \<Longrightarrow> ?used k" by auto
  have lt: "k < 2 ^ ?h" if "k \<le> n" for k
    using pow2_sub2 [OF f(2)] that by simp
  have add: "inet_add (IPv4 base) k = Some (IPv4 (base + of_nat k))" if "k \<le> n" for k
    using inet_add_v4 [OF c(3) _ lt [OF that]] by simp
  have rx: "r = IPv4 (base + of_nat n)" using n(2) add [of n] by simp
  show ?thesis
  proof (rule that [of n])
    show "x = IPv4 (base + of_nat n)" using x rx by (simp add: ParseIP_v4 del: addr_string.simps)
    then show "\<not> holds d x" using f(3) add [of n] by auto
    show "unat (base + of_nat n) = unat base + n"
      using mask_bits_add(1) [OF _ lt [OF le_refl], of w] c(3) by simp
    show "holds d (IPv4 (base + of_nat k))" if "2 \<le> k" "k < n" for k
      using f(4) [OF that] add [of k] that(2) by auto
  qed (use f in auto)
qed

lemma ParseCIDR_v4:
  assumes "ParseCIDR s = Some (IPv4 w, nt)"
  shows "net_ip nt = IPv4 (mask_bits (32 - ones nt) w)" "bits nt = 32" "ones nt \<le> 32"
  using assms by (auto simp: ParseCIDR_def Let_def split: option.splits prod.splits if_splits)

lemma overlay_New_v4:
  assumes "ParseCIDR s = Some (IPv4 w, nt)" "overlay_New True s = Inr a"
  shows "net_ip (al_cidr a) = IPv4 (mask_bits (32 - ones nt) w)" "bits (al_cidr a) = 32"
    "ones (al_cidr a) = ones nt"
  using assms ParseCIDR_v4 [OF assms(1)] by (auto simp: overlay_New_def)

lemma AllocateTx_v4:
  assumes "ParseCIDR s = Some (IPv4 w, nt)" "overlay_New True s = Inr a"
    and "AllocateTx E i (Some a) dev d = (Inr x, d')"
  obtains n base where "net_ip nt = IPv4 base" "base = mask_bits (32 - ones nt) w"
    "2 \<le> n" "n \<le> 2 ^ (32 - ones nt) - 2" "x = IPv4 (base + of_nat n)"
    "unat (base + of_nat n) = unat base + n" "\<not> holds d x"
    "\<And>k. 2 \<le> k \<Longrightarrow> k < n \<Longrightarrow> holds d (IPv4 (base + of_nat k))"
proof -
  note N = overlay_New_v4 [OF assms(1,2)]
  have A: "allocateOn E i (al_cidr a) dev d = (Inr x, d')" using assms(3) by (simp add: AllocateTx_def)
  show ?thesis
    by (rule allocateOn_v4 [OF N(1,2) _ A, of w])
      (use that ParseCIDR_v4 [OF assms(1)] N(3) in auto)
qed

definition sample_db :: db where
  "sample_db = empty_db\<lparr>users := [mk_user ''u1''],
     devices := [(mk_device ''d1'' ''u1'' ''linux'')\<lparr>d_overlay_ip := Some (IPv4 0x0A000002)\<rparr>,
                 mk_device ''d2'' ''u1'' ''ios'']\<rparr>"

definition sample_pool :: Allocator where
  "sample_pool = \<lparr>al_pool = True, al_cidr = \<lparr>net_ip = IPv4 0x0A000000, ones = 24, bits = 32\<rparr>\<rparr>"

lemma sample_cidr:
  "ParseCIDR ''10.0.0.0/24'' = Some (IPv4 0x0A000000, \<lparr>net_ip = IPv4 0x0A000000, ones = 24, bits = 32\<rparr>)"
  by code_simp

lemma sample_new: "overlay_New True ''10.0.0.0/24'' = Inr sample_pool"
  by code_simp

lemma sample_db_ok: "db_ok sample_db"
  by code_simp

lemma sample_alloc:
  "fst (AllocateTx (calm 7 []) 0 (Some sample_pool) ''d2'' sample_db) = Inr (IPv4 0x0A000003)"
  by code_simp

text \<open>
  C23. An allocation for an IPv4 overlay picks an address inside the network, neither its first two
  nor its last, that no device held; it is the lowest such address, and the database with the new
  assignment satisfies every constraint (no two devices share an address).
\<close>

theorem allocate_lowest_free:
  assumes "ParseCIDR s = Some (IPv4 w, nt)" "overlay_New True s = Inr a"
    and "AllocateTx E i (Some a) dev d = (Inr x, d')"
  shows "\<exists>n base. net_ip nt = IPv4 base \<and> 2 \<le> n \<and> n \<le> 2 ^ (32 - ones nt) - 2 \<and>
    x = IPv4 (base + of_nat n) \<and> unat (base + of_nat n) = unat base + n \<and>
    IPNet_Contains nt x \<and> \<not> holds d x \<and>
    (\<forall>k. 2 \<le> k \<and> k < n \<longrightarrow> holds d (IPv4 (base + of_nat k))) \<and> db_ok d'"
proof (rule AllocateTx_v4 [OF assms])
  fix n base
  assume b: "net_ip nt = IPv4 base" "base = mask_bits (32 - ones nt) w"
    and n: "2 \<le> n" "n \<le> 2 ^ (32 - ones nt) - 2" "x = IPv4 (base + of_nat n)"
      "unat (base + of_nat n) = unat base + n" "\<not> holds d x"
      "\<And>k. 2 \<le> k \<Longrightarrow> k < n \<Longrightarrow> holds d (IPv4 (base + of_nat k))"
  have "mask_bits (32 - ones nt) base = base"
    using mask_bits_add(2) [of "32 - ones nt" 0 w] b(2) by simp
  then have "IPNet_Contains nt x"
    using mask_bits_add(2) [of "32 - ones nt" n w] pow2_sub2 [OF n(2)] b n(3) by simp
  then show ?thesis using n b pool.alloc_done [OF assms(3)] by blast
qed

theorem allocate_lowest_free_witness:
  "fst (AllocateTx (calm 7 []) 0 (Some sample_pool) ''d2'' sample_db) = Inr (IPv4 0x0A000003) \<and>
   (\<exists>n base. 2 \<le> n \<and> (IPv4 0x0A000003 :: addr) = IPv4 (base + of_nat n) \<and>
     IPNet_Contains (al_cidr sample_pool) (IPv4 0x0A000003) \<and> \<not> holds sample_db (IPv4 0x0A000003))"
proof -
  obtain d' where "AllocateTx (calm 7 []) 0 (Some sample_pool) ''d2'' sample_db = (Inr (IPv4 0x0A000003), d')"
    using sample_alloc by (metis prod.collapse)
  from allocate_lowest_free [OF sample_cidr sample_new this] sample_alloc show ?thesis
    by (auto simp: sample_pool_def)
qed

text \<open>
  The allocator never runs out while an address is left: if the device exists, the two
  statements do not fail and some offset between 2 and \<open>2^h - 2\<close> is free, the allocation succeeds
  (the assignment it makes cannot violate a constraint).
\<close>

theorem allocate_succeeds:
  assumes "ParseCIDR s = Some (IPv4 w, nt)" "overlay_New True s = Inr a" "ones nt \<in> {1..30}"
    and "db_ok d" "uuid_in E dev = Some u" "\<not> fails E i" "\<not> fails E (i + 1)"
    and "net_ip nt = IPv4 base" "2 \<le> m" "m \<le> 2 ^ (32 - ones nt) - 2"
    and "\<not> holds d (IPv4 (base + of_nat m))"
  shows "\<exists>x d'. AllocateTx E i (Some a) dev d = (Inr x, d')"
proof -
  let ?h = "32 - ones nt"
  note N = overlay_New_v4 [OF assms(1,2)] and P = ParseCIDR_v4 [OF assms(1)]
  have base: "base = mask_bits ?h w" using P(1) assms(8) by simp
  have h: "2 \<le> ?h" "?h \<le> 31" using assms(3) by auto
  have lt: "k < 2 ^ ?h" if "k \<le> 2 ^ ?h - 2" for k :: nat using that by (rule pow2_sub2)
  have add: "inet_add (IPv4 base) k = Some (IPv4 (base + of_nat k))" if "k \<le> 2 ^ ?h - 2" for k
    using inet_add_v4 [OF base _ lt [OF that]] by simp
  let ?used = "\<lambda>n. \<exists>r \<in> set (devices d). d_overlay_ip r \<noteq> None \<and> d_overlay_ip r = inet_add (IPv4 base) n"
  have "\<not> ?used m" using assms(11) add [OF assms(10)] by (simp del: inet_add.simps)
  from first_free_ex [of 2 m _ ?used, OF assms(9,10) this] obtain k
    where k: "first_free ?used 2 (2 ^ ?h - 2) = Some k" ..
  note f = first_free_Some [OF k]
  let ?x = "IPv4 (base + of_nat k)"
  have kx: "inet_add (IPv4 base) k = Some ?x" using add f by blast
  have sel: "select_overlay_ip d (IPv4 base) 2 (2 ^ ?h - 2) = Some ?x"
    using select_v4 [OF base h, of d] k kx by (simp del: inet_add.simps)
  have free: "\<not> holds d ?x" using f kx by auto
  let ?f = "\<lambda>r. r\<lparr>d_overlay_ip := Some ?x, d_overlay_ip_allocated_at := Some (clock E)\<rparr>"
  let ?ds = "sql_update (\<lambda>r. d_id r = u) ?f (devices d)"
  have dok: "devices_ok (users d) (devices d)" using assms(4) by (simp add: db_ok_def)
  have "unique_on d_overlay_ip ?ds"
    using dok free by (intro unique_on_update_one [where q = d_id]) (auto simp: devices_ok_def pk_def)
  moreover have "device_ok (?f r)" if "r \<in> set (devices d)" for r
    using dok that by (auto simp: devices_ok_def list_all_iff device_ok_def)
  ultimately have "devices_ok (users d) ?ds" using dok by (intro devices_ok_update) auto
  then have "db_ok (d\<lparr>devices := ?ds\<rparr>)"
    by (intro db_ok_devices [OF assms(4)]) (auto simp: map_sql_update)
  then have "allocateOn E i (al_cidr a) dev d = (Inr ?x, d\<lparr>devices := ?ds\<rparr>)"
    using sel assms(5-7) h N base
    by (simp add: allocateOn_def deviceHostOffsetRange_v4 ParseIP_v4 assign_overlay_ip_def
        statement_def del: addr_string.simps)
  then show ?thesis by (simp add: AllocateTx_def)
qed

theorem allocate_succeeds_witness:
  "\<exists>x d'. AllocateTx (calm 7 []) 0 (Some sample_pool) ''d2'' sample_db = (Inr x, d')"
proof -
  have "\<not> holds sample_db (IPv4 (0x0A000000 + of_nat 9))"
    by (simp add: sample_db_def empty_db_def mk_device_def)
  then show ?thesis
    using allocate_succeeds [OF sample_cidr sample_new _ sample_db_ok, of "calm 7 []" "''d2''" "''d2''" 0 _ 9]
    by simp
qed

text \<open>
  The server's own address is never handed to a device when the configured CIDR has no host
  bits: it is the first host address, below every offset the allocator uses.
\<close>

theorem server_address_reserved:
  assumes "serverAddress s = Inr (srv, nt)" "ParseCIDR s = Some (net_ip nt, nt)"
    and "overlay_New True s = Inr a" "AllocateTx E i (Some a) dev d = (Inr x, d')"
  shows "IPNet_Contains nt srv \<and> x \<noteq> srv"
proof -
  obtain base where b: "net_ip nt = IPv4 base" "srv = IPv4 (base + 1)" "IPNet_Contains nt srv"
    using assms(1,2)
    by (cases "net_ip nt")
      (auto simp: serverAddress_def Let_def split: addr.splits if_splits)
  have P: "ParseCIDR s = Some (IPv4 base, nt)" using assms(2) b(1) by simp
  obtain n where n: "2 \<le> n" "x = IPv4 (base + of_nat n)" "unat (base + of_nat n) = unat base + n"
    by (rule AllocateTx_v4 [OF P assms(3,4)]) (use b(1) in auto)
  have "x \<noteq> srv"
  proof
    assume "x = srv"
    then have e: "base + of_nat n = base + 1" using n(2) b(2) by simp
    have "unat (base + 1) \<le> unat base + 1" by (simp add: unat_word_ariths)
    then show False using n(1,3) e by simp
  qed
  with b(3) show ?thesis by simp
qed

theorem server_address_reserved_witness:
  "serverAddress ''10.0.0.0/24'' = Inr (IPv4 0x0A000001, al_cidr sample_pool) \<and>
   (IPv4 0x0A000003 :: addr) \<noteq> IPv4 0x0A000001"
proof -
  have srv: "serverAddress ''10.0.0.0/24'' = Inr (IPv4 0x0A000001, al_cidr sample_pool)" by code_simp
  have c: "ParseCIDR ''10.0.0.0/24'' = Some (net_ip (al_cidr sample_pool), al_cidr sample_pool)"
    using sample_cidr by (simp add: sample_pool_def)
  obtain d' where "AllocateTx (calm 7 []) 0 (Some sample_pool) ''d2'' sample_db = (Inr (IPv4 0x0A000003), d')"
    using sample_alloc by (metis prod.collapse)
  from server_address_reserved [OF srv c sample_new this] srv show ?thesis by simp
qed

text \<open>
  When the configured CIDR does have host bits, the server does not use the first host address
  of the subnet, as \<open>ServerOverlayIP\<close> is documented to, but the address after the one written; the
  allocator, which masks the network first, hands that address to a device. Here \<open>10.0.0.1/24\<close>
  makes the server \<open>10.0.0.2\<close>, which is also the first address a device gets.
\<close>

theorem server_address_host_bits:
  "ServerOverlayIP ''10.0.0.1/24'' = Inr ''10.0.0.2'' \<and>
   (case overlay_New True ''10.0.0.1/24'' of Inl e \<Rightarrow> False
    | Inr a \<Rightarrow> map_sum id addr_string (fst (AllocateTx (calm 7 []) 0 (Some a) ''d2''
        (sample_db\<lparr>devices := [mk_device ''d2'' ''u1'' ''ios'']\<rparr>))) = Inr ''10.0.0.2'')"
  by code_simp

end
