(* ===== verification/Auditing.thy ===== *)
theory Auditing
  imports Schema
begin

text \<open>
  Package \<open>internal/audit\<close>: which address a request comes from (\<open>ClientIP\<close>), the rate-limit bucket
  of an address, the bounds on what an audit row stores, and writing the row.
\<close>

section \<open>Requests\<close>

text \<open>
  What the handlers read of an HTTP request: the peer address, all values of \<open>X-Forwarded-For\<close>,
  the \<open>User-Agent\<close> and the \<open>Authorization\<close> header.
\<close>

record http_req =
  RemoteAddr :: string
  forwarded :: "string list"
  UserAgent :: string
  authorization :: string

section \<open>Client addresses\<close>

definition v4Broadcast :: addr where "v4Broadcast = IPv4 0xFFFFFFFF"

definition ipv6SiteLocal :: prefix where
  "ipv6SiteLocal = \<lparr>p_addr = IPv6 0xFEC00000000000000000000000000000 [], p_bits = 10\<rparr>"

definition ipInPrefixes :: "addr \<Rightarrow> prefix list \<Rightarrow> bool" where
  "ipInPrefixes ip ps = (let ip' = Unmap ip in list_ex (\<lambda>p. Prefix_Contains p ip') ps)"

definition peerIP :: "string \<Rightarrow> addr option" where
  "peerIP remoteAddr =
     (let host = (case SplitHostPort remoteAddr of None \<Rightarrow> remoteAddr | Some (h, p) \<Rightarrow> h) in
      case ParseAddr host of None \<Rightarrow> None
      | Some a \<Rightarrow> let a' = (if addr_zone a \<noteq> [] then without_zone a else a) in Some (Unmap a'))"

definition bogus :: "addr \<Rightarrow> bool" where
  "bogus a \<longleftrightarrow> IsUnspecified a \<or> IsMulticast a \<or> IsLinkLocalUnicast a \<or> a = v4Broadcast \<or>
     Prefix_Contains ipv6SiteLocal a"

text \<open>The loop of \<open>ClientIP\<close> over the parts, the last one first.\<close>

fun xff_walk :: "prefix list \<Rightarrow> string \<Rightarrow> string list \<Rightarrow> string" where
  "xff_walk trusted peer [] = peer"
| "xff_walk trusted peer (part # rest) =
     (let entry = TrimSpace part in
      if entry = [] then xff_walk trusted peer rest
      else (case ParseAddr entry of None \<Rightarrow> peer
            | Some a0 \<Rightarrow>
                let a1 = (if addr_zone a0 \<noteq> [] then without_zone a0 else a0); a = Unmap a1 in
                if bogus a then xff_walk trusted peer rest
                else if ipInPrefixes a trusted then xff_walk trusted peer rest
                else addr_string (Unmap a)))"

definition ClientIP :: "http_req \<Rightarrow> prefix list \<Rightarrow> string" where
  "ClientIP r trusted =
     (case peerIP (RemoteAddr r) of None \<Rightarrow> []
      | Some peer \<Rightarrow>
          if \<not> ipInPrefixes peer trusted then addr_string (Unmap peer)
          else if forwarded r = [] then addr_string (Unmap peer)
          else xff_walk trusted (addr_string (Unmap peer)) (rev (Split (Join (forwarded r) '','') (CHR '',''))))"

definition RateLimitIP :: "string \<Rightarrow> string" where
  "RateLimitIP ip =
     (if ip = [] then []
      else (case ParseAddr ip of None \<Rightarrow> []
            | Some a0 \<Rightarrow>
                let a = Unmap a0 in
                if Is4 a then addr_string a else prefix_string (Masked a 64) 64))"

definition MaxUserAgentBytes :: nat where "MaxUserAgentBytes = 512"

definition TruncateUserAgent :: "string \<Rightarrow> string" where
  "TruncateUserAgent ua =
     (if length ua \<le> MaxUserAgentBytes then ua else ToValidUTF8 (take MaxUserAgentBytes ua))"

section \<open>Writing an event\<close>

record Event =
  ActorUserID :: "string option"
  ActorDeviceID :: "string option"
  Action :: string
  Outcome :: string
  TargetTable :: string
  TargetID :: "string option"
  RemoteIP :: string
  EventAgent :: string
  Metadata :: "(string \<times> string) list"

definition nullIfEmpty :: "string \<Rightarrow> string option" where
  "nullIfEmpty s = (if s = [] then None else Some s)"

text \<open>An optional value with a conversion that may fail.\<close>

definition conv_opt :: "('a \<Rightarrow> 'b option) \<Rightarrow> 'a option \<Rightarrow> 'b option option" where
  "conv_opt f x = (case x of None \<Rightarrow> Some None | Some a \<Rightarrow> map_option Some (f a))"

text \<open>The conversion of the text of one address to \<open>inet\<close>, which knows no zones.\<close>

definition inet_in :: "string \<Rightarrow> addr option" where
  "inet_in s = Option.bind (ParseAddr s) (\<lambda>a. if addr_zone a = [] then Some a else None)"

text \<open>\<open>Log\<close>: \<^const>\<open>False\<close> is the error every caller only logs.\<close>

definition audit_Log :: "env \<Rightarrow> nat \<Rightarrow> Event \<Rightarrow> db \<Rightarrow> bool \<times> db" where
  "audit_Log E i evt d =
     (case (conv_opt (uuid_in E) (ActorUserID evt), conv_opt (uuid_in E) (ActorDeviceID evt),
            conv_opt (uuid_in E) (TargetID evt), conv_opt inet_in (nullIfEmpty (RemoteIP evt))) of
        (Some au, Some ad, Some ti, Some ip) \<Rightarrow>
          (case statement (fails E i) (d\<lparr>audit_events := audit_events d @
             [\<lparr>ae_actor_user = au, ae_actor_device = ad, ae_action = Action evt,
               ae_outcome = Outcome evt, ae_target_table = TargetTable evt, ae_target_id = ti,
               ae_remote_ip = ip, ae_user_agent = EventAgent evt, ae_metadata = Metadata evt,
               ae_occurred_at = clock E\<rparr>]\<rparr>) of
             None \<Rightarrow> (False, d) | Some d' \<Rightarrow> (True, d'))
      | _ \<Rightarrow> (False, d))"

lemma audit_Log_frame:
  "audit_events_ok (users d) (devices d) (audit_events d) \<Longrightarrow>
   (snd (audit_Log E i evt d))\<lparr>audit_events := []\<rparr> = d\<lparr>audit_events := []\<rparr>"
  by (auto simp: audit_Log_def split: option.splits)

lemma audit_Log_ok [inv_pres]: "db_ok d \<Longrightarrow> db_ok (snd (audit_Log E i evt d))"
  by (auto simp: audit_Log_def split: option.splits)

lemma audit_Log_same [simp]:
  "users (snd (audit_Log E i evt d)) = users d" "devices (snd (audit_Log E i evt d)) = devices d"
  "device_keys (snd (audit_Log E i evt d)) = device_keys d"
  "pair_codes (snd (audit_Log E i evt d)) = pair_codes d"
  "services (snd (audit_Log E i evt d)) = services d"
  "connect_sessions (snd (audit_Log E i evt d)) = connect_sessions d"
  "uoa_sessions (snd (audit_Log E i evt d)) = uoa_sessions d"
  "handoff_codes (snd (audit_Log E i evt d)) = handoff_codes d"
  "home_grants (snd (audit_Log E i evt d)) = home_grants d"
  by (auto simp: audit_Log_def split: option.splits)

section \<open>The address cannot be forged\<close>

text \<open>
  C35. A client that does not connect through a trusted proxy cannot choose its address: whatever
  \<open>X-Forwarded-For\<close> it sends, \<open>ClientIP\<close> is the address of the connection.
\<close>

theorem ClientIP_untrusted_peer:
  assumes "peerIP (RemoteAddr r) = Some peer" "\<not> ipInPrefixes peer trusted"
  shows "ClientIP (r\<lparr>forwarded := xs\<rparr>) trusted = addr_string peer"
proof -
  have "Unmap peer = peer" using assms(1) by (auto simp: peerIP_def Let_def split: option.splits)
  then show ?thesis using assms by (simp add: ClientIP_def)
qed

theorem ClientIP_untrusted_peer_witness:
  "ClientIP (\<lparr>RemoteAddr = ''203.0.113.9:4711'', forwarded = [], UserAgent = [], authorization = []\<rparr>
     \<lparr>forwarded := [''10.0.0.1'']\<rparr>) [\<lparr>p_addr = IPv4 0x0A000000, p_bits = 8\<rparr>] = ''203.0.113.9''"
proof -
  have "peerIP ''203.0.113.9:4711'' = Some (IPv4 0xCB007109)"
    and "\<not> ipInPrefixes (IPv4 0xCB007109) [\<lparr>p_addr = IPv4 0x0A000000, p_bits = 8\<rparr>]"
    and "addr_string (IPv4 0xCB007109) = ''203.0.113.9''" by code_simp+
  then show ?thesis
    using ClientIP_untrusted_peer
      [of "\<lparr>RemoteAddr = ''203.0.113.9:4711'', forwarded = [], UserAgent = [], authorization = []\<rparr>"
          "IPv4 0xCB007109" "[\<lparr>p_addr = IPv4 0x0A000000, p_bits = 8\<rparr>]" "[''10.0.0.1'']"] by simp
qed

lemma xff_walk_skip:
  assumes "TrimSpace e = [] \<or> (\<exists>a. ParseAddr (TrimSpace e) = Some a \<and>
      (bogus (Unmap (without_zone a)) \<or> ipInPrefixes (Unmap (without_zone a)) trusted))"
  shows "xff_walk trusted peer (e # rest) = xff_walk trusted peer rest"
proof -
  have z: "(if addr_zone a \<noteq> [] then without_zone a else a) = without_zone a" for a
    by (cases a) auto
  show ?thesis using assms by (auto simp: Let_def z)
qed

lemma xff_walk_stop:
  assumes "TrimSpace e \<noteq> []" "ParseAddr (TrimSpace e) = Some a0" "a = Unmap (without_zone a0)"
    and "\<not> bogus a" "\<not> ipInPrefixes a trusted"
  shows "xff_walk trusted peer (e # rest) = addr_string a"
proof -
  have z: "(if addr_zone b \<noteq> [] then without_zone b else b) = without_zone b" for b
    by (cases b) auto
  show ?thesis using assms by (simp add: Let_def z)
qed

text \<open>
  Behind a trusted proxy, what the client itself put into \<open>X-Forwarded-For\<close> does not matter:
  if the last entry, the one the proxy appended, is a proper address outside the trusted prefixes,
  then \<open>ClientIP\<close> is that address for every header \<open>pre\<close> in front of it.
\<close>

theorem ClientIP_last_hop:
  assumes "peerIP (RemoteAddr r) = Some peer" "ipInPrefixes peer trusted"
    and "CHR '','' \<notin> set e" "TrimSpace e \<noteq> []" "ParseAddr (TrimSpace e) = Some a0"
    and "a = Unmap (without_zone a0)" "\<not> bogus a" "\<not> ipInPrefixes a trusted"
  shows "ClientIP (r\<lparr>forwarded := pre @ [e]\<rparr>) trusted = addr_string a"
proof -
  obtain ps where "Split (Join (pre @ [e]) '','') (CHR '','') = ps @ [e]"
    by (cases "pre = []") (use assms(3) in \<open>auto simp: Join_snoc Split_append_any Split_plain\<close>)
  then show ?thesis
    using assms(1,2) xff_walk_stop [OF assms(4-8), of "addr_string (Unmap peer)" "rev ps"]
    by (simp add: ClientIP_def)
qed

theorem ClientIP_last_hop_witness:
  "ClientIP (\<lparr>RemoteAddr = ''10.0.0.1:99'', forwarded = [], UserAgent = [], authorization = []\<rparr>
     \<lparr>forwarded := [''1.1.1.1, nonsense''] @ ['' 203.0.113.9'']\<rparr>)
     [\<lparr>p_addr = IPv4 0x0A000000, p_bits = 8\<rparr>] = ''203.0.113.9''"
proof -
  have "peerIP ''10.0.0.1:99'' = Some (IPv4 0x0A000001)"
    "ipInPrefixes (IPv4 0x0A000001) [\<lparr>p_addr = IPv4 0x0A000000, p_bits = 8\<rparr>]"
    "TrimSpace '' 203.0.113.9'' = ''203.0.113.9''"
    "ParseAddr ''203.0.113.9'' = Some (IPv4 0xCB007109)" "\<not> bogus (IPv4 0xCB007109)"
    "\<not> ipInPrefixes (IPv4 0xCB007109) [\<lparr>p_addr = IPv4 0x0A000000, p_bits = 8\<rparr>]"
    "addr_string (IPv4 0xCB007109) = ''203.0.113.9''" by code_simp+
  then show ?thesis
    using ClientIP_last_hop
      [of "\<lparr>RemoteAddr = ''10.0.0.1:99'', forwarded = [], UserAgent = [], authorization = []\<rparr>"
          "IPv4 0x0A000001" "[\<lparr>p_addr = IPv4 0x0A000000, p_bits = 8\<rparr>]" "'' 203.0.113.9''"
          "IPv4 0xCB007109" "IPv4 0xCB007109" "[''1.1.1.1, nonsense'']"] by simp
qed

lemma xff_walk_result:
  "xff_walk trusted peer parts = peer \<or>
   (\<exists>part \<in> set parts. \<exists>a0 a. ParseAddr (TrimSpace part) = Some a0 \<and> a = Unmap (without_zone a0) \<and>
      xff_walk trusted peer parts = addr_string a \<and> \<not> bogus a \<and> \<not> ipInPrefixes a trusted)"
proof (induction parts)
  case (Cons e parts)
  have z: "(if addr_zone b \<noteq> [] then without_zone b else b) = without_zone b" for b
    by (cases b) auto
  show ?case
  proof (cases "ParseAddr (TrimSpace e)")
    case None
    then show ?thesis using Cons.IH by (auto simp: Let_def)
  next
    case (Some a0)
    let ?a = "Unmap (without_zone a0)"
    show ?thesis
    proof (cases "TrimSpace e = [] \<or> bogus ?a \<or> ipInPrefixes ?a trusted")
      case True
      then have "xff_walk trusted peer (e # parts) = xff_walk trusted peer parts"
        using Some by (intro xff_walk_skip) auto
      then show ?thesis using Cons.IH by auto
    next
      case False
      then show ?thesis using Some xff_walk_stop [of e a0 ?a trusted peer parts] by auto
    qed
  qed
qed simp


section \<open>Rate-limit buckets and bounded rows\<close>

lemma RateLimitIP_v4: "ParseAddr s = Some a \<Longrightarrow> Unmap a = IPv4 w \<Longrightarrow> s \<noteq> [] \<Longrightarrow> RateLimitIP s = v4_string w"
  by (simp add: RateLimitIP_def)

lemma ParseAddr_Nil [simp]: "ParseAddr [] = None"
  by (simp add: ParseAddr_def)

text \<open>
  Per-address limits are precise for IPv4 and per \<open>/64\<close> for IPv6: two texts of IPv4 addresses
  (plain or mapped) share a bucket only if they are the same address, and all addresses of one
  IPv6 \<open>/64\<close> share one, so that rotating through a \<open>/64\<close> does not help.
\<close>

theorem RateLimitIP_buckets:
  "(ParseAddr s = Some a \<and> ParseAddr s' = Some a' \<and> Unmap a = IPv4 w \<and> Unmap a' = IPv4 w' \<longrightarrow>
      (RateLimitIP s = RateLimitIP s' \<longleftrightarrow> w = w')) \<and>
   (ParseAddr s = Some a \<and> ParseAddr s' = Some a' \<and> Unmap a = IPv6 v z \<and> Unmap a' = IPv6 v' z' \<and>
      drop_bit 64 v = drop_bit 64 v' \<longrightarrow> RateLimitIP s = RateLimitIP s')"
proof -
  have "s \<noteq> [] \<and> s' \<noteq> []" if "ParseAddr s = Some a" "ParseAddr s' = Some a'"
    using that by auto
  then show ?thesis by (auto simp: RateLimitIP_def Let_def mask_bits_def)
qed

theorem RateLimitIP_buckets_witness:
  "RateLimitIP ''2001:db8::1'' = RateLimitIP ''2001:db8::ffff:2'' \<and>
   RateLimitIP ''10.0.0.1'' \<noteq> RateLimitIP ''::ffff:10.0.0.2''"
proof -
  have "ParseAddr ''2001:db8::1'' = Some (IPv6 0x20010db8000000000000000000000001 [])"
    "ParseAddr ''2001:db8::ffff:2'' = Some (IPv6 0x20010db80000000000000000ffff0002 [])"
    "Unmap (IPv6 0x20010db8000000000000000000000001 []) = IPv6 0x20010db8000000000000000000000001 []"
    "Unmap (IPv6 0x20010db80000000000000000ffff0002 []) = IPv6 0x20010db80000000000000000ffff0002 []"
    "(drop_bit 64 0x20010db8000000000000000000000001 :: 128 word) = drop_bit 64 0x20010db80000000000000000ffff0002"
    "ParseAddr ''10.0.0.1'' = Some (IPv4 0x0A000001)"
    "ParseAddr ''::ffff:10.0.0.2'' = Some (IPv6 0xFFFF0A000002 [])"
    "Unmap (IPv6 0xFFFF0A000002 []) = IPv4 0x0A000002" by code_simp+
  then show ?thesis
    using RateLimitIP_buckets [of "''2001:db8::1''" "IPv6 0x20010db8000000000000000000000001 []"
        "''2001:db8::ffff:2''" "IPv6 0x20010db80000000000000000ffff0002 []" _ _
        "0x20010db8000000000000000000000001" "[]" "0x20010db80000000000000000ffff0002" "[]"]
      RateLimitIP_buckets [of "''10.0.0.1''" "IPv4 0x0A000001" "''::ffff:10.0.0.2''"
        "IPv6 0xFFFF0A000002 []" "0x0A000001" "0x0A000002"] by simp
qed

text \<open>
  What an audit row stores of the \<open>User-Agent\<close> is bounded: at most \<open>MaxUserAgentBytes\<close> bytes,
  and if the header is well-formed UTF-8, then the stored text is well-formed too, a prefix of the
  header, cut at most three bytes early.
\<close>

theorem TruncateUserAgent_bounded:
  "length (TruncateUserAgent ua) \<le> MaxUserAgentBytes \<and>
   (valid_utf8 (str_bytes ua) \<longrightarrow>
      valid_utf8 (str_bytes (TruncateUserAgent ua)) \<and> prefix (TruncateUserAgent ua) ua \<and>
      min MaxUserAgentBytes (length ua) \<le> length (TruncateUserAgent ua) + 3)"
proof (cases "length ua \<le> MaxUserAgentBytes")
  case True
  then show ?thesis by (simp add: TruncateUserAgent_def)
next
  case False
  let ?c = "take MaxUserAgentBytes ua"
  let ?v = "to_valid (str_bytes ?c)"
  have len: "length ?v \<le> MaxUserAgentBytes"
    using to_valid_length [of "str_bytes ?c"] False by (simp add: str_bytes_def)
  show ?thesis
  proof (cases "valid_utf8 (str_bytes ua)")
    case True
    have "str_bytes ua = str_bytes ?c @ str_bytes (drop MaxUserAgentBytes ua)"
      unfolding str_bytes_def map_append [symmetric] by simp
    with True have cut: "prefix ?v (str_bytes ?c)" "length (str_bytes ?c) \<le> length ?v + 3"
      using to_valid_cut [of "str_bytes ?c"] by auto
    then have v: "str_bytes (take (length ?v) ?c) = ?v"
      by (metis append_eq_conv_conj prefix_def str_bytes_def take_map)
    then have "map char_of ?v = take (length ?v) ?c"
      by (metis (no_types, lifting) char_of_char map_idI map_map o_apply str_bytes_def)
    then have t: "TruncateUserAgent ua = take (length ?v) ?c"
      using False by (simp add: TruncateUserAgent_def ToValidUTF8_def)
    then have "prefix (TruncateUserAgent ua) ua" "length (TruncateUserAgent ua) = length ?v"
      using len False by (simp_all add: take_is_prefix)
    moreover have "valid_utf8 (str_bytes (TruncateUserAgent ua))"
      using valid_to_valid [of "str_bytes ?c"] v t by simp
    moreover have "length (str_bytes ?c) = min MaxUserAgentBytes (length ua)"
      by (simp add: str_bytes_def min.commute)
    ultimately show ?thesis using len cut(2) by simp
  next
    case invalid: False
    then show ?thesis using False len by (simp add: TruncateUserAgent_def ToValidUTF8_def)
  qed
qed

theorem TruncateUserAgent_bounded_witness:
  "valid_utf8 (str_bytes ''agent'') \<and> prefix (TruncateUserAgent ''agent'') ''agent''"
proof -
  have "valid_utf8 (str_bytes ''agent'')" by code_simp
  then show ?thesis using TruncateUserAgent_bounded [of "''agent''"] by simp
qed

end
