(* ===== verification/Config.thy ===== *)
theory Config
  imports Auditing
begin

text \<open>
  Package \<open>internal/config\<close>: the configuration, read from environment variables (\<open>os.Getenv\<close> is the
  argument \<open>V\<close>), the trust floor for proxy prefixes and the checks before the server boots.
\<close>

section \<open>Trusted proxies\<close>

text \<open>The warnings, by the branch that writes them.\<close>

datatype config_warning =
    InvalidEntry string
  | MappedTooShort string
  | MappedTooWide string int
  | MappedNormalized string
  | V4TooWide string nat
  | V6TooWide string nat
  | LoopbackV6Missing

definition minTrustedV4Bits :: int where "minTrustedV4Bits = 8"
definition minTrustedV6Bits :: int where "minTrustedV6Bits = 16"

definition normalizeTrustedPrefix :: "string \<Rightarrow> prefix option \<times> config_warning option" where
  "normalizeTrustedPrefix entry =
     (case ParsePrefix entry of None \<Rightarrow> (None, Some (InvalidEntry entry))
      | Some p \<Rightarrow>
          if Is4In6 (p_addr p) then
            let b = int (p_bits p) - 96 in
            if b < 0 then (None, Some (MappedTooShort entry))
            else if b < minTrustedV4Bits then (None, Some (MappedTooWide entry b))
            else (Some \<lparr>p_addr = Unmap (p_addr p), p_bits = nat b\<rparr>, Some (MappedNormalized entry))
          else if Is4 (p_addr p) then
            if int (p_bits p) < minTrustedV4Bits then (None, Some (V4TooWide entry (p_bits p)))
            else (Some p, None)
          else
            if int (p_bits p) < minTrustedV6Bits then (None, Some (V6TooWide entry (p_bits p)))
            else (Some p, None))"

definition dualStackLoopbackWarning :: "prefix list \<Rightarrow> config_warning option" where
  "dualStackLoopbackWarning ps =
     (if list_ex (\<lambda>p. Prefix_Contains p (IPv4 0x7F000001)) ps \<and>
         \<not> list_ex (\<lambda>p. Prefix_Contains p (IPv6 1 [])) ps
      then Some LoopbackV6Missing else None)"

fun parse_trusted_loop :: "string list \<Rightarrow> prefix list \<times> config_warning list" where
  "parse_trusted_loop [] = ([], [])"
| "parse_trusted_loop (part # parts) =
     (let entry = TrimSpace part; (ps, ws) = parse_trusted_loop parts in
      if entry = [] then (ps, ws)
      else let (p, w) = normalizeTrustedPrefix entry in
        ((case p of None \<Rightarrow> ps | Some x \<Rightarrow> x # ps), (case w of None \<Rightarrow> ws | Some x \<Rightarrow> x # ws)))"

definition parseTrustedProxyCIDRs :: "string \<Rightarrow> prefix list \<times> config_warning list" where
  "parseTrustedProxyCIDRs raw =
     (if TrimSpace raw = [] then ([], [])
      else let (ps, ws) = parse_trusted_loop (Split raw (CHR '','')) in
        (ps, ws @ (case dualStackLoopbackWarning ps of None \<Rightarrow> [] | Some w \<Rightarrow> [w])))"

section \<open>Loading\<close>

record Config =
  UOABaseURL :: string
  UOADomain :: string
  UOASharedSecret :: string
  UOAAudience :: string
  UOAConfigURL :: string
  UOARedirectURL :: string
  UOAMobileRedirectURL :: string
  UOAOwnerSub :: string
  UOAConfigSigningKeyPEM :: string
  UOAConfigSigningKID :: string
  UOAContactEmail :: string
  MobileRedirectURL :: string
  DatabaseURL :: string
  RedisURL :: string
  InternalSessionSecret :: string
  InternalServiceKey :: string
  RafikiServiceKey :: string
  RafikiHomeDeviceID :: string
  TurnHost :: string
  TurnPort :: int
  CoturnSecret :: string
  CoturnRealm :: string
  CoturnRedisStatsDB :: string
  CoturnCLIAddr :: string
  CoturnCLIPassword :: string
  WGOverlayCIDR :: string
  WGInterfaceName :: string
  WGPrivateKey :: string
  WGServerPublicKey :: string
  WGServerEndpoint :: string
  WGServerPort :: int
  ServerPort :: int
  LogLevel :: string
  OTELExporterOTLPEndpoint :: string
  OPAEndpoint :: string
  DevMode :: bool
  devModeConfirmed :: bool
  TrustedProxyCIDRs :: "prefix list"
  Warnings :: "config_warning list"

definition getenv :: "(string \<Rightarrow> string) \<Rightarrow> string \<Rightarrow> string \<Rightarrow> string" where
  "getenv V key fallback = (if V key = [] then fallback else V key)"

fun getenvIntMulti :: "(string \<Rightarrow> string) \<Rightarrow> string list \<Rightarrow> int \<Rightarrow> int" where
  "getenvIntMulti V [] fallback = fallback"
| "getenvIntMulti V (key # keys) fallback =
     (if V key \<noteq> [] then (case Atoi (V key) of Some n \<Rightarrow> n | None \<Rightarrow> getenvIntMulti V keys fallback)
      else getenvIntMulti V keys fallback)"

definition getenvInt :: "(string \<Rightarrow> string) \<Rightarrow> string \<Rightarrow> int \<Rightarrow> int" where
  "getenvInt V key fallback =
     (if V key = [] then fallback else case Atoi (V key) of None \<Rightarrow> fallback | Some n \<Rightarrow> n)"

text \<open>\<open>Load\<close>: \<^const>\<open>Inl\<close> is the panic, with the warnings its message carries.\<close>

definition Load :: "(string \<Rightarrow> string) \<Rightarrow> config_warning list + Config" where
  "Load V =
     (let (trusted, ws) = parseTrustedProxyCIDRs (V ''TRUSTED_PROXY_CIDRS'');
          devMode = (V ''DEV_MODE'' = ''true'')
      in if trusted = [] \<and> \<not> devMode then Inl ws
         else Inr \<lparr>
           UOABaseURL = V ''UOA_BASE_URL'', UOADomain = V ''UOA_DOMAIN'',
           UOASharedSecret = V ''UOA_SHARED_SECRET'', UOAAudience = V ''UOA_AUDIENCE'',
           UOAConfigURL = V ''UOA_CONFIG_URL'', UOARedirectURL = V ''UOA_REDIRECT_URL'',
           UOAMobileRedirectURL = V ''UOA_MOBILE_REDIRECT_URL'', UOAOwnerSub = V ''UOA_OWNER_SUB'',
           UOAConfigSigningKeyPEM = V ''UOA_CONFIG_SIGNING_KEY'',
           UOAConfigSigningKID = getenv V ''UOA_CONFIG_SIGNING_KID'' ''selkie-config'',
           UOAContactEmail = V ''UOA_CONTACT_EMAIL'',
           MobileRedirectURL = getenv V ''MOBILE_REDIRECT_URL'' ''selkie://auth'',
           DatabaseURL = V ''DATABASE_URL'', RedisURL = V ''REDIS_URL'',
           InternalSessionSecret = V ''INTERNAL_SESSION_SECRET'',
           InternalServiceKey = V ''SELKIE_INTERNAL_SERVICE_KEY'',
           RafikiServiceKey = V ''SELKIE_RAFIKI_SERVICE_KEY'',
           RafikiHomeDeviceID = V ''SELKIE_RAFIKI_HOME_DEVICE_ID'',
           TurnHost = V ''TURN_HOST'', TurnPort = getenvInt V ''TURN_PORT'' 3478,
           CoturnSecret = V ''COTURN_SECRET'', CoturnRealm = getenv V ''COTURN_REALM'' ''selkie'',
           CoturnRedisStatsDB = V ''COTURN_REDIS_STATSDB'',
           CoturnCLIAddr = getenv V ''COTURN_CLI_ADDR'' ''127.0.0.1:5766'',
           CoturnCLIPassword = V ''COTURN_CLI_PASSWORD'', WGOverlayCIDR = V ''WG_OVERLAY_CIDR'',
           WGInterfaceName = getenv V ''WG_INTERFACE_NAME'' ''wg0'',
           WGPrivateKey = V ''WG_PRIVATE_KEY'', WGServerPublicKey = V ''WG_SERVER_PUBLIC_KEY'',
           WGServerEndpoint = V ''WG_SERVER_ENDPOINT'',
           WGServerPort = getenvInt V ''WG_SERVER_PORT'' 51820,
           ServerPort = getenvIntMulti V [''PORT'', ''SERVER_PORT''] 8080,
           LogLevel = getenv V ''LOG_LEVEL'' ''info'',
           OTELExporterOTLPEndpoint = V ''OTEL_EXPORTER_OTLP_ENDPOINT'',
           OPAEndpoint = V ''OPA_ENDPOINT'', DevMode = devMode,
           devModeConfirmed = (V ''CONFIRM_DEV_MODE'' = ''true''),
           TrustedProxyCIDRs = trusted, Warnings = ws\<rparr>)"

section \<open>Validation\<close>

datatype config_error =
    ErrUnconfirmedDevMode | ErrMissingSessionSecret | ErrWeakSessionSecret
  | ErrMissingRedisURL | ErrMalformedRedisURL | ErrMissingRedisPassword

definition MinSessionSecretLen :: nat where "MinSessionSecretLen = 32"

text \<open>
  \<open>url_password\<close> stands for \<open>url.Parse\<close> with \<open>User.Password\<close>: \<^const>\<open>None\<close> for a malformed URL, else
  the password if there is one. \<open>Validate\<close> returns \<^const>\<open>None\<close> for success.
\<close>

definition validate_redis :: "(string \<Rightarrow> string option option) \<Rightarrow> Config \<Rightarrow> config_error option" where
  "validate_redis url_password c =
     (if RedisURL c = [] then (if DevMode c then None else Some ErrMissingRedisURL)
      else (case url_password (RedisURL c) of None \<Rightarrow> Some ErrMalformedRedisURL
            | Some pw \<Rightarrow>
                if pw = None \<or> pw = Some [] then
                  (if DevMode c then None else Some ErrMissingRedisPassword)
                else None))"

definition Validate :: "(string \<Rightarrow> string option option) \<Rightarrow> Config \<Rightarrow> config_error option" where
  "Validate url_password c =
     (if DevMode c then
        (if \<not> devModeConfirmed c then Some ErrUnconfirmedDevMode else validate_redis url_password c)
      else if InternalSessionSecret c = [] then Some ErrMissingSessionSecret
      else if length (InternalSessionSecret c) < MinSessionSecretLen then Some ErrWeakSessionSecret
      else validate_redis url_password c)"

section \<open>What a configuration that boots guarantees\<close>

definition floor_ok :: "prefix \<Rightarrow> bool" where
  "floor_ok p = (case p_addr p of
     IPv4 w \<Rightarrow> 8 \<le> p_bits p \<and> p_bits p \<le> 32
   | IPv6 w z \<Rightarrow> 16 \<le> p_bits p \<and> p_bits p \<le> 128 \<and> \<not> is_4in6 w \<and> z = [])"

lemma ParsePrefix_Some:
  "ParsePrefix s = Some p \<Longrightarrow> addr_zone (p_addr p) = [] \<and> p_bits p \<le> (if Is4 (p_addr p) then 32 else 128)"
  by (auto simp: ParsePrefix_def split: option.splits prod.splits if_splits)

lemma normalizeTrustedPrefix_floor:
  assumes "normalizeTrustedPrefix e = (Some p, w)"
  shows "floor_ok p"
proof -
  from assms obtain q where q: "ParsePrefix e = Some q"
    by (auto simp: normalizeTrustedPrefix_def split: option.splits)
  from assms q ParsePrefix_Some [OF q] show ?thesis
    by (cases "p_addr q")
      (auto simp: normalizeTrustedPrefix_def floor_ok_def Let_def minTrustedV4Bits_def
        minTrustedV6Bits_def nat_le_iff split: if_splits)
qed

lemma parse_trusted_loop_floor: "p \<in> set (fst (parse_trusted_loop parts)) \<Longrightarrow> floor_ok p"
proof (induction parts)
  case (Cons part parts)
  obtain q w where n: "normalizeTrustedPrefix (TrimSpace part) = (q, w)" by force
  obtain ps ws where l: "parse_trusted_loop parts = (ps, ws)" by force
  show ?case
    using Cons n l normalizeTrustedPrefix_floor [of "TrimSpace part"]
    by (auto simp: Let_def split: if_splits option.splits)
qed simp

text \<open>
  No configuration makes the server trust a range wider than \<open>/8\<close> of IPv4 or \<open>/16\<close> of IPv6:
  whatever \<open>TRUSTED_PROXY_CIDRS\<close> says, every accepted prefix is above the floor of its family, has
  no zone, and is not written in the mapped form that \<open>ClientIP\<close> could never match.
\<close>

theorem trusted_proxy_floor: "list_all floor_ok (fst (parseTrustedProxyCIDRs raw))"
  using parse_trusted_loop_floor [of _ "Split raw (CHR '','')"]
  by (auto simp: parseTrustedProxyCIDRs_def list_all_iff split: prod.splits)

text \<open>The mapped form of an IPv4 address.\<close>

definition mapped :: "32 word \<Rightarrow> 128 word" where
  "mapped x = push_bit 32 0xFFFF OR ucast x"

lemma bit_word_32: "bit (x :: 32 word) n \<Longrightarrow> n < 32"
  using bit_imp_le_length [of x n] by simp

lemma bit_mapped: "bit (mapped x) n \<longleftrightarrow> n < 128 \<and> (bit x n \<or> (32 \<le> n \<and> bit (0xFFFF :: 128 word) (n - 32)))"
  unfolding mapped_def bit_or_iff bit_push_bit_iff bit_ucast_iff by (auto dest: bit_word_32)

lemma is_4in6_mapped:
  assumes "is_4in6 v"
  shows "v = mapped (ucast v)"
proof (rule bit_word_eqI)
  fix n assume n: "n < LENGTH(128)"
  show "bit v n = bit (mapped (ucast v)) n"
  proof (cases "n < 32")
    case True
    then show ?thesis using n by (simp add: bit_mapped bit_ucast_iff)
  next
    case False
    have "bit (drop_bit 32 v) (n - 32) = bit (0xFFFF :: 128 word) (n - 32)"
      using assms by (simp add: is_4in6_def)
    then have "bit v n = bit (0xFFFF :: 128 word) (n - 32)" using False by (simp add: bit_drop_bit_eq)
    then show ?thesis using False n by (auto simp: bit_mapped bit_ucast_iff)
  qed
qed

lemma drop_bit_zero_iff: "drop_bit n w = 0 \<longleftrightarrow> unat w < 2 ^ n" for w :: "'a::len word"
proof -
  have "unat (drop_bit n w) = unat w div 2 ^ n"
    unfolding unat_drop_bit_eq by (rule drop_bit_eq_div)
  then show ?thesis by (simp add: word_unat_eq_iff div_eq_0_iff)
qed

lemma drop_bit_ucast_zero:
  "drop_bit n (ucast z :: 128 word) = 0 \<longleftrightarrow> drop_bit n (z :: 32 word) = 0"
proof -
  have "unat z < 2 ^ 128" using unsigned_less [of z, where 'a = nat] by simp
  then have "unat (ucast z :: 128 word) = unat z"
    by (simp add: unsigned_ucast_eq take_bit_word_eq_self take_bit_nat_eq_self)
  then show ?thesis by (simp add: drop_bit_zero_iff)
qed

lemma mapped_xor: "mapped x XOR mapped y = ucast (x XOR y)"
  by (rule bit_word_eqI) (auto simp: bit_xor_iff bit_mapped bit_ucast_iff dest: bit_word_32)

text \<open>
  Normalizing a prefix in mapped form does not change which clients are trusted: the accepted
  IPv4 prefix contains an IPv4 address exactly when the prefix as written contains its mapped form.
\<close>

theorem normalized_prefix_equivalent:
  assumes "ParsePrefix e = Some q" "Is4In6 (p_addr q)" "normalizeTrustedPrefix e = (Some p, w)"
  shows "Prefix_Contains p (IPv4 x) \<longleftrightarrow> Prefix_Contains q (IPv6 (mapped x) [])"
proof -
  obtain v z where q: "p_addr q = IPv6 v z" "is_4in6 v" using assms(2) by (cases "p_addr q") auto
  have b: "96 \<le> p_bits q" "p_bits q \<le> 128" and p: "p = \<lparr>p_addr = IPv4 (ucast v), p_bits = p_bits q - 96\<rparr>"
    using assms q ParsePrefix_Some [OF assms(1)]
    by (auto simp: normalizeTrustedPrefix_def Let_def nat_diff_distrib split: if_splits)
  have s: "32 - (p_bits q - 96) = 128 - p_bits q" using b by simp
  have "drop_bit (128 - p_bits q) (mapped x XOR v) = drop_bit (128 - p_bits q) (ucast (x XOR ucast v) :: 128 word)"
    using is_4in6_mapped [OF q(2)] mapped_xor [of x "ucast v"] by simp
  then show ?thesis using p s q drop_bit_ucast_zero [of "128 - p_bits q" "x XOR ucast v"] by simp
qed

theorem normalized_prefix_equivalent_witness:
  "Prefix_Contains \<lparr>p_addr = IPv4 0x0A000000, p_bits = 8\<rparr> (IPv4 0x0A010203) \<longleftrightarrow>
   Prefix_Contains \<lparr>p_addr = IPv6 0xFFFF0A000000 [], p_bits = 104\<rparr> (IPv6 (mapped 0x0A010203) [])"
proof -
  have "ParsePrefix ''::ffff:10.0.0.0/104'' = Some \<lparr>p_addr = IPv6 0xFFFF0A000000 [], p_bits = 104\<rparr>"
    "Is4In6 (IPv6 0xFFFF0A000000 [])"
    "normalizeTrustedPrefix ''::ffff:10.0.0.0/104'' =
      (Some \<lparr>p_addr = IPv4 0x0A000000, p_bits = 8\<rparr>, Some (MappedNormalized ''::ffff:10.0.0.0/104''))"
    by code_simp+
  then show ?thesis
    using normalized_prefix_equivalent [of "''::ffff:10.0.0.0/104''"
        "\<lparr>p_addr = IPv6 0xFFFF0A000000 [], p_bits = 104\<rparr>" "\<lparr>p_addr = IPv4 0x0A000000, p_bits = 8\<rparr>"]
    by (simp del: Prefix_Contains.simps Is4In6.simps)
qed

text \<open>
  A server that loads its configuration and passes validation either runs in a development
  mode that both variables spelled out literally, or has a session secret of at least 32 bytes, a
  Redis URL with a password and at least one trusted proxy prefix.
\<close>

theorem boot_guarantees:
  assumes "Load V = Inr c" "Validate url_password c = None"
  shows "V ''DEV_MODE'' = ''true'' \<and> V ''CONFIRM_DEV_MODE'' = ''true'' \<or>
    MinSessionSecretLen \<le> length (InternalSessionSecret c) \<and> TrustedProxyCIDRs c \<noteq> [] \<and>
    (\<exists>pw. url_password (V ''REDIS_URL'') = Some (Some pw) \<and> pw \<noteq> [])"
proof -
  have f: "DevMode c \<longleftrightarrow> V ''DEV_MODE'' = ''true''" "devModeConfirmed c \<longleftrightarrow> V ''CONFIRM_DEV_MODE'' = ''true''"
    "RedisURL c = V ''REDIS_URL''" "TrustedProxyCIDRs c = [] \<Longrightarrow> DevMode c"
    using assms(1) by (auto simp: Load_def Let_def split: prod.splits if_splits)
  show ?thesis
  proof (cases "DevMode c")
    case True
    then show ?thesis using f assms(2) by (auto simp: Validate_def split: if_splits)
  next
    case False
    then have "validate_redis url_password c = None" "MinSessionSecretLen \<le> length (InternalSessionSecret c)"
      using assms(2) by (auto simp: Validate_def split: if_splits)
    with False f show ?thesis
      by (auto simp: validate_redis_def split: if_splits option.splits)
  qed
qed

definition sample_vars :: "string \<Rightarrow> string" where
  "sample_vars k =
     (if k = ''TRUSTED_PROXY_CIDRS'' then ''10.0.0.0/8''
      else if k = ''INTERNAL_SESSION_SECRET'' then replicate 32 CHR ''s''
      else if k = ''REDIS_URL'' then ''redis://:pw@cache'' else [])"

theorem boot_guarantees_witness:
  "\<exists>c. Load sample_vars = Inr c \<and> Validate (\<lambda>_. Some (Some ''pw'')) c = None \<and>
     MinSessionSecretLen \<le> length (InternalSessionSecret c)"
proof -
  have v: "case Load sample_vars of Inl _ \<Rightarrow> False | Inr c \<Rightarrow> Validate (\<lambda>_. Some (Some ''pw'')) c = None"
    by code_simp
  obtain c where c: "Load sample_vars = Inr c" "Validate (\<lambda>_. Some (Some ''pw'')) c = None"
    using v by (auto split: sum.splits)
  from boot_guarantees [OF this] c show ?thesis by (auto simp: sample_vars_def)
qed

end
