(* ===== verification/Hub.thy ===== *)
theory Hub
  imports Overlay Config
begin

text \<open>
  Package \<open>internal/wg\<close>: the manager, which configures the WireGuard interface by running \<open>wg\<close> and
  \<open>ip\<close>, and the hub, which reconciles the interface with the active devices of the database. The
  state is the list of the commands run so far; what a command answers is an argument of the model.
\<close>

section \<open>Commands\<close>

datatype exec_result = Ran string | ExitError | ExecFailed

type_synonym history = "string list list"
type_synonym shell = "history \<Rightarrow> string list \<Rightarrow> exec_result"

definition runOutput :: "shell \<Rightarrow> string list \<Rightarrow> history \<Rightarrow> string option \<times> history" where
  "runOutput sh cmd h = ((case sh h cmd of Ran out \<Rightarrow> Some out | _ \<Rightarrow> None), h @ [cmd])"

definition run_cmd :: "shell \<Rightarrow> string list \<Rightarrow> history \<Rightarrow> bool \<times> history" where
  "run_cmd sh cmd h = apfst (\<lambda>x. x \<noteq> None) (runOutput sh cmd h)"

text \<open>\<open>strings.Fields\<close>\<close>

fun word_end :: "string \<Rightarrow> string \<times> string" where
  "word_end [] = ([], [])"
| "word_end (c # s) = (if trim_left (c # s) \<noteq> c # s then ([], c # s) else apfst (Cons c) (word_end s))"

lemma word_end_append: "fst (word_end s) @ snd (word_end s) = s"
  by (induction s) auto

function Fields :: "string \<Rightarrow> string list" where
  "Fields s = (let t = trim_left s in if t = [] then [] else
     case t of [] \<Rightarrow> [] | c # t' \<Rightarrow> let (w, r) = word_end t' in (c # w) # Fields r)"
  by pat_completeness auto
termination
proof (relation "measure length")
  fix s t c t' p w r
  assume t: "t = trim_left s" "t = c # t'" "p = word_end t'" "(w, r) = p"
  have "length t \<le> length s" using trim_left_suffix [of s] t by (auto dest: suffix_length_le)
  moreover have "length r \<le> length t'"
    using word_end_append [of t'] t(3,4) by (metis fst_conv snd_conv length_append le_add2)
  ultimately show "(r, s) \<in> measure length" using t(2) by simp
qed simp

declare Fields.simps [simp del]

section \<open>The manager\<close>

definition interfaceExists :: "shell \<Rightarrow> string \<Rightarrow> history \<Rightarrow> bool option \<times> history" where
  "interfaceExists sh name h =
     (let cmd = [''ip'', ''link'', ''show'', ''dev'', name] in
      ((case sh h cmd of Ran _ \<Rightarrow> Some True | ExitError \<Rightarrow> Some False | ExecFailed \<Rightarrow> None), h @ [cmd]))"

definition ensureInterface :: "shell \<Rightarrow> string \<Rightarrow> history \<Rightarrow> bool \<times> history" where
  "ensureInterface sh name h =
     (case interfaceExists sh name h of
        (None, h') \<Rightarrow> (False, h')
      | (Some True, h') \<Rightarrow> (True, h')
      | (Some False, h') \<Rightarrow> run_cmd sh [''ip'', ''link'', ''add'', name, ''type'', ''wireguard''] h')"

text \<open>
  \<open>Manager.Init\<close>: \<open>keyFile\<close> is the temporary file with the private key (\<^const>\<open>None\<close> when creating,
  writing or closing it fails).
\<close>

definition manager_Init :: "shell \<Rightarrow> string option \<Rightarrow> string \<Rightarrow> string \<Rightarrow> string \<Rightarrow> history \<Rightarrow> bool \<times> history" where
  "manager_Init sh keyFile name address listenPort h =
     (case keyFile of None \<Rightarrow> (False, h)
      | Some f \<Rightarrow>
          (case ensureInterface sh name h of
             (False, h1) \<Rightarrow> (False, h1)
           | (True, h1) \<Rightarrow>
               (case run_cmd sh ([''wg'', ''set'', name, ''private-key'', f] @
                    (if listenPort \<noteq> [] then [''listen-port'', listenPort] else [])) h1 of
                  (False, h2) \<Rightarrow> (False, h2)
                | (True, h2) \<Rightarrow>
                    (case run_cmd sh [''ip'', ''addr'', ''replace'', address, ''dev'', name] h2 of
                       (False, h3) \<Rightarrow> (False, h3)
                     | (True, h3) \<Rightarrow> run_cmd sh [''ip'', ''link'', ''set'', name, ''up''] h3))))"

definition add_peer_cmd :: "string \<Rightarrow> string \<Rightarrow> string \<Rightarrow> string \<Rightarrow> string list" where
  "add_peer_cmd name pubKey allowedIP endpoint =
     [''wg'', ''set'', name, ''peer'', pubKey, ''allowed-ips'', allowedIP, ''persistent-keepalive'', ''25''] @
     (if endpoint \<noteq> [] then [''endpoint'', endpoint] else [])"

definition AddPeer :: "shell \<Rightarrow> string \<Rightarrow> string \<Rightarrow> string \<Rightarrow> string \<Rightarrow> history \<Rightarrow> bool \<times> history" where
  "AddPeer sh name pubKey allowedIP endpoint h = run_cmd sh (add_peer_cmd name pubKey allowedIP endpoint) h"

definition RemovePeer :: "shell \<Rightarrow> string \<Rightarrow> string \<Rightarrow> history \<Rightarrow> bool \<times> history" where
  "RemovePeer sh name pubKey h = run_cmd sh [''wg'', ''set'', name, ''peer'', pubKey, ''remove''] h"

definition CurrentPeers :: "shell \<Rightarrow> string \<Rightarrow> history \<Rightarrow> string list option \<times> history" where
  "CurrentPeers sh name h =
     (case runOutput sh [''wg'', ''show'', name, ''peers''] h of
        (None, h') \<Rightarrow> (None, h')
      | (Some output, h') \<Rightarrow>
          let trimmed = TrimSpace output in
          if trimmed = [] then (Some [], h') else (Some (Fields trimmed), h'))"

definition manager_Down :: "shell \<Rightarrow> string \<Rightarrow> history \<Rightarrow> bool \<times> history" where
  "manager_Down sh name h = run_cmd sh [''ip'', ''link'', ''del'', name] h"

section \<open>The hub\<close>

record peerRecord =
  DeviceID :: string
  PublicKey :: string
  PeerIP :: string
  EndpointHost :: string
  EndpointPort :: int

text \<open>A hub: the name of its interface, its private key and its address.\<close>

record Hub =
  hub_if :: string
  privateKey :: string
  interfaceAddress :: string

datatype hub_error = HubNoDatabase | HubNoCIDR | HubAddress overlay_error

definition NewHub :: "bool \<Rightarrow> Config \<Rightarrow> hub_error + Hub option" where
  "NewHub pool cfg =
     (if WGPrivateKey cfg = [] then Inr None
      else if \<not> pool then Inl HubNoDatabase
      else if WGOverlayCIDR cfg = [] then Inl HubNoCIDR
      else (case ServerInterfaceAddress (WGOverlayCIDR cfg) of Inl e \<Rightarrow> Inl (HubAddress e)
            | Inr a \<Rightarrow> Inr (Some \<lparr>hub_if = WGInterfaceName cfg, privateKey = WGPrivateKey cfg,
                              interfaceAddress = a\<rparr>)))"

text \<open>The join of the two queries, with the conditions they share.\<close>

definition peer_of :: "device \<Rightarrow> device_key \<Rightarrow> peerRecord" where
  "peer_of d k =
     \<lparr>DeviceID = d_id d, PublicKey = k_wg_public_key k,
      PeerIP = (case d_overlay_ip d of None \<Rightarrow> [] | Some ip \<Rightarrow> addr_string ip),
      EndpointHost = (case d_external_endpoint_host d of None \<Rightarrow> [] | Some x \<Rightarrow> x),
      EndpointPort = (case d_external_endpoint_port d of None \<Rightarrow> 0 | Some x \<Rightarrow> x)\<rparr>"

definition peer_rows :: "device list \<Rightarrow> device_key list \<Rightarrow> (device \<times> device_key) list" where
  "peer_rows ds ks =
     [(d, k). d \<leftarrow> ds, k \<leftarrow> ks, k_device_id k = d_id d \<and> k_state k = ''active'' \<and> d_status d = ''active'' \<and>
        \<not> d_direct_scoped d \<and> d_overlay_ip d \<noteq> None]"

definition loadPeer :: "env \<Rightarrow> nat \<Rightarrow> string \<Rightarrow> db \<Rightarrow> peerRecord option option" where
  "loadPeer E i deviceID d =
     (case (if fails E i then None else uuid_in E deviceID) of None \<Rightarrow> None
      | Some u \<Rightarrow>
          (case filter (\<lambda>(r, k). d_id r = u) (peer_rows (devices d) (device_keys d)) of
             [] \<Rightarrow> Some None | (r, k) # _ \<Rightarrow> Some (Some (peer_of r k))))"

definition loadAllPeers :: "env \<Rightarrow> nat \<Rightarrow> db \<Rightarrow> peerRecord list option" where
  "loadAllPeers E i d =
     (if fails E i then None
      else Some (map (\<lambda>(r, k). peer_of r k)
             (sort_key (\<lambda>(r, k). d_created_at r) (peer_rows (devices d) (device_keys d)))))"

definition peer_endpoint :: "peerRecord \<Rightarrow> string" where
  "peer_endpoint peer =
     (if EndpointHost peer \<noteq> [] \<and> 0 < EndpointPort peer
      then JoinHostPort (EndpointHost peer) (Itoa (EndpointPort peer)) else [])"

definition applyPeer :: "shell \<Rightarrow> Hub \<Rightarrow> peerRecord \<Rightarrow> history \<Rightarrow> bool \<times> history" where
  "applyPeer sh hub peer h =
     AddPeer sh (hub_if hub) (PublicKey peer) (PeerIP peer @ ''/32'') (peer_endpoint peer) h"

fun apply_peers :: "shell \<Rightarrow> Hub \<Rightarrow> peerRecord list \<Rightarrow> history \<Rightarrow> bool \<times> history" where
  "apply_peers sh hub [] h = (True, h)"
| "apply_peers sh hub (p # ps) h =
     (case applyPeer sh hub p h of (False, h') \<Rightarrow> (False, h') | (True, h') \<Rightarrow> apply_peers sh hub ps h')"

fun remove_stale :: "shell \<Rightarrow> Hub \<Rightarrow> string set \<Rightarrow> string list \<Rightarrow> history \<Rightarrow> bool \<times> history" where
  "remove_stale sh hub active [] h = (True, h)"
| "remove_stale sh hub active (c # cs) h =
     (if c \<in> active then remove_stale sh hub active cs h
      else (case RemovePeer sh (hub_if hub) c h of
              (False, h') \<Rightarrow> (False, h') | (True, h') \<Rightarrow> remove_stale sh hub active cs h'))"

definition SyncAll :: "env \<Rightarrow> nat \<Rightarrow> shell \<Rightarrow> Hub option \<Rightarrow> db \<Rightarrow> history \<Rightarrow> bool \<times> history" where
  "SyncAll E i sh ho d h =
     (case ho of None \<Rightarrow> (True, h)
      | Some hub \<Rightarrow>
          (case loadAllPeers E i d of None \<Rightarrow> (False, h)
           | Some peers \<Rightarrow>
               (case apply_peers sh hub peers h of
                  (False, h1) \<Rightarrow> (False, h1)
                | (True, h1) \<Rightarrow>
                    (case CurrentPeers sh (hub_if hub) h1 of
                       (None, h2) \<Rightarrow> (False, h2)
                     | (Some current, h2) \<Rightarrow>
                         remove_stale sh hub (set (map PublicKey peers)) current h2))))"

definition SyncDevice :: "env \<Rightarrow> nat \<Rightarrow> shell \<Rightarrow> Hub option \<Rightarrow> string \<Rightarrow> db \<Rightarrow> history \<Rightarrow> bool \<times> history" where
  "SyncDevice E i sh ho deviceID d h =
     (case ho of None \<Rightarrow> (True, h)
      | Some hub \<Rightarrow>
          (case loadPeer E i deviceID d of
             None \<Rightarrow> (False, h)
           | Some None \<Rightarrow> SyncAll E (i + 1) sh ho d h
           | Some (Some peer) \<Rightarrow> applyPeer sh hub peer h))"

definition hub_Init :: "env \<Rightarrow> nat \<Rightarrow> shell \<Rightarrow> string option \<Rightarrow> Hub option \<Rightarrow> int \<Rightarrow> db \<Rightarrow> history \<Rightarrow>
    bool \<times> history" where
  "hub_Init E i sh keyFile ho listenPort d h =
     (case ho of None \<Rightarrow> (True, h)
      | Some hub \<Rightarrow>
          (case manager_Init sh keyFile (hub_if hub) (interfaceAddress hub) (Itoa listenPort) h of
             (False, h') \<Rightarrow> (False, h') | (True, h') \<Rightarrow> SyncAll E i sh ho d h'))"

section \<open>Reconciliation\<close>

text \<open>
  What \<open>wg(8)\<close> documents of the three commands: \<open>view\<close> gives, after a history, the peers of the
  interface with their allowed addresses. Setting a peer replaces its allowed addresses, and an
  address moves to the peer it was last given to; removing a peer forgets it; \<open>show\<close> lists the
  keys and changes nothing.
\<close>

definition wg_laws :: "shell \<Rightarrow> string \<Rightarrow> (history \<Rightarrow> string \<rightharpoonup> string set) \<Rightarrow> bool" where
  "wg_laws sh name view \<longleftrightarrow>
     (\<forall>h k a ep out. sh h (add_peer_cmd name k a ep) = Ran out \<longrightarrow>
        view (h @ [add_peer_cmd name k a ep]) =
          (\<lambda>k'. if k' = k then Some {a} else map_option (\<lambda>s. s - {a}) (view h k'))) \<and>
     (\<forall>h k out. sh h [''wg'', ''set'', name, ''peer'', k, ''remove''] = Ran out \<longrightarrow>
        view (h @ [[''wg'', ''set'', name, ''peer'', k, ''remove'']]) = (view h)(k := None)) \<and>
     (\<forall>h out. sh h [''wg'', ''show'', name, ''peers''] = Ran out \<longrightarrow>
        set (Fields (TrimSpace out)) = dom (view h) \<and>
        view (h @ [[''wg'', ''show'', name, ''peers'']]) = view h)"

definition set_peer :: "peerRecord \<Rightarrow> (string \<rightharpoonup> string set) \<Rightarrow> string \<rightharpoonup> string set" where
  "set_peer p v = (\<lambda>k. if k = PublicKey p then Some {PeerIP p @ ''/32''}
     else map_option (\<lambda>s. s - {PeerIP p @ ''/32''}) (v k))"

lemma wg_show:
  assumes "wg_laws sh name view" "sh h [''wg'', ''show'', name, ''peers''] = Ran out"
  shows "set (Fields (TrimSpace out)) = dom (view h)"
    and "view (h @ [[''wg'', ''show'', name, ''peers'']]) = view h"
  using assms unfolding wg_laws_def by blast+

lemma run_cmd_True: "run_cmd sh cmd h = (True, h') \<longleftrightarrow> h' = h @ [cmd] \<and> (\<exists>out. sh h cmd = Ran out)"
  by (auto simp: run_cmd_def runOutput_def split: exec_result.splits)

lemma applyPeer_view:
  assumes "wg_laws sh (hub_if hub) view" "applyPeer sh hub p h = (True, h')"
  shows "view h' = set_peer p (view h)"
  using assms by (auto simp: applyPeer_def AddPeer_def run_cmd_True wg_laws_def set_peer_def)

lemma apply_peers_view:
  assumes "wg_laws sh (hub_if hub) view"
  shows "apply_peers sh hub ps h = (True, h') \<Longrightarrow> view h' = fold set_peer ps (view h)"
proof (induction ps arbitrary: h)
  case (Cons p ps)
  then obtain h1 where "applyPeer sh hub p h = (True, h1)" "apply_peers sh hub ps h1 = (True, h')"
    by (auto split: prod.splits bool.splits)
  then show ?case using Cons.IH applyPeer_view [OF assms] by simp
qed simp

text \<open>Peers that agree on their key exactly when they agree on their address.\<close>

definition one_to_one :: "peerRecord set \<Rightarrow> bool" where
  "one_to_one P \<longleftrightarrow> (\<forall>p \<in> P. \<forall>q \<in> P. PublicKey p = PublicKey q \<longleftrightarrow> PeerIP p = PeerIP q)"

lemma fold_set_peer:
  assumes "one_to_one (set ps)"
  shows "p \<in> set ps \<Longrightarrow> fold set_peer ps v (PublicKey p) = Some {PeerIP p @ ''/32''}"
    and "dom (fold set_peer ps v) = dom v \<union> PublicKey ` set ps"
  using assms
proof (induction ps rule: rev_induct)
  case (snoc q ps)
  define w where "w = fold set_peer ps v"
  have w: "fold set_peer (ps @ [q]) v = set_peer q w" by (simp add: w_def)
  {
    case 1
    then have "PublicKey p = PublicKey q \<longleftrightarrow> PeerIP p = PeerIP q" by (auto simp: one_to_one_def)
    moreover have "PublicKey p \<noteq> PublicKey q \<Longrightarrow> w (PublicKey p) = Some {PeerIP p @ ''/32''}"
      using snoc.IH(1) 1 by (auto simp: one_to_one_def w_def)
    ultimately show ?case unfolding w by (auto simp: set_peer_def)
  next
    case 2
    then have "dom w = dom v \<union> PublicKey ` set ps"
      unfolding w_def by (intro snoc.IH(2)) (auto simp: one_to_one_def)
    then show ?case unfolding w by (auto simp: set_peer_def dom_def split: if_splits)
  }
qed auto

lemma remove_stale_view:
  assumes "wg_laws sh (hub_if hub) view"
  shows "remove_stale sh hub active cs h = (True, h') \<Longrightarrow>
    view h' = (\<lambda>k. if k \<in> set cs \<and> k \<notin> active then None else view h k)"
proof (induction cs arbitrary: h)
  case (Cons c cs)
  show ?case
  proof (cases "c \<in> active")
    case True
    with Cons show ?thesis by auto
  next
    case False
    then obtain h1 where h1: "RemovePeer sh (hub_if hub) c h = (True, h1)"
      "remove_stale sh hub active cs h1 = (True, h')"
      using Cons.prems by (auto split: prod.splits bool.splits)
    then have "view h1 = (view h)(c := None)"
      using assms by (auto simp: RemovePeer_def run_cmd_True wg_laws_def)
    with Cons.IH [OF h1(2)] False show ?thesis by auto
  qed
qed simp

lemma SyncAll_view:
  assumes L: "wg_laws sh (hub_if hub) view" and P: "loadAllPeers E i d = Some ps"
    and O: "one_to_one (set ps)" and S: "SyncAll E i sh (Some hub) d h = (True, h')"
  shows "\<forall>p \<in> set ps. view h' (PublicKey p) = Some {PeerIP p @ ''/32''}"
    and "dom (view h') = PublicKey ` set ps"
proof -
  obtain h1 cs h2 where h1: "apply_peers sh hub ps h = (True, h1)"
    and h2: "CurrentPeers sh (hub_if hub) h1 = (Some cs, h2)"
    and h': "remove_stale sh hub (set (map PublicKey ps)) cs h2 = (True, h')"
    using S P by (auto simp: SyncAll_def split: prod.splits bool.splits option.splits)
  have F: "Fields [] = []" by (simp add: Fields.simps trim_left_def)
  obtain out where out: "sh h1 [''wg'', ''show'', hub_if hub, ''peers''] = Ran out"
    "h2 = h1 @ [[''wg'', ''show'', hub_if hub, ''peers'']]" "cs = Fields (TrimSpace out)"
    using h2 F by (auto simp: CurrentPeers_def runOutput_def Let_def
        split: option.splits prod.splits exec_result.splits if_splits)
  have cs: "set cs = dom (view h1)" "view h2 = view h1"
    using wg_show [OF L out(1)] out by auto
  have v: "view h' = (\<lambda>k. if k \<in> dom (view h1) \<and> k \<notin> PublicKey ` set ps then None else view h1 k)"
    using remove_stale_view [OF L h'] by (auto simp: cs fun_eq_iff)
  note f = fold_set_peer [OF O] apply_peers_view [OF L h1]
  show "\<forall>p \<in> set ps. view h' (PublicKey p) = Some {PeerIP p @ ''/32''}" using v f by auto
  have "dom (view h') = dom (view h1) \<inter> PublicKey ` set ps"
    unfolding v by (auto simp: dom_def split: if_splits)
  then show "dom (view h') = PublicKey ` set ps" using f(2) [of "view h"] f(3) by auto
qed

lemma SyncAll_runs:
  assumes "\<And>h cmd. \<exists>out. sh h cmd = Ran out" "\<not> fails E i"
  shows "\<exists>h'. SyncAll E i sh (Some hub) d h = (True, h')"
proof -
  have run: "run_cmd sh cmd h = (True, h @ [cmd])" for cmd h using assms(1) by (simp add: run_cmd_True)
  have a: "\<exists>h'. apply_peers sh hub ps h = (True, h')" for ps h
    by (induction ps arbitrary: h) (auto simp: applyPeer_def AddPeer_def run)
  have r: "\<exists>h'. remove_stale sh hub A cs h = (True, h')" for A cs h
    by (induction cs arbitrary: h) (auto simp: RemovePeer_def run)
  have c: "\<exists>cs h'. CurrentPeers sh name h = (Some cs, h')" for name h
    using assms(1) [of h "[''wg'', ''show'', name, ''peers'']"]
    by (auto simp: CurrentPeers_def runOutput_def Let_def)
  obtain ps where "loadAllPeers E i d = Some ps" using assms(2) by (simp add: loadAllPeers_def)
  moreover obtain h1 where "apply_peers sh hub ps h = (True, h1)" using a by blast
  moreover obtain cs h2 where "CurrentPeers sh (hub_if hub) h1 = (Some cs, h2)" using c by blast
  ultimately show ?thesis using r by (simp add: SyncAll_def)
qed

section \<open>The peers of a database\<close>

lemma peer_rows_iff:
  "(r, k) \<in> set (peer_rows ds ks) \<longleftrightarrow> r \<in> set ds \<and> k \<in> set ks \<and> k_device_id k = d_id r \<and>
     k_state k = ''active'' \<and> d_status r = ''active'' \<and> \<not> d_direct_scoped r \<and> d_overlay_ip r \<noteq> None"
  by (auto simp: peer_rows_def)

definition overlay_v4 :: "db \<Rightarrow> bool" where
  "overlay_v4 d \<longleftrightarrow> list_all (\<lambda>r. case d_overlay_ip r of Some (IPv6 _ _) \<Rightarrow> False | _ \<Rightarrow> True) (devices d)"

lemma overlay_v4D:
  "overlay_v4 d \<Longrightarrow> r \<in> set (devices d) \<Longrightarrow> d_overlay_ip r \<noteq> None \<Longrightarrow> \<exists>x. d_overlay_ip r = Some (IPv4 x)"
  unfolding overlay_v4_def list_all_iff
  by (drule bspec, assumption) (auto split: option.splits addr.splits)

lemma peers_one_to_one:
  assumes "db_ok d" "overlay_v4 d" "loadAllPeers E i d = Some ps"
  shows "one_to_one (set ps)"
proof -
  have ps: "set ps = (\<lambda>(r, k). peer_of r k) ` set (peer_rows (devices d) (device_keys d))"
    using assms(3) by (auto simp: loadAllPeers_def split: if_splits)
  have D: "devices_ok (users d) (devices d)" and K: "keys_ok (devices d) (device_keys d)"
    using assms(1) by (auto simp: db_ok_def)
  have "PublicKey (peer_of r k) = PublicKey (peer_of r' k') \<longleftrightarrow> PeerIP (peer_of r k) = PeerIP (peer_of r' k')"
    if rk: "(r, k) \<in> set (peer_rows (devices d) (device_keys d))"
      "(r', k') \<in> set (peer_rows (devices d) (device_keys d))" for r k r' k'
  proof
    assume "PublicKey (peer_of r k) = PublicKey (peer_of r' k')"
    then have "k = k'" using rk K
      by (intro unique_onD [of "active_key k_wg_public_key" "device_keys d" _ _ "k_wg_public_key k"])
        (auto simp: peer_rows_iff peer_of_def keys_ok_def active_key_def)
    then have "r = r'" using rk device_unique [OF D] by (auto simp: peer_rows_iff)
    then show "PeerIP (peer_of r k) = PeerIP (peer_of r' k')" by (simp add: peer_of_def)
  next
    assume ip: "PeerIP (peer_of r k) = PeerIP (peer_of r' k')"
    obtain x y where xy: "d_overlay_ip r = Some (IPv4 x)" "d_overlay_ip r' = Some (IPv4 y)"
      using rk overlay_v4D [OF assms(2), of r] overlay_v4D [OF assms(2), of r'] by (auto simp: peer_rows_iff)
    then have "x = y" using ip by (simp add: peer_of_def)
    then have "r = r'" using rk xy D
      by (intro unique_onD [of d_overlay_ip "devices d" _ _ "IPv4 x"])
        (auto simp: peer_rows_iff devices_ok_def)
    then have "k = k'" using rk K
      by (intro unique_onD [of "active_key k_device_id" "device_keys d" _ _ "d_id r"])
        (auto simp: peer_rows_iff keys_ok_def active_key_def)
    then show "PublicKey (peer_of r k) = PublicKey (peer_of r' k')" by (simp add: peer_of_def)
  qed
  then show ?thesis unfolding one_to_one_def ps by auto
qed

definition wanted_keys :: "db \<Rightarrow> string set" where
  "wanted_keys d = (\<lambda>(r, k). k_wg_public_key k) ` set (peer_rows (devices d) (device_keys d))"

lemma SyncAll_reconciles:
  assumes "wg_laws sh (hub_if hub) view" "db_ok d" "overlay_v4 d"
    and "SyncAll E i sh (Some hub) d h = (True, h')"
  shows "dom (view h') = wanted_keys d"
    and "(r, k) \<in> set (peer_rows (devices d) (device_keys d)) \<Longrightarrow> d_overlay_ip r = Some ip \<Longrightarrow>
      view h' (k_wg_public_key k) = Some {addr_string ip @ ''/32''}"
proof -
  obtain ps where P: "loadAllPeers E i d = Some ps"
    using assms(4) by (auto simp: SyncAll_def split: option.splits)
  then have ps: "set ps = (\<lambda>(r, k). peer_of r k) ` set (peer_rows (devices d) (device_keys d))"
    by (auto simp: loadAllPeers_def split: if_splits)
  note v = SyncAll_view [OF assms(1) P peers_one_to_one [OF assms(2,3) P] assms(4)]
  show "dom (view h') = wanted_keys d"
    using v(2) unfolding ps wanted_keys_def by (auto simp: peer_of_def image_image split_def)
  show "view h' (k_wg_public_key k) = Some {addr_string ip @ ''/32''}"
    if "(r, k) \<in> set (peer_rows (devices d) (device_keys d))" "d_overlay_ip r = Some ip"
    using v(1) that unfolding ps by (force simp: peer_of_def)
qed

subsection \<open>A plain WireGuard interface\<close>

text \<open>
  An interface that behaves as documented, for witnesses: it accepts the keys whose encoding is
  canonical, as \<open>wg\<close> does (44 characters, the two unused bits of the last digit zero).
\<close>

definition wg_accepts :: "string \<Rightarrow> bool" where
  "wg_accepts k \<longleftrightarrow> wg_key_format k \<and> (case b64_val (k ! 42) of None \<Rightarrow> False | Some v \<Rightarrow> v mod 4 = 0)"

fun plain_step :: "string \<Rightarrow> string list \<Rightarrow> (string \<times> string list) list \<Rightarrow> (string \<times> string list) list" where
  "plain_step name (c0 # c1 # n # c3 # k # c5 # a # rest) ps =
     (if c0 = ''wg'' \<and> c1 = ''set'' \<and> n = name \<and> c3 = ''peer'' \<and> c5 = ''allowed-ips'' \<and> wg_accepts k
      then AList.update k [a] (map (\<lambda>(k', s). (k', removeAll a s)) ps) else ps)"
| "plain_step name [c0, c1, n, c3, k, c5] ps =
     (if c0 = ''wg'' \<and> c1 = ''set'' \<and> n = name \<and> c3 = ''peer'' \<and> c5 = ''remove''
      then AList.delete k ps else ps)"
| "plain_step name _ ps = ps"

definition plain_peers :: "string \<Rightarrow> history \<Rightarrow> (string \<times> string list) list" where
  "plain_peers name h = foldl (\<lambda>ps c. plain_step name c ps) [] h"

definition plain_wg :: "string \<Rightarrow> shell" where
  "plain_wg name h cmd =
     (case cmd of [c0, c1, n, c3] \<Rightarrow>
        if c0 = ''wg'' \<and> c1 = ''show'' \<and> n = name \<and> c3 = ''peers''
        then Ran (Join (map fst (plain_peers name h)) [CHR 0x0A]) else Ran []
      | c0 # c1 # n # c3 # k # c5 # _ # _ \<Rightarrow>
          if c0 = ''wg'' \<and> c1 = ''set'' \<and> c3 = ''peer'' \<and> \<not> wg_accepts k then ExitError else Ran []
      | _ \<Rightarrow> Ran [])"

definition plain_view :: "string \<Rightarrow> history \<Rightarrow> string \<rightharpoonup> string set" where
  "plain_view name h = (\<lambda>k. map_option set (map_of (plain_peers name h) k))"

lemma word_end_plain:
  "list_all plain_char w \<Longrightarrow> word_end (w @ CHR 0x0A # s) = (w, CHR 0x0A # s)"
  "list_all plain_char w \<Longrightarrow> word_end w = (w, [])"
proof -
  have nl: "trim_left (CHR 0x0A # s) \<noteq> CHR 0x0A # s"
  proof -
    have "space1 (CHR 0x0A)" by (simp add: space1_def less_eq_char_def)
    then show ?thesis unfolding trim_left_def trim_with_fix by (auto split: list.splits)
  qed
  show "list_all plain_char w \<Longrightarrow> word_end (w @ CHR 0x0A # s) = (w, CHR 0x0A # s)"
    using nl by (induction w) (auto simp: trim_left_plain)
  show "list_all plain_char w \<Longrightarrow> word_end w = (w, [])"
    by (induction w) (auto simp: trim_left_plain)
qed

lemma trim_left_nl: "trim_left (CHR 0x0A # s) = trim_left s"
proof -
  have "space1 (CHR 0x0A)" by (simp add: space1_def less_eq_char_def)
  then show ?thesis by (cases s rule: list.exhaust; cases "tl s") (auto simp: trim_left_def)
qed

lemma Fields_Join:
  "list_all plain_word ws \<Longrightarrow> Fields (Join ws [CHR 0x0A]) = ws"
proof (induction ws)
  case Nil
  then show ?case by (simp add: Fields.simps trim_left_def)
next
  case (Cons w ws)
  obtain c w' where w: "w = c # w'" "plain_char c" "list_all plain_char w'"
    using Cons.prems by (cases w) (auto simp: plain_word_def)
  show ?case
  proof (cases "ws = []")
    case True
    have "Fields [] = []" by (simp add: Fields.simps trim_left_def)
    then show ?thesis using True w by (subst Fields.simps) (simp add: trim_left_plain word_end_plain)
  next
    case False
    have "Fields (CHR 0x0A # Join ws [CHR 0x0A]) = Fields (Join ws [CHR 0x0A])"
      by (subst (1 2) Fields.simps) (simp add: trim_left_nl)
    then show ?thesis using False w Cons
      by (subst Fields.simps) (simp add: Join_Cons trim_left_plain word_end_plain)
  qed
qed

lemma TrimSpace_Join:
  assumes "list_all plain_word ws"
  shows "TrimSpace (Join ws [CHR 0x0A]) = Join ws [CHR 0x0A]"
proof (cases ws)
  case (Cons w ws')
  have "\<exists>c s. Join ws [CHR 0x0A] = c # s \<and> plain_char c"
    using assms Cons by (cases w) (auto simp: plain_word_def Join_Cons)
  then have l: "trim_left (Join ws [CHR 0x0A]) = Join ws [CHR 0x0A]" by (auto simp: trim_left_plain)
  obtain vs v where v: "ws = vs @ [v]" using Cons by (metis append_butlast_last_id list.distinct(1))
  then obtain u c where "v = u @ [c]" "plain_char c" using assms
    by (cases v rule: rev_cases) (auto simp: plain_word_def)
  then have "\<exists>s c. Join ws [CHR 0x0A] = s @ [c] \<and> plain_char c"
    using v by (auto simp: Join_snoc)
  then show ?thesis using l by (auto simp: TrimSpace_def trim_right_plain)
qed simp

lemma b64_val_plain: "b64_val c \<noteq> None \<Longrightarrow> plain_char c"
  by (auto simp: b64_val_def plain_char_def space1_def less_char_def less_eq_char_def Let_def
      split: if_splits)

lemma wg_accepts_plain: "wg_accepts k \<Longrightarrow> plain_word k"
proof -
  assume "wg_accepts k"
  then have k: "length k = 44" "list_all (\<lambda>c. b64_val c \<noteq> None) (take 43 k)" "k ! 43 = CHR ''=''"
    by (auto simp: wg_accepts_def wg_key_format_def)
  have "k = take 43 k @ [k ! 43]" using k(1) take_Suc_conv_app_nth [of 43 k] by simp
  moreover have "plain_char (CHR ''='')" by (simp add: plain_char_def space1_def less_char_def less_eq_char_def)
  ultimately show ?thesis
    using k by (metis (mono_tags, lifting) b64_val_plain list.pred_inject(1,2) list_all_append
        list_all_iff plain_word_def snoc_eq_iff_butlast)
qed

lemma plain_peers_snoc: "plain_peers name (h @ [c]) = plain_step name c (plain_peers name h)"
  by (simp add: plain_peers_def)

lemma plain_step_keys:
  assumes "list_all wg_accepts (map fst ps)"
  shows "list_all wg_accepts (map fst (plain_step name c ps))"
proof -
  have m: "fst ` set (map (\<lambda>(k', s). (k', f s)) ps) = fst ` set ps" for f :: "string list \<Rightarrow> string list"
    by force
  have u: "fst ` set (AList.update k [a] (map (\<lambda>(k', s). (k', removeAll a s)) ps)) = insert k (fst ` set ps)"
    for k a unfolding dom_update m by simp
  have d: "fst ` set (AList.delete k ps) \<subseteq> fst ` set ps" for k by (rule dom_delete_subset)
  have "fst ` set (plain_step name c ps) \<subseteq> fst ` set ps \<union> {k. wg_accepts k}"
    using d by (cases "(name, c, ps)" rule: plain_step.cases) (auto simp: u simp del: set_map)
  then show ?thesis using assms by (fastforce simp: list_all_iff)
qed

lemma plain_peers_keys: "list_all wg_accepts (map fst (plain_peers name h))"
proof (induction h rule: rev_induct)
  case Nil
  then show ?case by (simp add: plain_peers_def)
next
  case (snoc c h)
  then show ?case unfolding plain_peers_snoc by (rule plain_step_keys)
qed

lemma plain_wg_laws: "wg_laws (plain_wg name) name (plain_view name)"
  unfolding wg_laws_def
proof (intro conjI allI impI, goal_cases)
  case (1 h k a ep out)
  then have k: "wg_accepts k" by (auto simp: plain_wg_def add_peer_cmd_def split: if_splits)
  have m: "map_of (map (\<lambda>(k', s). (k', removeAll a s)) ps) x = map_option (removeAll a) (map_of ps x)"
    for ps :: "(string \<times> string list) list" and x
    by (induction ps) auto
  show ?case
    unfolding plain_view_def plain_peers_snoc
    using k by (auto simp: add_peer_cmd_def update_conv m fun_eq_iff option.map_comp o_def)
next
  case (2 h k out)
  then show ?case by (auto simp: plain_view_def plain_peers_snoc delete_conv)
next
  case (3 h out)
  have w: "list_all plain_word (map fst (plain_peers name h))"
    using plain_peers_keys [of name h] wg_accepts_plain by (auto simp: list_all_iff)
  have "dom (plain_view name h) = set (map fst (plain_peers name h))"
    by (auto simp: plain_view_def dom_def map_of_eq_None_iff image_iff split: option.splits)
  moreover have "out = Join (map fst (plain_peers name h)) [CHR 0x0A]" using 3 by (simp add: plain_wg_def)
  ultimately show ?case by (simp only: Fields_Join [OF w] TrimSpace_Join [OF w])
next
  case (4 h out)
  then show ?case by (simp add: plain_view_def plain_peers_snoc)
qed

definition sample_key :: string where
  "sample_key = replicate 42 (CHR ''B'') @ ''A=''"

definition sample_hub :: Hub where
  "sample_hub = \<lparr>hub_if = ''wg0'', privateKey = ''p'', interfaceAddress = ''10.0.0.1/24''\<rparr>"

definition sample_net :: db where
  "sample_net = empty_db\<lparr>users := [mk_user ''u1''],
     devices := [(mk_device ''d1'' ''u1'' ''linux'')\<lparr>d_overlay_ip := Some (IPv4 0x0A000002)\<rparr>],
     device_keys := [mk_key ''k1'' ''d1'' 1 sample_key]\<rparr>"

section \<open>The hub follows the database\<close>

text \<open>
  C8. A \<open>SyncAll\<close> that succeeds leaves on the interface exactly the peers of the database: the
  active keys of active, not directly scoped devices with an address, each allowed its own address
  and nothing else; and it does succeed when the query and every command do.
\<close>

theorem hub_reconciles:
  assumes "wg_laws sh (hub_if hub) view" "db_ok d" "overlay_v4 d"
    and "SyncAll E i sh (Some hub) d h = (ok, h')"
  shows "(ok \<longrightarrow> dom (view h') = wanted_keys d \<and>
      (\<forall>(r, k) \<in> set (peer_rows (devices d) (device_keys d)). \<forall>ip. d_overlay_ip r = Some ip \<longrightarrow>
         view h' (k_wg_public_key k) = Some {addr_string ip @ ''/32''})) \<and>
    (\<not> fails E i \<and> (\<forall>h cmd. \<exists>out. sh h cmd = Ran out) \<longrightarrow> ok)"
proof (intro conjI impI)
  assume ok: ok
  with assms(4) have S: "SyncAll E i sh (Some hub) d h = (True, h')" by simp
  show "dom (view h') = wanted_keys d" by (rule SyncAll_reconciles(1) [OF assms(1-3) S])
  show "\<forall>(r, k) \<in> set (peer_rows (devices d) (device_keys d)). \<forall>ip. d_overlay_ip r = Some ip \<longrightarrow>
         view h' (k_wg_public_key k) = Some {addr_string ip @ ''/32''}"
    using SyncAll_reconciles(2) [OF assms(1-3) S] by blast
next
  assume "\<not> fails E i \<and> (\<forall>h cmd. \<exists>out. sh h cmd = Ran out)"
  then show ok using SyncAll_runs [of sh E i hub d h] assms(4) by auto
qed

theorem hub_reconciles_witness:
  "\<exists>h'. SyncAll (calm 7 []) 0 (plain_wg ''wg0'') (Some sample_hub) sample_net [] = (True, h') \<and>
     dom (plain_view ''wg0'' h') = wanted_keys sample_net \<and>
     plain_view ''wg0'' h' sample_key = Some {''10.0.0.2/32''}"
proof -
  let ?run = "SyncAll (calm 7 []) 0 (plain_wg ''wg0'') (Some sample_hub) sample_net []"
  have ok: "db_ok sample_net" "overlay_v4 sample_net" by code_simp+
  have "fst ?run" by code_simp
  then obtain h' where h': "?run = (True, h')" by (cases ?run) auto
  have L: "wg_laws (plain_wg ''wg0'') (hub_if sample_hub) (plain_view ''wg0'')"
    using plain_wg_laws by (simp add: sample_hub_def)
  have "map_of (plain_peers ''wg0'' (snd ?run)) sample_key = Some [''10.0.0.2/32'']" by code_simp
  then have "plain_view ''wg0'' h' sample_key = Some {''10.0.0.2/32''}"
    unfolding h' by (simp add: plain_view_def)
  then show ?thesis using hub_reconciles [OF L ok h'] h' by blast
qed

end
