(* ===== verification/Server.thy ===== *)
theory Server
  imports Ratelimit Hub
begin

text \<open>
  What the HTTP handlers share: the state of the server (database, limiter, commands run on the
  WireGuard interface), the dependencies a handler is built with, the claims of a request, and the
  two helpers every package repeats (\<open>allowRateLimit\<close> and writing an audit event).
\<close>

section \<open>State and dependencies\<close>

record 'r world =
  w_db :: db
  w_limiter :: "'r limiter"
  w_cmds :: history
  w_events :: "(string \<times> string \<times> string) list"

text \<open>
  \<open>w_events\<close> are the messages published to Redis: channel, type of the event and the session it
  carries.

  The cryptography of the standard library and of the packages the code imports: hashes, password
  hashing, HMAC, random bytes (the \<open>n\<close>-th read of a request) and signed tokens.
\<close>

record sessionClaims =
  sc_capability_kind :: string
  sc_direct_home_id :: string
  sc_is_super :: bool
  sc_issuer :: string
  sc_subject :: string
  sc_id :: string
  sc_audience :: "string list"
  sc_issued_at :: "time option"
  sc_expires_at :: time

record crypto =
  sha256 :: "string \<Rightarrow> string"
  bcrypt_hash :: "string \<Rightarrow> string option"
  bcrypt_ok :: "string \<Rightarrow> string \<Rightarrow> bool"
  hmac_sha1 :: "string \<Rightarrow> string \<Rightarrow> nat list"
  rand_bytes :: "nat \<Rightarrow> nat list option"
  rand_int :: "nat \<Rightarrow> nat option"
  jwt_sign :: "string \<Rightarrow> sessionClaims \<Rightarrow> string option"
  jwt_parse :: "string \<Rightarrow> time \<Rightarrow> string \<Rightarrow> sessionClaims option"
  unicode_upper :: "string \<Rightarrow> string"
  unicode_lower :: "string \<Rightarrow> string"
  unicode_nonprint :: "string \<Rightarrow> bool"

record 'r handler =
  h_cfg :: Config
  h_overlay :: "Allocator option"
  h_audit :: bool
  h_hub :: "Hub option"
  h_redis :: "'r redis_ops"
  h_shell :: shell
  h_crypto :: crypto
  h_rdb :: bool

record Claims =
  CapabilityKind :: string
  SessionID :: string
  Sub :: string
  IsSuper :: bool
  Audience :: "string list"
  ExpiresAt :: time
  DirectHomeID :: string

text \<open>The subject of a request's claims; a request without claims has none.\<close>

definition claims_sub :: "Claims option \<Rightarrow> string" where
  "claims_sub cl = (case cl of None \<Rightarrow> [] | Some c \<Rightarrow> Sub c)"

definition HasAudience :: "Claims \<Rightarrow> string \<Rightarrow> bool" where
  "HasAudience c audience = list_ex (\<lambda>a. a = audience) (Audience c)"

section \<open>Helpers of the handlers\<close>

text \<open>Bytes as a Go string.\<close>

definition bytes_string :: "nat list \<Rightarrow> string" where
  "bytes_string bs = map char_of bs"

fun hex_bytes :: "string \<Rightarrow> string" where
  "hex_bytes [] = []"
| "hex_bytes (c # cs) = (let n = of_char c :: nat in
     ''0123456789abcdef'' ! (n div 16) # ''0123456789abcdef'' ! (n mod 16) # hex_bytes cs)"

definition HashToken :: "crypto \<Rightarrow> string \<Rightarrow> string" where
  "HashToken C value = hex_bytes (sha256 C (TrimSpace value))"

text \<open>
  \<open>strings.ToUpper\<close> and \<open>ToLower\<close>: the ASCII case is spelled out, the tables of Unicode are
  arguments.
\<close>

definition ascii_upper :: "char \<Rightarrow> char" where
  "ascii_upper c = (if CHR ''a'' \<le> c \<and> c \<le> CHR ''z'' then char_of (of_char c - 32 :: nat) else c)"

definition ascii_lower :: "char \<Rightarrow> char" where
  "ascii_lower c = (if CHR ''A'' \<le> c \<and> c \<le> CHR ''Z'' then char_of (of_char c + 32 :: nat) else c)"

definition is_ascii :: "string \<Rightarrow> bool" where
  "is_ascii s \<longleftrightarrow> list_all (\<lambda>c. c < CHR 0x80) s"

definition ToUpper :: "crypto \<Rightarrow> string \<Rightarrow> string" where
  "ToUpper C s = (if is_ascii s then map ascii_upper s else unicode_upper C s)"

definition ToLower :: "crypto \<Rightarrow> string \<Rightarrow> string" where
  "ToLower C s = (if is_ascii s then map ascii_lower s else unicode_lower C s)"

definition rate_limit :: "'r handler \<Rightarrow> env \<Rightarrow> nat \<Rightarrow> string \<Rightarrow> int \<Rightarrow> duration \<Rightarrow> 'r world \<Rightarrow>
    'a response option \<times> 'r world" where
  "rate_limit H E i key limit window w =
     (case allowRateLimit (h_redis H) (fails E i) key limit window (clock E) (w_limiter w) of
        (res, l) \<Rightarrow> (res, w\<lparr>w_limiter := l\<rparr>))"

text \<open>The audit event of a handler; an error is logged and ignored.\<close>

definition log_event :: "'r handler \<Rightarrow> env \<Rightarrow> nat \<Rightarrow> Event \<Rightarrow> 'r world \<Rightarrow> 'r world" where
  "log_event H E i evt w = (if h_audit H then w\<lparr>w_db := snd (audit_Log E i evt (w_db w))\<rparr> else w)"

definition client_ip :: "'r handler \<Rightarrow> http_req \<Rightarrow> string" where
  "client_ip H r = ClientIP r (TrustedProxyCIDRs (h_cfg H))"

definition user_event :: "'r handler \<Rightarrow> http_req \<Rightarrow> string \<Rightarrow> string \<Rightarrow> string \<Rightarrow> string option \<Rightarrow> Event" where
  "user_event H r sub act tbl target =
     \<lparr>ActorUserID = Some sub, ActorDeviceID = None, Action = act, Outcome = ''success'',
      TargetTable = tbl, TargetID = target, RemoteIP = client_ip H r,
      EventAgent = TruncateUserAgent (UserAgent r), Metadata = []\<rparr>"

definition sync_all :: "'r handler \<Rightarrow> env \<Rightarrow> nat \<Rightarrow> 'r world \<Rightarrow> bool \<times> 'r world" where
  "sync_all H E i w =
     (case SyncAll E i (h_shell H) (h_hub H) (w_db w) (w_cmds w) of (ok, h) \<Rightarrow> (ok, w\<lparr>w_cmds := h\<rparr>))"

definition sync_device :: "'r handler \<Rightarrow> env \<Rightarrow> nat \<Rightarrow> string \<Rightarrow> 'r world \<Rightarrow> bool \<times> 'r world" where
  "sync_device H E i dev w =
     (case SyncDevice E i (h_shell H) (h_hub H) dev (w_db w) (w_cmds w) of (ok, h) \<Rightarrow> (ok, w\<lparr>w_cmds := h\<rparr>))"

lemma rate_limit_db [simp]: "w_db (snd (rate_limit H E i k n d w)) = w_db w"
  "w_cmds (snd (rate_limit H E i k n d w)) = w_cmds w"
  by (simp_all add: rate_limit_def split: prod.splits)

lemma sync_db [simp]:
  "w_db (snd (sync_all H E i w)) = w_db w" "w_db (snd (sync_device H E i dev w)) = w_db w"
  "w_limiter (snd (sync_all H E i w)) = w_limiter w"
  "w_limiter (snd (sync_device H E i dev w)) = w_limiter w"
  by (simp_all add: sync_all_def sync_device_def split: prod.splits)

lemma log_event_ok [inv_pres]: "db_ok (w_db w) \<Longrightarrow> db_ok (w_db (log_event H E i evt w))"
  by (simp add: log_event_def audit_Log_ok)

lemma log_event_same [simp]:
  "users (w_db (log_event H E i evt w)) = users (w_db w)"
  "devices (w_db (log_event H E i evt w)) = devices (w_db w)"
  "device_keys (w_db (log_event H E i evt w)) = device_keys (w_db w)"
  "pair_codes (w_db (log_event H E i evt w)) = pair_codes (w_db w)"
  "services (w_db (log_event H E i evt w)) = services (w_db w)"
  "connect_sessions (w_db (log_event H E i evt w)) = connect_sessions (w_db w)"
  "uoa_sessions (w_db (log_event H E i evt w)) = uoa_sessions (w_db w)"
  "handoff_codes (w_db (log_event H E i evt w)) = handoff_codes (w_db w)"
  "home_grants (w_db (log_event H E i evt w)) = home_grants (w_db w)"
  "w_cmds (log_event H E i evt w) = w_cmds w" "w_limiter (log_event H E i evt w) = w_limiter w"
  by (simp_all add: log_event_def)

text \<open>The database without its audit trail, which every handler may extend.\<close>

definition core :: "'r world \<Rightarrow> db" where
  "core w = (w_db w)\<lparr>audit_events := []\<rparr>"

lemma core_log_event [simp]: "core (log_event H E i evt w) = core w"
  by (auto simp: core_def log_event_def audit_Log_def split: option.splits)

lemma core_cong: "w_db w = w_db w' \<Longrightarrow> core w = core w'"
  by (simp add: core_def)

lemma core_sync [simp]:
  "core (snd (sync_all H E i w)) = core w" "core (snd (sync_device H E i dev w)) = core w"
  "core (snd (rate_limit H E i k n t w)) = core w"
  by (simp_all add: core_def)

lemma core_same:
  assumes "core w = core w'"
  shows "devices (w_db w) = devices (w_db w')" "device_keys (w_db w) = device_keys (w_db w')"
    "pair_codes (w_db w) = pair_codes (w_db w')" "users (w_db w) = users (w_db w')"
  using assms by (cases "w_db w"; cases "w_db w'"; simp add: core_def)+

lemma rate_limit_result:
  assumes "rate_limit H E i k n d w = (x, v)"
  shows "w_db v = w_db w" "w_cmds v = w_cmds w"
    "x = None \<or> x = Some (Error 503 ''rate limiting unavailable'') \<or> (\<exists>s. x = Some (RateLimited s))"
  using assms
  by (auto simp: rate_limit_def allowRateLimit_def split: prod.splits sum.splits if_splits)

end
