(* ===== verification/Middleware.thy ===== *)
theory Middleware
  imports Server
begin

text \<open>
  Authentication (\<open>internal/auth/middleware.go\<close>, \<open>session_validator.go\<close>, \<open>session_token.go\<close>,
  \<open>rafiki_capability.go\<close>): minting and checking session tokens, the middleware in front of every
  protected route and the audience gate. The JWT library is an argument (\<open>jwt_sign\<close>, \<open>jwt_parse\<close>).
\<close>

definition Issuer :: string where "Issuer = ''selkie''"
definition AudienceAdmin :: string where "AudienceAdmin = ''admin''"
definition AudienceMobile :: string where "AudienceMobile = ''mobile''"
definition JWTLeeway :: duration where "JWTLeeway = 30 * Second"
definition jwtIATSkew :: duration where "jwtIATSkew = JWTLeeway"
definition rejectAuditLimit :: int where "rejectAuditLimit = 30"
definition rejectAuditWindow :: duration where "rejectAuditWindow = Minute"

definition sessionTokenTTL :: duration where "sessionTokenTTL = 24 * Hour"

section \<open>Tokens\<close>

text \<open>A numeric date of a token has whole seconds.\<close>

definition NumericDate :: "time \<Rightarrow> time" where
  "NumericDate t = t div Second * Second"

definition mintSessionTokenUntil :: "'r handler \<Rightarrow> time \<Rightarrow> string \<Rightarrow> bool \<Rightarrow> string \<Rightarrow> string list \<Rightarrow> time \<Rightarrow>
    string option" where
  "mintSessionTokenUntil H now userID isSuper sessionID audience expiresAt =
     (if sessionID = [] \<or> audience = [] then None
      else jwt_sign (h_crypto H) (InternalSessionSecret (h_cfg H))
        \<lparr>sc_capability_kind = [], sc_direct_home_id = [], sc_is_super = isSuper, sc_issuer = Issuer,
         sc_subject = userID, sc_id = sessionID, sc_audience = audience,
         sc_issued_at = Some (NumericDate now), sc_expires_at = NumericDate expiresAt\<rparr>)"

definition mintSessionToken :: "'r handler \<Rightarrow> time \<Rightarrow> string \<Rightarrow> bool \<Rightarrow> string \<Rightarrow> string list \<Rightarrow> string option" where
  "mintSessionToken H now userID isSuper sessionID audience =
     mintSessionTokenUntil H now userID isSuper sessionID audience (now + sessionTokenTTL)"

text \<open>\<open>authenticateBearer\<close>: the claims, or the reason of the rejection.\<close>

definition authenticateBearer :: "crypto \<Rightarrow> time \<Rightarrow> string \<Rightarrow> string \<Rightarrow> string + Claims" where
  "authenticateBearer C now header secret =
     (let auth = TrimSpace header in
      if auth = [] then Inl ''missing_authorization''
      else let tokenString = TrimSpace (TrimPrefix auth ''Bearer '') in
        if tokenString = auth \<or> tokenString = [] then Inl ''missing_bearer_scheme''
        else (case jwt_parse C secret now tokenString of None \<Rightarrow> Inl ''invalid_token''
              | Some p \<Rightarrow>
                  if sc_subject p = [] then Inl ''invalid_token''
                  else if (case sc_issued_at p of None \<Rightarrow> False | Some iat \<Rightarrow> now + jwtIATSkew < iat)
                  then Inl ''iat_in_future''
                  else let claims =
                    \<lparr>CapabilityKind = sc_capability_kind p, SessionID = sc_id p, Sub = sc_subject p,
                     IsSuper = sc_is_super p, Audience = sc_audience p, ExpiresAt = sc_expires_at p,
                     DirectHomeID = sc_direct_home_id p\<rparr> in
                    if \<not> HasAudience claims AudienceAdmin \<and> \<not> HasAudience claims AudienceMobile
                    then Inl ''unrecognized_audience'' else Inr claims))"

section \<open>The middleware\<close>

datatype session_error = SessionUnavailable | SessionExpired | SessionClosing

text \<open>Whether a rejection leaves an audit row.\<close>

definition shouldAuditReject :: "'r handler \<Rightarrow> env \<Rightarrow> nat \<Rightarrow> string \<Rightarrow> 'r world \<Rightarrow> bool \<times> 'r world" where
  "shouldAuditReject H E i ip w =
     (if w_limiter w = NilLimiter \<or> ip = [] then (True, w)
      else (case limiter_Allow (h_redis H) (fails E i) (Key [''auth'', ''reject'', ''ip'', RateLimitIP ip])
              rejectAuditLimit rejectAuditWindow (clock E) (w_limiter w) of
              (Inl e, l) \<Rightarrow> (e \<noteq> ErrMemoryLimiterOverloaded, w\<lparr>w_limiter := l\<rparr>)
            | (Inr d, l) \<Rightarrow> (Allowed d, w\<lparr>w_limiter := l\<rparr>)))"

definition reject :: "'r handler \<Rightarrow> env \<Rightarrow> nat \<Rightarrow> http_req \<Rightarrow> string \<Rightarrow> 'r world \<Rightarrow> 'a response \<times> 'r world" where
  "reject H E i r reason w =
     (Error 401 ''unauthorized'',
      if \<not> h_audit H then w
      else (case shouldAuditReject H E i (client_ip H r) w of
              (False, w') \<Rightarrow> w'
            | (True, w') \<Rightarrow> log_event H E (i + 1)
                \<lparr>ActorUserID = None, ActorDeviceID = None, Action = ''auth.middleware.reject'',
                 Outcome = ''deny'', TargetTable = [], TargetID = None, RemoteIP = client_ip H r,
                 EventAgent = TruncateUserAgent (UserAgent r), Metadata = [(''reason'', reason)]\<rparr> w'))"

text \<open>
  \<open>Middleware\<close>: \<open>validate\<close> is the session validator (\<^const>\<open>None\<close> when none is configured), which
  works on the whole state, and \<open>next\<close> the handler behind the middleware.
\<close>

definition Middleware :: "'r handler \<Rightarrow> env \<Rightarrow> nat \<Rightarrow>
    (Claims \<Rightarrow> 'r world \<Rightarrow> (session_error + Claims) \<times> 'r world) option \<Rightarrow> http_req \<Rightarrow>
    (Claims \<Rightarrow> 'r world \<Rightarrow> 'a response \<times> 'r world) \<Rightarrow> 'r world \<Rightarrow> 'a response \<times> 'r world" where
  "Middleware H E i validate r nxt w =
     (case authenticateBearer (h_crypto H) (clock E) (authorization r) (InternalSessionSecret (h_cfg H)) of
        Inl reason \<Rightarrow> reject H E i r reason w
      | Inr claims \<Rightarrow>
          (case (case validate of None \<Rightarrow> (Inl SessionExpired, w) | Some f \<Rightarrow> f claims w) of
             (Inl SessionExpired, w') \<Rightarrow> reject H E i r ''expired_session'' w'
           | (Inl e, w') \<Rightarrow> (Error 503 ''session temporarily unavailable'', w')
           | (Inr claims', w') \<Rightarrow> nxt claims' w'))"

definition RequireAudience :: "string \<Rightarrow> (Claims \<Rightarrow> 'w \<Rightarrow> 'a response \<times> 'w) \<Rightarrow> Claims \<Rightarrow> 'w \<Rightarrow>
    'a response \<times> 'w" where
  "RequireAudience audience nxt claims w =
     (if \<not> HasAudience claims audience then (Error 401 ''unauthorized'', w) else nxt claims w)"

section \<open>The Rafiki capability\<close>

definition RafikiDirectCapability :: string where "RafikiDirectCapability = ''rafiki_direct_home''"

definition validRafikiDirect :: "Config \<Rightarrow> Claims \<Rightarrow> time \<Rightarrow> bool" where
  "validRafikiDirect cfg claims now \<longleftrightarrow>
     RafikiServiceKey cfg \<noteq> [] \<and> RafikiHomeDeviceID cfg \<noteq> [] \<and>
     CapabilityKind claims = RafikiDirectCapability \<and> SessionID claims = [] \<and>
     Sub claims \<noteq> [] \<and> \<not> IsSuper claims \<and> DirectHomeID claims = RafikiHomeDeviceID cfg \<and>
     length (Audience claims) = 1 \<and> HasAudience claims AudienceMobile \<and>
     now < ExpiresAt claims \<and> \<not> now + 5 * Minute < ExpiresAt claims"

definition validateRafikiDirect :: "env \<Rightarrow> nat \<Rightarrow> Config \<Rightarrow> Claims \<Rightarrow> db \<Rightarrow> session_error + Claims" where
  "validateRafikiDirect E i cfg claims d =
     (if \<not> validRafikiDirect cfg claims (clock E) then Inl SessionExpired
      else if fails E i then Inl SessionUnavailable
      else if \<not> (list_ex (\<lambda>u. u_id u = Sub claims \<and> u_status u = ''active'') (users d) \<and>
                 list_ex (\<lambda>r. d_id r = DirectHomeID claims \<and> d_status r = ''active'' \<and>
                    d_direct_home_port r \<noteq> None) (devices d))
      then Inl SessionExpired
      else Inr claims)"

section \<open>Tokens are what was minted\<close>

text \<open>
  What the JWT library promises: a token it signed parses back under the same secret until it
  expires (with the leeway), a token is a non-empty word of base64url characters and dots, and
  whatever parses carries the issuer and an expiry not yet over.
\<close>

definition jwt_laws :: "crypto \<Rightarrow> bool" where
  "jwt_laws C \<longleftrightarrow>
     (\<forall>k c t now. jwt_sign C k c = Some t \<longrightarrow> sc_issuer c = Issuer \<longrightarrow> now < sc_expires_at c + JWTLeeway \<longrightarrow>
        jwt_parse C k now t = Some c) \<and>
     (\<forall>k c t. jwt_sign C k c = Some t \<longrightarrow> plain_word t) \<and>
     (\<forall>k t now c. jwt_parse C k now t = Some c \<longrightarrow> sc_issuer c = Issuer \<and> now < sc_expires_at c + JWTLeeway)"

lemma bearer_token:
  assumes "plain_word t"
  shows "TrimSpace (''Bearer '' @ t) = ''Bearer '' @ t"
    and "TrimSpace (TrimPrefix (''Bearer '' @ t) ''Bearer '') = t"
    and "t \<noteq> ''Bearer '' @ t"
proof -
  have B: "plain_char (CHR ''B'')" by (simp add: plain_char_def space1_def less_char_def less_eq_char_def)
  have t: "t \<noteq> []" "plain_char (hd t)" "plain_char (last t)"
    using assms by (auto simp: plain_word_def list_all_iff)
  then show "TrimSpace (''Bearer '' @ t) = ''Bearer '' @ t" using B by (intro TrimSpace_plain) auto
  show "TrimSpace (TrimPrefix (''Bearer '' @ t) ''Bearer '') = t"
    using TrimSpace_plain [OF t] by (simp add: TrimPrefix_def)
  have "length t \<noteq> length (''Bearer '' @ t)" by simp
  then show "t \<noteq> ''Bearer '' @ t" by metis
qed

text \<open>
  A session token stands for what it was minted with: presented as a bearer token before it
  expires, it authenticates as the user, session, audience and super flag it was minted for, with
  no capability kind and no home scope.
\<close>

theorem minted_token_authenticates:
  assumes "jwt_laws (h_crypto H)" "mintSessionTokenUntil H now u s sid aud exp = Some t"
    and "u \<noteq> []" "AudienceAdmin \<in> set aud \<or> AudienceMobile \<in> set aud"
    and "now \<le> now'" "now' < NumericDate exp + JWTLeeway"
  shows "authenticateBearer (h_crypto H) now' (''Bearer '' @ t) (InternalSessionSecret (h_cfg H)) =
    Inr \<lparr>CapabilityKind = [], SessionID = sid, Sub = u, IsSuper = s, Audience = aud,
         ExpiresAt = NumericDate exp, DirectHomeID = []\<rparr>"
proof -
  let ?c = "\<lparr>sc_capability_kind = [], sc_direct_home_id = [], sc_is_super = s, sc_issuer = Issuer,
    sc_subject = u, sc_id = sid, sc_audience = aud, sc_issued_at = Some (NumericDate now),
    sc_expires_at = NumericDate exp\<rparr>"
  have t: "jwt_sign (h_crypto H) (InternalSessionSecret (h_cfg H)) ?c = Some t"
    using assms(2) by (simp add: mintSessionTokenUntil_def split: if_splits)
  have p: "jwt_parse (h_crypto H) (InternalSessionSecret (h_cfg H)) now' t = Some ?c" "plain_word t"
    using assms(1,6) t unfolding jwt_laws_def by auto
  have "NumericDate now \<le> now"
    using div_mult_mod_eq [of now Second] pos_mod_sign [of Second now]
    by (simp add: NumericDate_def Second_def)
  then have "\<not> now' + jwtIATSkew < NumericDate now"
    using assms(5) by (simp add: jwtIATSkew_def JWTLeeway_def Second_def)
  then show ?thesis
    using p assms(3,4) bearer_token [OF p(2)]
    by (auto simp: authenticateBearer_def Let_def HasAudience_def list_ex_iff plain_word_def)
qed

text \<open>
  Only authenticated requests pass the middleware: if the handler behind it is reached, the
  header carried a token that the secret verifies, issued by this server, not expired beyond the
  leeway and not from the future, for a non-empty subject and a known audience, and the session
  validator accepted its claims; the handler sees the validator's claims. In every other case the
  answer is 401 or 503 and the handler does not run.
\<close>

theorem middleware_gate:
  assumes "jwt_laws (h_crypto H)"
  shows "(\<exists>claims claims' w'.
      authenticateBearer (h_crypto H) (clock E) (authorization r) (InternalSessionSecret (h_cfg H)) = Inr claims \<and>
      Sub claims \<noteq> [] \<and> clock E < ExpiresAt claims + JWTLeeway \<and>
      (HasAudience claims AudienceAdmin \<or> HasAudience claims AudienceMobile) \<and>
      (\<exists>f. validate = Some f \<and> f claims w = (Inr claims', w')) \<and>
      Middleware H E i validate r nxt w = nxt claims' w') \<or>
    fst (Middleware H E i validate r nxt w) \<in>
      {Error 401 ''unauthorized'', Error 503 ''session temporarily unavailable''}"
proof (cases "authenticateBearer (h_crypto H) (clock E) (authorization r) (InternalSessionSecret (h_cfg H))")
  case (Inl reason)
  then show ?thesis by (simp add: Middleware_def reject_def)
next
  case (Inr claims)
  have c: "Sub claims \<noteq> []" "clock E < ExpiresAt claims + JWTLeeway"
    "HasAudience claims AudienceAdmin \<or> HasAudience claims AudienceMobile"
    using Inr assms
    by (auto simp: authenticateBearer_def Let_def jwt_laws_def split: option.splits if_splits)
  show ?thesis
  proof (cases validate)
    case None
    then show ?thesis using Inr by (simp add: Middleware_def reject_def)
  next
    case (Some f)
    then show ?thesis
      using Inr c by (cases "f claims w"; cases "fst (f claims w)")
        (auto simp: Middleware_def reject_def split: session_error.splits)
  qed
qed

text \<open>A token library for the witnesses: the token is a fixed word and its claims are fixed.\<close>

definition sample_claims :: sessionClaims where
  "sample_claims = \<lparr>sc_capability_kind = [], sc_direct_home_id = [], sc_is_super = False, sc_issuer = Issuer,
     sc_subject = ''u1'', sc_id = ''s1'', sc_audience = [''admin''], sc_issued_at = Some 0,
     sc_expires_at = 60 * Second\<rparr>"

definition sample_crypto :: crypto where
  "sample_crypto = \<lparr>sha256 = (\<lambda>s. take 32 (s @ replicate 32 (CHR ''0''))),
     bcrypt_hash = Some, bcrypt_ok = (=), hmac_sha1 = (\<lambda>k m. []),
     rand_bytes = (\<lambda>n. Some (replicate 32 n)), rand_int = (\<lambda>n. Some (n mod 26)),
     jwt_sign = (\<lambda>k c. if c = sample_claims then Some ''token'' else None),
     jwt_parse = (\<lambda>k now t. if t = ''token'' \<and> now < 90 * Second then Some sample_claims else None),
     unicode_upper = id, unicode_lower = id, unicode_nonprint = (\<lambda>s. False)\<rparr>"

lemma sample_jwt_laws: "jwt_laws sample_crypto"
  by (auto simp: jwt_laws_def sample_crypto_def sample_claims_def JWTLeeway_def Second_def plain_word_def
      plain_char_def space1_def less_char_def less_eq_char_def split: if_splits)

definition sample_cfg :: Config where
  "sample_cfg = (projr (Load sample_vars))
     \<lparr>WGOverlayCIDR := ''10.0.0.0/24'', WGServerPublicKey := sample_key, WGServerEndpoint := ''vpn'',
      CoturnSecret := ''turn'', RafikiServiceKey := ''r'', RafikiHomeDeviceID := ''h1''\<rparr>"

definition sample_handler :: "redis_store handler" where
  "sample_handler = \<lparr>h_cfg = sample_cfg, h_overlay = Some sample_pool, h_audit = True,
     h_hub = Some sample_hub, h_redis = plain_redis, h_shell = plain_wg ''wg0'', h_crypto = sample_crypto, h_rdb = True\<rparr>"

definition sample_world :: "db \<Rightarrow> redis_store world" where
  "sample_world d = \<lparr>w_db = d, w_limiter = OnRedis Map.empty, w_cmds = [], w_events = []\<rparr>"

definition sample_req :: http_req where
  "sample_req = \<lparr>RemoteAddr = ''192.0.2.7:4000'', forwarded = [], UserAgent = ''ua'',
     authorization = ''Bearer token''\<rparr>"

theorem minted_token_authenticates_witness:
  "mintSessionTokenUntil sample_handler 0 ''u1'' False ''s1'' [''admin''] (60 * Second) = Some ''token'' \<and>
   authenticateBearer sample_crypto 80000000000 (''Bearer '' @ ''token'') (InternalSessionSecret sample_cfg) =
     Inr \<lparr>CapabilityKind = [], SessionID = ''s1'', Sub = ''u1'', IsSuper = False, Audience = [''admin''],
          ExpiresAt = 60 * Second, DirectHomeID = []\<rparr>"
proof -
  have m: "mintSessionTokenUntil sample_handler 0 ''u1'' False ''s1'' [''admin''] (60 * Second) = Some ''token''"
    by code_simp
  have j: "jwt_laws (h_crypto sample_handler)" by (simp add: sample_handler_def sample_jwt_laws)
  have "80000000000 < NumericDate (60 * Second) + JWTLeeway" "NumericDate (60 * Second) = 60 * Second"
    by (simp_all add: NumericDate_def Second_def JWTLeeway_def)
  then show ?thesis
    using minted_token_authenticates [OF j m, of 80000000000] m
    by (simp add: AudienceAdmin_def sample_handler_def)
qed

theorem middleware_gate_witness:
  "Middleware sample_handler (calm 5 []) 0 (Some (\<lambda>c w. (Inr c, w))) sample_req
     (\<lambda>c w. (Reply 200 (Sub c), w)) (sample_world empty_db) = (Reply 200 ''u1'', sample_world empty_db) \<and>
   (\<exists>claims. authenticateBearer sample_crypto 5 ''Bearer token'' (InternalSessionSecret sample_cfg) = Inr claims \<and>
     Sub claims \<noteq> [] \<and> 5 < ExpiresAt claims + JWTLeeway)"
proof -
  let ?run = "Middleware sample_handler (calm 5 []) 0 (Some (\<lambda>c w. (Inr c, w))) sample_req
     (\<lambda>c w. (Reply 200 (Sub c), w)) (sample_world empty_db)"
  have a: "authenticateBearer sample_crypto 5 ''Bearer token'' (InternalSessionSecret sample_cfg) =
    Inr \<lparr>CapabilityKind = [], SessionID = ''s1'', Sub = ''u1'', IsSuper = False, Audience = [''admin''],
          ExpiresAt = 60 * Second, DirectHomeID = []\<rparr>" by code_simp
  have run: "?run = (Reply 200 ''u1'', sample_world empty_db)"
    using a by (simp add: Middleware_def sample_handler_def sample_req_def)
  have j: "jwt_laws (h_crypto sample_handler)" by (simp add: sample_handler_def sample_jwt_laws)
  show ?thesis
    using middleware_gate [OF j, of "calm 5 []" sample_req "Some (\<lambda>c w. (Inr c, w))" "sample_world empty_db" 0
        "\<lambda>c w. (Reply 200 (Sub c), w)"] run a
    by (auto simp: sample_handler_def sample_req_def)
qed

text \<open>
  A direct-home capability never outlives five minutes and never escapes its home: when it is
  accepted, it is not expired, expires within five minutes, belongs to an active user, is not
  super, carries the mobile audience only and no session, and names exactly the configured home
  device, which is active and has its direct port.
\<close>

theorem rafiki_capability_bounded:
  assumes "validateRafikiDirect E i cfg claims d = Inr c"
  shows "c = claims \<and> clock E < ExpiresAt claims \<and> ExpiresAt claims \<le> clock E + 5 * Minute \<and>
    Audience claims = [AudienceMobile] \<and> SessionID claims = [] \<and> \<not> IsSuper claims \<and>
    DirectHomeID claims = RafikiHomeDeviceID cfg \<and>
    (\<exists>u \<in> set (users d). u_id u = Sub claims \<and> u_status u = ''active'') \<and>
    (\<exists>h \<in> set (devices d). d_id h = RafikiHomeDeviceID cfg \<and> d_status h = ''active'' \<and>
       d_direct_home_port h \<noteq> None)"
  using assms
  by (cases "Audience claims")
    (auto simp: validateRafikiDirect_def validRafikiDirect_def HasAudience_def list_ex_iff split: if_splits)

definition sample_home_claims :: Claims where
  "sample_home_claims = \<lparr>CapabilityKind = ''rafiki_direct_home'', SessionID = [], Sub = ''u1'', IsSuper = False,
     Audience = [''mobile''], ExpiresAt = 5 * Minute, DirectHomeID = ''h1''\<rparr>"

definition sample_home_db :: db where
  "sample_home_db = empty_db\<lparr>users := [mk_user ''u1''],
     devices := [(mk_device ''h1'' ''u1'' ''linux'')\<lparr>d_direct_home_port := Some 51820\<rparr>]\<rparr>"

theorem rafiki_capability_bounded_witness:
  "db_ok sample_home_db \<and>
   validateRafikiDirect (calm 9 []) 0 sample_cfg sample_home_claims sample_home_db = Inr sample_home_claims \<and>
   ExpiresAt sample_home_claims \<le> 9 + 5 * Minute"
proof -
  have v: "db_ok sample_home_db"
    "validateRafikiDirect (calm 9 []) 0 sample_cfg sample_home_claims sample_home_db = Inr sample_home_claims"
    by code_simp+
  from rafiki_capability_bounded [OF v(2)] v show ?thesis by simp
qed

end
