(* ===== verification/Devices.thy ===== *)
theory Devices
  imports Middleware
begin

text \<open>
  Package \<open>internal/devices\<close>: pairing (\<open>handler.go\<close>, \<open>claim.go\<close>), the list, heartbeat and revocation
  of devices (\<open>handler.go\<close>), key rotation (\<open>keys.go\<close>) and the peer configuration (\<open>peerconfig.go\<close>).
  A handler gets the claims the middleware stored, the decoded request (\<^const>\<open>None\<close> when decoding
  fails) and the state; the external calls of a request are numbered from 0 in program order.
\<close>

definition pairStartLimit :: int where "pairStartLimit = 10"
definition pairStartWindow :: duration where "pairStartWindow = Minute"
definition deviceHeartbeatLimit :: int where "deviceHeartbeatLimit = 3"
definition deviceHeartbeatWindow :: duration where "deviceHeartbeatWindow = Minute"
definition pairClaimFailureLimit :: int where "pairClaimFailureLimit = 5"
definition pairClaimCodeLockWindow :: duration where "pairClaimCodeLockWindow = 15 * Minute"
definition pairClaimSourceLockWindow :: duration where "pairClaimSourceLockWindow = Hour"

section \<open>Pairing\<close>

record pairStartRequest =
  ps_WGPublicKey :: string
  ps_Hostname :: string
  ps_OSPlatform :: string
  ps_OSArch :: string
  ps_AgentVersion :: string

definition alphabet :: string where "alphabet = ''ABCDEFGHIJKLMNOPQRSTUVWXYZ''"

text \<open>\<open>crand.Int\<close> answers below its bound; the reads of a request are numbered.\<close>

fun randomCode :: "(nat \<Rightarrow> nat option) \<Rightarrow> nat \<Rightarrow> nat \<Rightarrow> string option" where
  "randomCode rnd j 0 = Some []"
| "randomCode rnd j (Suc n) =
     (case rnd j of None \<Rightarrow> None
      | Some k \<Rightarrow> map_option (\<lambda>s. alphabet ! k # s) (randomCode rnd (j + 1) n))"

definition pair_code_row :: "env \<Rightarrow> string \<Rightarrow> pairStartRequest \<Rightarrow> string \<Rightarrow> pair_code" where
  "pair_code_row E i req hash =
     \<lparr>pc_id = i, pc_code_hash = hash, pc_hostname = ps_Hostname req, pc_wg_public_key = ps_WGPublicKey req,
      pc_agent_version = ps_AgentVersion req, pc_os_platform = ps_OSPlatform req,
      pc_os_arch = ps_OSArch req, pc_status = ''pending'', pc_fail_count = 0, pc_locked_until = None,
      pc_claimant = None, pc_claimed_device = None, pc_claimed_at = None,
      pc_expires_at = clock E + 10 * Minute, pc_created_at = clock E\<rparr>"

text \<open>The five tries; \<open>n\<close> are left.\<close>

fun pair_start_tries :: "'r handler \<Rightarrow> env \<Rightarrow> pairStartRequest \<Rightarrow> nat \<Rightarrow> 'r world \<Rightarrow>
    string response \<times> 'r world" where
  "pair_start_tries H E req 0 w = (Error 500 ''failed to create pair code'', w)"
| "pair_start_tries H E req (Suc n) w =
     (case randomCode (rand_int (h_crypto H)) (6 * (4 - n)) 6 of
        None \<Rightarrow> (Error 500 ''failed to create pair code'', w)
      | Some code \<Rightarrow>
          (case Option.bind (bytea_in E code) (\<lambda>b. statement (fails E (5 - n))
              ((w_db w)\<lparr>pair_codes := pair_codes (w_db w) @
                 [pair_code_row E (gen_uuid E (4 - n)) req (sha256 (h_crypto H) b)]\<rparr>)) of
             Some d \<Rightarrow> (Reply 200 code, w\<lparr>w_db := d\<rparr>)
           | None \<Rightarrow> pair_start_tries H E req n w))"

definition handlePairStart :: "'r handler \<Rightarrow> env \<Rightarrow> Claims option \<Rightarrow> http_req \<Rightarrow> pairStartRequest option \<Rightarrow>
    'r world \<Rightarrow> string response \<times> 'r world" where
  "handlePairStart H E cl r body w =
     (if claims_sub cl = [] then (Error 401 ''unauthorized'', w)
      else (case body of None \<Rightarrow> (Error 400 ''invalid request body'', w)
            | Some req \<Rightarrow>
                if ps_WGPublicKey req = [] \<or> ps_Hostname req = [] \<or> ps_OSPlatform req = [] \<or>
                   ps_OSArch req = [] \<or> ps_AgentVersion req = []
                then (Error 400 ''missing required fields'', w)
                else (case rate_limit H E 0
                        (Key [''devices'', ''pair'', ''start'', ''ip'', RateLimitIP (client_ip H r)])
                        pairStartLimit pairStartWindow w of
                        (Some res, w') \<Rightarrow> (res, w')
                      | (None, w') \<Rightarrow> pair_start_tries H E req 5 w')))"

text \<open>The rows of a code: \<^const>\<open>None\<close> is a failed query.\<close>

definition pair_code_query :: "'r handler \<Rightarrow> env \<Rightarrow> nat \<Rightarrow> (pair_code \<Rightarrow> bool) \<Rightarrow> string \<Rightarrow> db \<Rightarrow>
    pair_code list option" where
  "pair_code_query H E i p code d =
     (if fails E i then None
      else map_option (\<lambda>b. filter (\<lambda>x. pc_code_hash x = sha256 (h_crypto H) b \<and> p x) (pair_codes d))
             (bytea_in E code))"

definition handlePairStatus :: "'r handler \<Rightarrow> env \<Rightarrow> string \<Rightarrow> 'r world \<Rightarrow>
    (string \<times> string option) response \<times> 'r world" where
  "handlePairStatus H E query w =
     (let code = ToUpper (h_crypto H) (TrimSpace query) in
      if length code \<noteq> 6 then (Error 400 ''invalid code'', w)
      else (case pair_code_query H E 0 (\<lambda>x. clock E < pc_expires_at x) code (w_db w) of
              None \<Rightarrow> (Error 500 ''failed to load pair status'', w)
            | Some [] \<Rightarrow> (Error 404 ''pair code not found'', w)
            | Some (x # _) \<Rightarrow> (Reply 200 (pc_status x, pc_claimed_device x), w)))"

section \<open>Claiming a code\<close>

record pairClaimRequest =
  cr_Code :: string
  cr_DeviceName :: string

record pairClaimResponse =
  cr_DeviceID :: string
  cr_OverlayIP :: "string option"
  cr_Credential :: string

text \<open>\<open>pairClaimTracker\<close>: of the limiters, only the Redis one has \<open>Peek\<close> and \<open>Hit\<close>.\<close>

fun pairClaimTracker :: "'r limiter \<Rightarrow> 'r option" where
  "pairClaimTracker (OnRedis s) = Some s"
| "pairClaimTracker _ = None"

definition claim_ip_key :: "string \<Rightarrow> string" where
  "claim_ip_key sourceIP = Key [''devices'', ''pair'', ''claim'', ''failure'', ''ip'', RateLimitIP sourceIP]"

definition claim_code_key :: "crypto \<Rightarrow> string \<Rightarrow> string" where
  "claim_code_key C code = Key [''devices'', ''pair'', ''claim'', ''failure'', ''code'', HashToken C code]"

fun peek_keys :: "'r handler \<Rightarrow> env \<Rightarrow> nat \<Rightarrow> string list \<Rightarrow> 'r \<Rightarrow> 'a response option" where
  "peek_keys H E i [] s = None"
| "peek_keys H E i (key # keys) s =
     (case redis_Peek (h_redis H) (fails E i) key (clock E) s of
        Inl e \<Rightarrow> Some (Error 503 ''rate limiting unavailable'')
      | Inr d \<Rightarrow> if pairClaimFailureLimit \<le> Count d then Some (RateLimited (retry_seconds (RetryAfter d)))
                else peek_keys H E (i + 1) keys s)"

definition allowPairClaim :: "'r handler \<Rightarrow> env \<Rightarrow> string \<Rightarrow> string \<Rightarrow> 'r world \<Rightarrow> 'a response option" where
  "allowPairClaim H E sourceIP code w =
     (case pairClaimTracker (w_limiter w) of
        None \<Rightarrow> Some (Error 503 ''rate limiting unavailable'')
      | Some s \<Rightarrow> peek_keys H E 0 [claim_ip_key sourceIP, claim_code_key (h_crypto H) code] s)"

text \<open>
  \<open>recordPairClaimFailure\<close>: \<^const>\<open>None\<close> is an error, otherwise whether the claim is still allowed
  and the wait.
\<close>

fun hit_keys :: "'r handler \<Rightarrow> env \<Rightarrow> nat \<Rightarrow> duration \<Rightarrow> (string \<times> duration) list \<Rightarrow> 'r \<Rightarrow>
    (bool \<times> duration) option \<times> 'r" where
  "hit_keys H E i retryAfter [] s = (Some (True, retryAfter), s)"
| "hit_keys H E i retryAfter ((key, window) # checks) s =
     (case redis_Hit (h_redis H) (fails E i) key window (clock E) s of
        (Inl e, s') \<Rightarrow> (None, s')
      | (Inr d, s') \<Rightarrow>
          if pairClaimFailureLimit \<le> Count d then (Some (False, RetryAfter d), s')
          else hit_keys H E (i + 1) (max retryAfter (RetryAfter d)) checks s')"

definition recordPairClaimFailure :: "'r handler \<Rightarrow> env \<Rightarrow> nat \<Rightarrow> string \<Rightarrow> string \<Rightarrow> 'r world \<Rightarrow>
    (bool \<times> duration) option \<times> 'r world" where
  "recordPairClaimFailure H E i sourceIP code w =
     (case pairClaimTracker (w_limiter w) of
        None \<Rightarrow> (None, w)
      | Some s \<Rightarrow>
          (case hit_keys H E i 0 [(claim_ip_key sourceIP, pairClaimSourceLockWindow),
                   (claim_code_key (h_crypto H) code, pairClaimCodeLockWindow)] s of
             (res, s') \<Rightarrow> (res, w\<lparr>w_limiter := OnRedis s'\<rparr>)))"

definition handleInvalidPairClaim :: "'r handler \<Rightarrow> env \<Rightarrow> nat \<Rightarrow> string \<Rightarrow> string \<Rightarrow> 'r world \<Rightarrow>
    'a response \<times> 'r world" where
  "handleInvalidPairClaim H E i sourceIP code w =
     (case recordPairClaimFailure H E i sourceIP code w of
        (None, w') \<Rightarrow> (Error 503 ''rate limiting unavailable'', w')
      | (Some (allowed, retryAfter), w') \<Rightarrow>
          (if \<not> allowed then RateLimited (retry_seconds retryAfter)
           else Error 404 ''invalid or expired code'', w'))"

text \<open>The rows a claim inserts and changes.\<close>

definition claimed_device_row :: "env \<Rightarrow> string \<Rightarrow> string \<Rightarrow> string \<Rightarrow> pair_code \<Rightarrow> device" where
  "claimed_device_row E owner hostname credHash pc =
     \<lparr>d_id = gen_uuid E 0, d_owner_user_id = owner, d_hostname = hostname, d_status = ''active'',
      d_overlay_ip = None, d_overlay_ip_allocated_at = None, d_overlay_ip_reclaim_after = None,
      d_credential_hash = credHash, d_agent_version = pc_agent_version pc,
      d_os_platform = pc_os_platform pc, d_os_arch = pc_os_arch pc, d_disk_free_bytes = 0,
      d_external_endpoint_host = None, d_external_endpoint_port = None, d_last_seen_at = None,
      d_revoked_at = None, d_created_at = clock E, d_updated_at = clock E, d_direct_scoped = False,
      d_direct_home_port = None\<rparr>"

definition insert_device :: "device \<Rightarrow> db \<Rightarrow> db" where
  "insert_device row d = d\<lparr>devices := devices d @ [row]\<rparr>"

definition insert_key :: "string \<Rightarrow> string \<Rightarrow> int \<Rightarrow> string \<Rightarrow> string option \<Rightarrow> db \<Rightarrow> db" where
  "insert_key i dev version key from d =
     d\<lparr>device_keys := device_keys d @ [\<lparr>k_id = i, k_device_id = dev, k_key_version = version,
        k_wg_public_key = key, k_state = ''active'', k_rotated_from = from, k_retired_at = None\<rparr>]\<rparr>"

definition mark_claimed :: "env \<Rightarrow> string \<Rightarrow> string \<Rightarrow> string \<Rightarrow> db \<Rightarrow> db" where
  "mark_claimed E dev owner pcid d =
     d\<lparr>pair_codes := sql_update (\<lambda>x. pc_id x = pcid)
        (\<lambda>x. x\<lparr>pc_status := ''claimed'', pc_claimed_device := Some dev, pc_claimant := Some owner,
              pc_claimed_at := Some (clock E)\<rparr>) (pair_codes d)\<rparr>"

text \<open>
  The part of the transaction after the code was found, up to the commit: the response of the
  error that ends it, or what the client gets and the new database.
\<close>

definition claim_code :: "'r handler \<Rightarrow> env \<Rightarrow> string \<Rightarrow> string \<Rightarrow> pair_code \<Rightarrow> db \<Rightarrow>
    pairClaimResponse response + pairClaimResponse \<times> db" where
  "claim_code H E sub deviceName pc d =
     (if pairClaimFailureLimit \<le> pc_fail_count pc
      then Inl (RateLimited (retry_seconds pairClaimCodeLockWindow))
      else (case rand_bytes (h_crypto H) 0 of
        None \<Rightarrow> Inl (Error 500 ''failed to generate credential'')
      | Some credBytes \<Rightarrow>
          let credential = b64_encode b64_url credBytes in
          (case bcrypt_hash (h_crypto H) credential of
             None \<Rightarrow> Inl (Error 500 ''failed to hash credential'')
           | Some credHash \<Rightarrow>
               let hostname = (if TrimSpace deviceName = [] then pc_hostname pc else TrimSpace deviceName);
                   dev = gen_uuid E 0 in
               (case Option.bind (uuid_in E sub) (\<lambda>u. map_option (Pair u)
                   (statement (fails E 4) (insert_device (claimed_device_row E u hostname credHash pc) d))) of
                  None \<Rightarrow> Inl (Error 500 ''failed to create device'')
                | Some (u, d1) \<Rightarrow>
                    (case statement (fails E 5) (insert_key (gen_uuid E 1) dev 1 (pc_wg_public_key pc) None d1) of
                       None \<Rightarrow> Inl (Error 500 ''failed to create device key'')
                     | Some d2 \<Rightarrow>
                         (case (case h_overlay H of None \<Rightarrow> Some (None, d2)
                                | Some al \<Rightarrow>
                                    (case AllocateTx E 6 (Some al) dev d2 of
                                       (Inl e, _) \<Rightarrow> None | (Inr ip, d3) \<Rightarrow> Some (Some (addr_string ip), d3))) of
                            None \<Rightarrow> Inl (Error 500 ''failed to allocate overlay ip'')
                          | Some (overlayIP, d3) \<Rightarrow>
                              (case statement (fails E 8) (mark_claimed E dev u (pc_id pc) d3) of
                                 None \<Rightarrow> Inl (Error 500 ''failed to claim pair code'')
                               | Some d4 \<Rightarrow> if fails E 9 then Inl (Error 500 ''failed to commit claim'')
                                   else Inr (\<lparr>cr_DeviceID = dev, cr_OverlayIP = overlayIP,
                                               cr_Credential = credential\<rparr>, d4)))))))) "

definition claimable :: "env \<Rightarrow> pair_code \<Rightarrow> bool" where
  "claimable E x \<longleftrightarrow> pc_status x = ''pending'' \<and> clock E < pc_expires_at x \<and> pc_locked_until x = None"

definition pairClaim :: "'r handler \<Rightarrow> env \<Rightarrow> Claims option \<Rightarrow> http_req \<Rightarrow> pairClaimRequest option \<Rightarrow>
    'r world \<Rightarrow> pairClaimResponse response \<times> 'r world" where
  "pairClaim H E cl r body w =
     (if claims_sub cl = [] then (Error 401 ''unauthorized'', w)
      else (case body of None \<Rightarrow> (Error 400 ''invalid request body'', w)
      | Some req \<Rightarrow>
          let code = ToUpper (h_crypto H) (TrimSpace (cr_Code req)); sourceIP = client_ip H r in
          if code = [] then (Error 400 ''code is required'', w)
          else (case allowPairClaim H E sourceIP code w of
            Some res \<Rightarrow> (res, w)
          | None \<Rightarrow>
              if fails E 2 then (Error 500 ''failed to start transaction'', w)
              else (case pair_code_query H E 3 (claimable E) code (w_db w) of
                      None \<Rightarrow> (Error 500 ''failed to load pair code'', w)
                    | Some [] \<Rightarrow> handleInvalidPairClaim H E 4 sourceIP code w
                    | Some (pc # _) \<Rightarrow>
                        (case claim_code H E (claims_sub cl) (cr_DeviceName req) pc (w_db w) of
                           Inl res \<Rightarrow> (res, w)
                         | Inr (resp, d) \<Rightarrow>
                             let w1 = snd (sync_device H E 10 (cr_DeviceID resp) (w\<lparr>w_db := d\<rparr>));
                                 w2 = log_event H E 12 (user_event H r (claims_sub cl) ''device.create''
                                        ''devices'' (Some (cr_DeviceID resp))) w1
                             in (Reply 200 resp, w2))))))"

section \<open>Reading and updating devices\<close>

text \<open>\<open>where id = $1 and owner_user_id = $2\<close>, both parameters converted to \<open>uuid\<close>.\<close>

definition owned_by :: "env \<Rightarrow> string \<Rightarrow> string \<Rightarrow> (device \<Rightarrow> bool) option" where
  "owned_by E deviceID sub =
     (case (uuid_in E deviceID, uuid_in E sub) of
        (Some i, Some u) \<Rightarrow> Some (\<lambda>x. d_id x = i \<and> d_owner_user_id x = u) | _ \<Rightarrow> None)"

definition handleListDevices :: "env \<Rightarrow> Claims option \<Rightarrow> 'r world \<Rightarrow> device list response \<times> 'r world" where
  "handleListDevices E cl w =
     (if claims_sub cl = [] then (Error 401 ''unauthorized'', w)
      else (case (if fails E 0 then None else uuid_in E (claims_sub cl)) of
              None \<Rightarrow> (Error 500 ''failed to list devices'', w)
            | Some u \<Rightarrow> (Reply 200 (sort_key (\<lambda>x. - d_created_at x)
                            (filter (\<lambda>x. d_owner_user_id x = u) (devices (w_db w)))), w)))"

definition handleGetDevice :: "env \<Rightarrow> Claims option \<Rightarrow> string \<Rightarrow> 'r world \<Rightarrow> device response \<times> 'r world" where
  "handleGetDevice E cl param w =
     (if claims_sub cl = [] then (Error 401 ''unauthorized'', w)
      else let deviceID = TrimSpace param in
        if deviceID = [] then (Error 400 ''device id is required'', w)
        else (case (if fails E 0 then None else owned_by E deviceID (claims_sub cl)) of
                None \<Rightarrow> (Error 500 ''failed to load device'', w)
              | Some p \<Rightarrow> (case filter p (devices (w_db w)) of
                             [] \<Rightarrow> (Error 404 ''device not found'', w)
                           | x # _ \<Rightarrow> (Reply 200 x, w))))"

record heartbeatRequest =
  hb_ExternalEndpointHost :: "string option"
  hb_ExternalEndpointPort :: "int option"
  hb_AgentVersion :: "string option"
  hb_DiskFreeBytes :: "int option"

text \<open>\<open>COALESCE(new, old)\<close> on a nullable column and on one that is not null.\<close>

definition coalesce_opt :: "'a option \<Rightarrow> 'a option \<Rightarrow> 'a option" where
  "coalesce_opt new old = (case new of None \<Rightarrow> old | Some _ \<Rightarrow> new)"

definition coalesce :: "'a option \<Rightarrow> 'a \<Rightarrow> 'a" where
  "coalesce new old = (case new of None \<Rightarrow> old | Some v \<Rightarrow> v)"

definition heartbeat_row :: "env \<Rightarrow> heartbeatRequest \<Rightarrow> device \<Rightarrow> device" where
  "heartbeat_row E req x =
     x\<lparr>d_external_endpoint_host := coalesce_opt (hb_ExternalEndpointHost req) (d_external_endpoint_host x),
       d_external_endpoint_port := coalesce_opt (hb_ExternalEndpointPort req) (d_external_endpoint_port x),
       d_agent_version := coalesce (hb_AgentVersion req) (d_agent_version x),
       d_disk_free_bytes := coalesce (hb_DiskFreeBytes req) (d_disk_free_bytes x),
       d_last_seen_at := Some (clock E), d_updated_at := clock E\<rparr>"

definition revoked_row :: "env \<Rightarrow> device \<Rightarrow> device" where
  "revoked_row E x = x\<lparr>d_status := ''revoked'', d_revoked_at := Some (clock E),
     d_overlay_ip_reclaim_after := Some (clock E + 24 * Hour), d_updated_at := clock E\<rparr>"

text \<open>An \<open>UPDATE\<close> of the caller's device: the rows it affects and the database, or an error.\<close>

definition update_owned :: "env \<Rightarrow> nat \<Rightarrow> string \<Rightarrow> string \<Rightarrow> (device \<Rightarrow> device) \<Rightarrow> db \<Rightarrow> (nat \<times> db) option" where
  "update_owned E i deviceID sub f d =
     (case owned_by E deviceID sub of None \<Rightarrow> None
      | Some p \<Rightarrow> map_option (Pair (sql_count p (devices d)))
          (statement (fails E i) (d\<lparr>devices := sql_update p f (devices d)\<rparr>)))"

definition handleHeartbeat :: "'r handler \<Rightarrow> env \<Rightarrow> Claims option \<Rightarrow> string \<Rightarrow> heartbeatRequest option \<Rightarrow>
    'r world \<Rightarrow> unit response \<times> 'r world" where
  "handleHeartbeat H E cl param body w =
     (if claims_sub cl = [] then (Error 401 ''unauthorized'', w)
      else let deviceID = TrimSpace param in
        if deviceID = [] then (Error 400 ''device id is required'', w)
        else (case body of None \<Rightarrow> (Error 400 ''invalid request body'', w)
        | Some req \<Rightarrow>
            (case rate_limit H E 0 (Key [''devices'', ''heartbeat'', ''device'', deviceID])
                    deviceHeartbeatLimit deviceHeartbeatWindow w of
               (Some res, w1) \<Rightarrow> (res, w1)
             | (None, w1) \<Rightarrow>
                 (case update_owned E 1 deviceID (claims_sub cl) (heartbeat_row E req) (w_db w1) of
                    None \<Rightarrow> (Error 500 ''failed to update heartbeat'', w1)
                  | Some (n, d) \<Rightarrow>
                      if n = 0 then (Error 404 ''device not found'', w1\<lparr>w_db := d\<rparr>)
                      else (Reply 204 (), snd (sync_device H E 2 deviceID (w1\<lparr>w_db := d\<rparr>)))))))"

definition handleDeleteDevice :: "'r handler \<Rightarrow> env \<Rightarrow> Claims option \<Rightarrow> http_req \<Rightarrow> string \<Rightarrow>
    'r world \<Rightarrow> unit response \<times> 'r world" where
  "handleDeleteDevice H E cl r param w =
     (if claims_sub cl = [] then (Error 401 ''unauthorized'', w)
      else let deviceID = TrimSpace param in
        if deviceID = [] then (Error 400 ''device id is required'', w)
        else (case update_owned E 0 deviceID (claims_sub cl) (revoked_row E) (w_db w) of
                None \<Rightarrow> (Error 500 ''failed to revoke device'', w)
              | Some (n, d) \<Rightarrow>
                  if n = 0 then (Error 404 ''device not found'', w\<lparr>w_db := d\<rparr>)
                  else (Reply 204 (),
                    log_event H E 2 (user_event H r (claims_sub cl) ''device.revoke'' ''devices'' (Some deviceID))
                      (snd (sync_all H E 1 (w\<lparr>w_db := d\<rparr>))))))"

section \<open>Key rotation\<close>

datatype rotate_error = errRotateKeyNotFound | errRotateKeyForbidden | errRotateKeyRetire | errRotateKeyInsert

fun rotate_message :: "rotate_error \<Rightarrow> string" where
  "rotate_message errRotateKeyNotFound = ''device not found''"
| "rotate_message errRotateKeyForbidden = ''not device owner''"
| "rotate_message errRotateKeyRetire = ''failed to retire old key''"
| "rotate_message errRotateKeyInsert = ''failed to insert new key''"

definition statusForRotateKeyErr :: "rotate_error \<Rightarrow> nat" where
  "statusForRotateKeyErr e =
     (if e = errRotateKeyNotFound then 404 else if e = errRotateKeyForbidden then 403 else 500)"

definition active_of :: "string \<Rightarrow> device_key \<Rightarrow> bool" where
  "active_of dev k \<longleftrightarrow> k_device_id k = dev \<and> k_state k = ''active''"

definition retire_keys :: "time \<Rightarrow> (device_key \<Rightarrow> bool) \<Rightarrow> db \<Rightarrow> db" where
  "retire_keys t p d = d\<lparr>device_keys := sql_update p
     (\<lambda>k. k\<lparr>k_state := ''retired'', k_retired_at := Some t\<rparr>) (device_keys d)\<rparr>"

definition rotateActiveDeviceKey :: "env \<Rightarrow> string \<Rightarrow> string \<Rightarrow> string \<Rightarrow> db \<Rightarrow> rotate_error + int \<times> db" where
  "rotateActiveDeviceKey E deviceID ownerSub newWGPublicKey d =
     (case (if fails E 1 then None else uuid_in E deviceID) of
        None \<Rightarrow> Inl errRotateKeyNotFound
      | Some dev \<Rightarrow>
          (case filter (\<lambda>x. d_id x = dev \<and> d_status x = ''active'') (devices d) of
             [] \<Rightarrow> Inl errRotateKeyNotFound
           | x # _ \<Rightarrow>
               if d_owner_user_id x \<noteq> ownerSub then Inl errRotateKeyForbidden
               else (case (statement (fails E 2) (retire_keys (clock E) (active_of dev) d),
                           filter (active_of dev) (device_keys d)) of
                       (Some d1, old # _) \<Rightarrow>
                         (let newVersion = k_key_version old + 1 in
                          case statement (fails E 3)
                                 (insert_key (gen_uuid E 0) dev newVersion newWGPublicKey (Some (k_id old)) d1) of
                            None \<Rightarrow> Inl errRotateKeyInsert | Some d2 \<Rightarrow> Inr (newVersion, d2))
                     | _ \<Rightarrow> Inl errRotateKeyRetire)))"

definition handleRotateKey :: "'r handler \<Rightarrow> env \<Rightarrow> Claims option \<Rightarrow> http_req \<Rightarrow> string \<Rightarrow> string option \<Rightarrow>
    'r world \<Rightarrow> int response \<times> 'r world" where
  "handleRotateKey H E cl r param body w =
     (if claims_sub cl = [] then (Error 401 ''unauthorized'', w)
      else let deviceID = TrimSpace param in
        if deviceID = [] then (Error 400 ''device id is required'', w)
        else (case body of None \<Rightarrow> (Error 400 ''invalid request body'', w)
        | Some newKey \<Rightarrow>
            if newKey = [] then (Error 400 ''new_wg_public_key is required'', w)
            else if fails E 0 then (Error 500 ''failed to start transaction'', w)
            else (case rotateActiveDeviceKey E deviceID (claims_sub cl) newKey (w_db w) of
                    Inl e \<Rightarrow> (Error (statusForRotateKeyErr e) (rotate_message e), w)
                  | Inr (version, d) \<Rightarrow>
                      if fails E 4 then (Error 500 ''failed to commit key rotation'', w)
                      else (Reply 200 version,
                        log_event H E 6 (user_event H r (claims_sub cl) ''device.key_rotate'' ''device_keys''
                           (Some deviceID)) (snd (sync_all H E 5 (w\<lparr>w_db := d\<rparr>)))))))"

section \<open>The peer configuration\<close>

text \<open>A row whose address is NULL cannot be scanned into a string.\<close>

definition handleGetPeerConfig :: "'r handler \<Rightarrow> env \<Rightarrow> Claims option \<Rightarrow> string \<Rightarrow> 'r world \<Rightarrow>
    PeerConfig response \<times> 'r world" where
  "handleGetPeerConfig H E cl param w =
     (if claims_sub cl = [] then (Error 401 ''unauthorized'', w)
      else let deviceID = TrimSpace param; cfg = h_cfg H in
        if deviceID = [] then (Error 400 ''device id is required'', w)
        else if WGServerPublicKey cfg = [] \<or> WGServerEndpoint cfg = [] \<or> WGOverlayCIDR cfg = []
        then (Error 503 ''wireguard server not configured'', w)
        else (case ServerOverlayIP (WGOverlayCIDR cfg) of
          Inl e \<Rightarrow> (Error 500 ''failed to resolve wireguard server config'', w)
        | Inr serverOverlayIP \<Rightarrow>
            (case (if fails E 0 then None else owned_by E deviceID (claims_sub cl)) of
               None \<Rightarrow> (Error 500 ''failed to load peer config'', w)
             | Some p \<Rightarrow>
                 (case [(x, k). x \<leftarrow> devices (w_db w), k \<leftarrow> device_keys (w_db w),
                          active_of (d_id x) k \<and> p x \<and> d_status x = ''active''] of
                    [] \<Rightarrow> (Error 404 ''device not found or has no overlay ip'', w)
                  | (x, k) # _ \<Rightarrow>
                      (case d_overlay_ip x of
                         None \<Rightarrow> (Error 500 ''failed to load peer config'', w)
                       | Some ip \<Rightarrow> (Reply 200 (GeneratePeerConfig (WGServerPublicKey cfg) (WGServerEndpoint cfg)
                            (WGServerPort cfg) serverOverlayIP (k_wg_public_key k) (addr_string ip)), w))))))"

section \<open>What the handlers do to the database\<close>

lemma pair_start_tries_effect:
  assumes "pair_start_tries H E req n w = (res, w')"
  shows "w' = w \<and> (\<forall>c. res \<noteq> Reply 200 c) \<or>
    (\<exists>code b i j. res = Reply 200 code \<and> randomCode (rand_int (h_crypto H)) j 6 = Some code \<and>
       bytea_in E code = Some b \<and> db_ok (w_db w') \<and>
       w' = w\<lparr>w_db := (w_db w)\<lparr>pair_codes := pair_codes (w_db w) @
               [pair_code_row E i req (sha256 (h_crypto H) b)]\<rparr>\<rparr>)"
  using assms
proof (induction n)
  case (Suc n)
  show ?case
  proof (cases "randomCode (rand_int (h_crypto H)) (6 * (4 - n)) 6")
    case None
    then show ?thesis using Suc.prems by auto
  next
    case (Some code)
    let ?st = "Option.bind (bytea_in E code) (\<lambda>b. statement (fails E (5 - n))
              ((w_db w)\<lparr>pair_codes := pair_codes (w_db w) @
                 [pair_code_row E (gen_uuid E (4 - n)) req (sha256 (h_crypto H) b)]\<rparr>))"
    show ?thesis
    proof (cases ?st)
      case None
      then have "pair_start_tries H E req n w = (res, w')" using Suc.prems Some by simp
      then show ?thesis by (rule Suc.IH)
    next
      case d: (Some d)
      then obtain b where "bytea_in E code = Some b" "db_ok d"
        "d = (w_db w)\<lparr>pair_codes := pair_codes (w_db w) @
           [pair_code_row E (gen_uuid E (4 - n)) req (sha256 (h_crypto H) b)]\<rparr>"
        by (auto simp: bind_eq_Some_conv)
      moreover have "pair_start_tries H E req (Suc n) w = (Reply 200 code, w\<lparr>w_db := d\<rparr>)"
        using Some d by (simp only: pair_start_tries.simps option.case)
      ultimately show ?thesis using Suc.prems Some by fastforce
    qed
  qed
qed auto

lemma handlePairStart_effect:
  assumes "handlePairStart H E cl r body w = (res, w')"
  shows "w_db w' = w_db w \<and> (\<forall>c. res \<noteq> Reply 200 c) \<or>
    (\<exists>req code b i j. body = Some req \<and> res = Reply 200 code \<and>
       randomCode (rand_int (h_crypto H)) j 6 = Some code \<and> bytea_in E code = Some b \<and> db_ok (w_db w') \<and>
       w_db w' = (w_db w)\<lparr>pair_codes := pair_codes (w_db w) @
               [pair_code_row E i req (sha256 (h_crypto H) b)]\<rparr>)"
proof (cases "claims_sub cl = [] \<or> body = None")
  case True
  then show ?thesis using assms by (auto simp: handlePairStart_def split: if_splits)
next
  case False
  then obtain req where b: "body = Some req" by auto
  obtain x v where p: "rate_limit H E 0 (Key [''devices'', ''pair'', ''start'', ''ip'', RateLimitIP (client_ip H r)])
      pairStartLimit pairStartWindow w = (x :: string response option, v)" by (rule prod.exhaust)
  show ?thesis
  proof (cases x)
    case None
    then show ?thesis
      using assms p b False pair_start_tries_effect [of H E req 5 v res w'] rate_limit_result [OF p]
      by (auto simp: handlePairStart_def split: if_splits)
  next
    case (Some y)
    then show ?thesis
      using assms p b False rate_limit_result [OF p]
      by (auto simp: handlePairStart_def split: if_splits)
  qed
qed

text \<open>
  The database after a claim: the new device with its key, the address when there is an overlay,
  and the code marked.
\<close>

definition claimed_db :: "'r handler \<Rightarrow> env \<Rightarrow> string \<Rightarrow> string \<Rightarrow> string \<Rightarrow> addr option \<Rightarrow> pair_code \<Rightarrow> db \<Rightarrow> db" where
  "claimed_db H E u hostname credHash ip pc d =
     (let d2 = insert_key (gen_uuid E 1) (gen_uuid E 0) 1 (pc_wg_public_key pc) None
                 (insert_device (claimed_device_row E u hostname credHash pc) d);
          d3 = (case ip of None \<Rightarrow> d2
                | Some a \<Rightarrow> (case uuid_in E (gen_uuid E 0) of None \<Rightarrow> d2
                            | Some v \<Rightarrow> with_overlay_ip (clock E) a v d2))
      in mark_claimed E (gen_uuid E 0) u (pc_id pc) d3)"

lemma claim_code_effect:
  assumes "claim_code H E sub name pc d = Inr (resp, d')"
  obtains u hostname credHash ip where "uuid_in E sub = Some u"
    "hostname = (if TrimSpace name = [] then pc_hostname pc else TrimSpace name)"
    "bcrypt_hash (h_crypto H) (cr_Credential resp) = Some credHash"
    "cr_DeviceID resp = gen_uuid E 0" "cr_OverlayIP resp = map_option addr_string ip"
    "ip = None \<longleftrightarrow> h_overlay H = None" "d' = claimed_db H E u hostname credHash ip pc d" "db_ok d'"
proof -
  obtain credBytes credHash u where
      r: "rand_bytes (h_crypto H) 0 = Some credBytes"
        "bcrypt_hash (h_crypto H) (b64_encode b64_url credBytes) = Some credHash" "uuid_in E sub = Some u"
    using assms by (auto simp: claim_code_def Let_def bind_eq_Some_conv split: if_splits option.splits)
  define hostname where "hostname = (if TrimSpace name = [] then pc_hostname pc else TrimSpace name)"
  define d1 where "d1 = insert_device (claimed_device_row E u hostname credHash pc) d"
  define d2 where "d2 = insert_key (gen_uuid E 1) (gen_uuid E 0) 1 (pc_wg_public_key pc) None d1"
  have st: "\<not> fails E 4" "db_ok d1" "\<not> fails E 5" "db_ok d2"
    using assms r by (auto simp: claim_code_def Let_def d1_def d2_def hostname_def statement_def
        split: if_splits option.splits)
  define al where "al = (case h_overlay H of None \<Rightarrow> Some (None, d2)
     | Some al \<Rightarrow> (case AllocateTx E 6 (Some al) (gen_uuid E 0) d2 of
         (Inl e, _) \<Rightarrow> None | (Inr ip, d3) \<Rightarrow> Some (Some (addr_string ip), d3)))"
  have c: "claim_code H E sub name pc d =
    (case al of None \<Rightarrow> Inl (Error 500 ''failed to allocate overlay ip'')
     | Some (overlayIP, d3) \<Rightarrow>
         (case statement (fails E 8) (mark_claimed E (gen_uuid E 0) u (pc_id pc) d3) of
            None \<Rightarrow> Inl (Error 500 ''failed to claim pair code'')
          | Some d4 \<Rightarrow> if fails E 9 then Inl (Error 500 ''failed to commit claim'')
              else Inr (\<lparr>cr_DeviceID = gen_uuid E 0, cr_OverlayIP = overlayIP,
                          cr_Credential = b64_encode b64_url credBytes\<rparr>, d4)))"
  proof -
    have "\<not> pairClaimFailureLimit \<le> pc_fail_count pc" using assms by (simp add: claim_code_def split: if_splits)
    moreover have "statement (fails E 4) (insert_device (claimed_device_row E u hostname credHash pc) d) = Some d1"
      "statement (fails E 5) (insert_key (gen_uuid E 1) (gen_uuid E 0) 1 (pc_wg_public_key pc) None d1) = Some d2"
      using st by (simp_all add: statement_def d1_def d2_def)
    ultimately show ?thesis
      unfolding claim_code_def Let_def hostname_def [symmetric] al_def by (simp add: r del: statement_Some)
  qed
  obtain overlayIP d3 where a: "al = Some (overlayIP, d3)" "db_ok d'"
      "d' = mark_claimed E (gen_uuid E 0) u (pc_id pc) d3"
      "resp = \<lparr>cr_DeviceID = gen_uuid E 0, cr_OverlayIP = overlayIP, cr_Credential = b64_encode b64_url credBytes\<rparr>"
    using assms c by (auto simp: statement_def split: option.splits prod.splits if_splits)
  obtain ip where ip: "overlayIP = map_option addr_string ip" "ip = None \<longleftrightarrow> h_overlay H = None"
      "d3 = (case ip of None \<Rightarrow> d2 | Some a \<Rightarrow> (case uuid_in E (gen_uuid E 0) of None \<Rightarrow> d2
         | Some v \<Rightarrow> with_overlay_ip (clock E) a v d2))"
  proof (cases "h_overlay H")
    case None
    then show ?thesis using that [of None] a(1) by (simp add: al_def)
  next
    case (Some p)
    then obtain x where "AllocateTx E 6 (Some p) (gen_uuid E 0) d2 = (Inr x, d3)" "overlayIP = Some (addr_string x)"
      using a(1) by (auto simp: al_def split: prod.splits sum.splits)
    then show ?thesis using that [of "Some x"] pool.alloc_done [of E 6 "Some p" "gen_uuid E 0" d2 x d3] Some by auto
  qed
  have "d' = claimed_db H E u hostname credHash ip pc d"
    unfolding a(3) ip(3) claimed_db_def Let_def d2_def d1_def by (rule refl)
  then show ?thesis
    using that [of u hostname credHash ip] r a(2,4) ip(1,2) by (simp add: hostname_def)
qed

lemma pairClaim_effect:
  assumes "pairClaim H E cl r body w = (res, w')"
  shows "w_db w' = w_db w \<and> w_cmds w' = w_cmds w \<and> (\<forall>x. res \<noteq> Reply 200 x) \<or>
    (\<exists>req pc resp d code b. body = Some req \<and> res = Reply 200 resp \<and>
       code = ToUpper (h_crypto H) (TrimSpace (cr_Code req)) \<and> bytea_in E code = Some b \<and>
       pc \<in> set (pair_codes (w_db w)) \<and> pc_code_hash pc = sha256 (h_crypto H) b \<and> claimable E pc \<and>
       claim_code H E (claims_sub cl) (cr_DeviceName req) pc (w_db w) = Inr (resp, d) \<and>
       core w' = d\<lparr>audit_events := []\<rparr> \<and> db_ok (w_db w'))"
proof (cases "claims_sub cl = [] \<or> body = None")
  case True
  then show ?thesis using assms by (auto simp: pairClaim_def split: if_splits)
next
  case False
  then obtain req where body: "body = Some req" by auto
  define code where "code = ToUpper (h_crypto H) (TrimSpace (cr_Code req))"
  let ?q = "pair_code_query H E 3 (claimable E) code (w_db w)"
  have inv: "w_db v = w_db w \<and> w_cmds v = w_cmds w \<and> (\<forall>x. y \<noteq> Reply 200 x)"
    if "handleInvalidPairClaim H E 4 (client_ip H r) code w = (y, v)"
    for y v
    using that by (auto simp: handleInvalidPairClaim_def recordPairClaimFailure_def
        split: prod.splits option.splits if_split_asm)
  have pk: "\<forall>x. y \<noteq> Reply 200 x" if "allowPairClaim H E (client_ip H r) code w = Some y"
    for y :: "pairClaimResponse response"
    using that by (auto simp: allowPairClaim_def split: option.splits sum.splits if_splits)
  show ?thesis
  proof (cases "\<exists>pc ps. code \<noteq> [] \<and> allowPairClaim H E (client_ip H r) code w = (None :: pairClaimResponse response option) \<and>
      \<not> fails E 2 \<and> ?q = Some (pc # ps)")
    case False
    then show ?thesis
      using assms body \<open>\<not> (claims_sub cl = [] \<or> body = None)\<close> inv pk
      by (auto simp: pairClaim_def Let_def code_def [symmetric]
          split: if_splits option.splits list.splits)
  next
    case True
    then obtain pc ps where q: "code \<noteq> []" "\<not> fails E 2" "?q = Some (pc # ps)"
      "allowPairClaim H E (client_ip H r) code w = (None :: pairClaimResponse response option)" by auto
    obtain b where b: "bytea_in E code = Some b" and
      f: "pc # ps = filter (\<lambda>x. pc_code_hash x = sha256 (h_crypto H) b \<and> claimable E x) (pair_codes (w_db w))"
      using q(3) by (auto simp: pair_code_query_def split: if_splits)
    have "pc \<in> set (pc # ps)" by simp
    then have p: "pc \<in> set (pair_codes (w_db w))" "pc_code_hash pc = sha256 (h_crypto H) b" "claimable E pc"
      unfolding f by auto
    let ?c = "claim_code H E (claims_sub cl) (cr_DeviceName req) pc (w_db w)"
    have e: "pairClaim H E cl r body w = (case ?c of Inl res \<Rightarrow> (res, w)
       | Inr (resp, d) \<Rightarrow> (Reply 200 resp, log_event H E 12 (user_event H r (claims_sub cl) ''device.create''
            ''devices'' (Some (cr_DeviceID resp)))
            (snd (sync_device H E 10 (cr_DeviceID resp) (w\<lparr>w_db := d\<rparr>)))))"
      using body q \<open>\<not> (claims_sub cl = [] \<or> body = None)\<close>
      by (simp add: pairClaim_def Let_def code_def [symmetric] split: sum.splits)
    show ?thesis
    proof (cases ?c)
      case (Inl y)
      then have "\<forall>x. y \<noteq> Reply 200 x"
        by (auto simp: claim_code_def Let_def split: if_splits option.splits prod.splits)
      then show ?thesis using assms e Inl by auto
    next
      case (Inr z)
      then obtain resp d where z: "?c = Inr (resp, d)" by (cases z) auto
      have ok: "db_ok d" using claim_code_effect [OF z] by metis
      have rw: "res = Reply 200 resp"
        "w' = log_event H E 12 (user_event H r (claims_sub cl) ''device.create'' ''devices'' (Some (cr_DeviceID resp)))
            (snd (sync_device H E 10 (cr_DeviceID resp) (w\<lparr>w_db := d\<rparr>)))"
        using assms e z by auto
      have "core w' = d\<lparr>audit_events := []\<rparr>" "db_ok (w_db w')"
        unfolding rw using ok by (simp_all add: log_event_ok) (simp add: core_def)
      then show ?thesis using body b p z rw(1) by (auto simp: code_def)
    qed
  qed
qed

lemma update_owned_effect:
  assumes "update_owned E i dev sub f d = Some (n, d')"
  obtains x u where "uuid_in E dev = Some x" "uuid_in E sub = Some u" "db_ok d'"
    "n = sql_count (\<lambda>r. d_id r = x \<and> d_owner_user_id r = u) (devices d)"
    "d' = d\<lparr>devices := sql_update (\<lambda>r. d_id r = x \<and> d_owner_user_id r = u) f (devices d)\<rparr>"
  using assms by (auto simp: update_owned_def owned_by_def split: option.splits)

lemma handleHeartbeat_effect:
  assumes "handleHeartbeat H E cl param body w = (res, w')"
  shows "w_db w' = w_db w \<and> res \<noteq> Reply 204 () \<or>
    (\<exists>x u req. uuid_in E (TrimSpace param) = Some x \<and> uuid_in E (claims_sub cl) = Some u \<and> body = Some req \<and>
       w_db w' = (w_db w)\<lparr>devices := sql_update (\<lambda>r. d_id r = x \<and> d_owner_user_id r = u)
         (heartbeat_row E req) (devices (w_db w))\<rparr> \<and> db_ok (w_db w'))"
proof (cases "claims_sub cl = [] \<or> TrimSpace param = [] \<or> body = None")
  case True
  then show ?thesis using assms by (auto simp: handleHeartbeat_def Let_def split: if_splits)
next
  case False
  then obtain req where b: "body = Some req" by auto
  obtain x v where p: "rate_limit H E 0 (Key [''devices'', ''heartbeat'', ''device'', TrimSpace param])
      deviceHeartbeatLimit deviceHeartbeatWindow w = (x :: unit response option, v)" by (rule prod.exhaust)
  note R = rate_limit_result [OF p]
  show ?thesis
  proof (cases x)
    case (Some y)
    then show ?thesis using assms p b False R by (auto simp: handleHeartbeat_def Let_def split: if_splits)
  next
    case None
    show ?thesis
    proof (cases "update_owned E 1 (TrimSpace param) (claims_sub cl) (heartbeat_row E req) (w_db v)")
      case None
      then show ?thesis using assms p b False R \<open>x = None\<close>
        by (auto simp: handleHeartbeat_def Let_def split: if_splits)
    next
      case (Some nd)
      then obtain n d where nd: "update_owned E 1 (TrimSpace param) (claims_sub cl) (heartbeat_row E req) (w_db w) = Some (n, d)"
        using R by (cases nd) simp
      have "w_db w' = d"
        using assms p b False R nd \<open>x = None\<close>
        by (auto simp: handleHeartbeat_def Let_def split: if_splits)
      with nd b show ?thesis by (auto elim!: update_owned_effect)
    qed
  qed
qed

lemma handleDeleteDevice_effect:
  assumes "handleDeleteDevice H E cl r param w = (res, w')"
  shows "w' = w \<and> res \<noteq> Reply 204 () \<or>
    (\<exists>x u. uuid_in E (TrimSpace param) = Some x \<and> uuid_in E (claims_sub cl) = Some u \<and>
       core w' = (core w)\<lparr>devices := sql_update (\<lambda>r. d_id r = x \<and> d_owner_user_id r = u)
         (revoked_row E) (devices (w_db w))\<rparr> \<and> db_ok (w_db w'))"
proof (cases "claims_sub cl = [] \<or> TrimSpace param = [] \<or>
    update_owned E 0 (TrimSpace param) (claims_sub cl) (revoked_row E) (w_db w) = None")
  case True
  then show ?thesis using assms by (auto simp: handleDeleteDevice_def Let_def split: if_splits)
next
  case False
  then obtain n d where nd: "update_owned E 0 (TrimSpace param) (claims_sub cl) (revoked_row E) (w_db w) = Some (n, d)"
    by auto
  have w': "core w' = d\<lparr>audit_events := []\<rparr>" and "db_ok d \<Longrightarrow> db_ok (w_db w')"
    using assms False nd
    by (auto simp: handleDeleteDevice_def Let_def log_event_ok split: if_splits) (simp_all add: core_def)
  with nd show ?thesis by (auto elim!: update_owned_effect simp: core_def)
qed

lemma rotate_effect:
  assumes "rotateActiveDeviceKey E dev sub key d = Inr (n, d')"
  obtains x old u where "uuid_in E dev = Some u" "x \<in> set (devices d)" "d_id x = u" "d_status x = ''active''"
    "d_owner_user_id x = sub" "old \<in> set (device_keys d)" "active_of u old" "n = k_key_version old + 1"
    "d' = insert_key (gen_uuid E 0) u n key (Some (k_id old)) (retire_keys (clock E) (active_of u) d)" "db_ok d'"
proof -
  obtain u x xs where u: "uuid_in E dev = Some u" and
    f: "filter (\<lambda>x. d_id x = u \<and> d_status x = ''active'') (devices d) = x # xs" "d_owner_user_id x = sub"
    using assms by (auto simp: rotateActiveDeviceKey_def split: if_splits option.splits list.splits)
  obtain old os where o: "filter (active_of u) (device_keys d) = old # os" "n = k_key_version old + 1"
    "d' = insert_key (gen_uuid E 0) u n key (Some (k_id old)) (retire_keys (clock E) (active_of u) d)" "db_ok d'"
    using assms u f
    by (auto simp: rotateActiveDeviceKey_def Let_def split: if_splits option.splits list.splits)
  have "x \<in> set (x # xs)" "old \<in> set (old # os)" by auto
  then have "x \<in> set (devices d)" "d_id x = u" "d_status x = ''active''" "old \<in> set (device_keys d)" "active_of u old"
    unfolding f(1) [symmetric] o(1) [symmetric] by auto
  then show ?thesis using that u f(2) o(2-4) by blast
qed

lemma handleRotateKey_effect:
  assumes "handleRotateKey H E cl r param body w = (res, w')"
  shows "w' = w \<and> (\<forall>n. res \<noteq> Reply 200 n) \<or>
    (\<exists>key n d. body = Some key \<and> res = Reply 200 n \<and>
       rotateActiveDeviceKey E (TrimSpace param) (claims_sub cl) key (w_db w) = Inr (n, d) \<and>
       core w' = d\<lparr>audit_events := []\<rparr> \<and> db_ok (w_db w'))"
proof (cases "claims_sub cl = [] \<or> TrimSpace param = [] \<or> body = None \<or> body = Some [] \<or> fails E 0")
  case True
  then show ?thesis using assms by (auto simp: handleRotateKey_def Let_def split: if_splits option.splits)
next
  case False
  then obtain key where b: "body = Some key" "key \<noteq> []" by auto
  show ?thesis
  proof (cases "rotateActiveDeviceKey E (TrimSpace param) (claims_sub cl) key (w_db w)")
    case (Inl e)
    then show ?thesis using assms b False by (auto simp: handleRotateKey_def Let_def split: if_splits)
  next
    case (Inr z)
    then obtain n d where z: "rotateActiveDeviceKey E (TrimSpace param) (claims_sub cl) key (w_db w) = Inr (n, d)"
      by (cases z) simp
    have ok: "db_ok d" using rotate_effect [OF z] by metis
    show ?thesis
    proof (cases "fails E 4")
      case True
      then show ?thesis using assms b False z by (auto simp: handleRotateKey_def Let_def)
    next
      case nf: False
      have rw: "res = Reply 200 n" "w' = log_event H E 6 (user_event H r (claims_sub cl) ''device.key_rotate''
          ''device_keys'' (Some (TrimSpace param))) (snd (sync_all H E 5 (w\<lparr>w_db := d\<rparr>)))"
        using assms b False z nf by (auto simp: handleRotateKey_def Let_def)
      have "core w' = d\<lparr>audit_events := []\<rparr>" "db_ok (w_db w')"
        unfolding rw using ok by (simp_all add: log_event_ok) (simp add: core_def)
      then show ?thesis using b z rw(1) by auto
    qed
  qed
qed

end
