(* ===== verification/Mobile.thy ===== *)
theory Mobile
  imports Devices "HOL-Library.List_Lexorder"
begin

text \<open>
  Package \<open>internal/mobile\<close>: enrolment of phones (\<open>handler.go\<close>, \<open>enroll_helpers.go\<close>), the list of
  servers a phone can reach and disconnecting all phones of a user (\<open>disconnect.go\<close>).
\<close>

definition mobileEnrollLimit :: int where "mobileEnrollLimit = 10"
definition mobileEnrollWindow :: duration where "mobileEnrollWindow = Minute"
definition mobileDisconnectLimit :: int where "mobileDisconnectLimit = 1"
definition mobileDisconnectWindow :: duration where "mobileDisconnectWindow = Minute"
definition maxHostnameLen :: nat where "maxHostnameLen = 253"
definition maxDNSLabelLen :: nat where "maxDNSLabelLen = 63"
definition maxOSArchLen :: nat where "maxOSArchLen = 64"
definition maxAppVersionLen :: nat where "maxAppVersionLen = 64"
definition wgPublicKeyRawLen :: nat where "wgPublicKeyRawLen = 32"

section \<open>Validation\<close>

record enrollRequest =
  er_DirectScoped :: bool
  er_Hostname :: string
  er_OSPlatform :: string
  er_OSArch :: string
  er_AppVersion :: string
  er_WGPublicKey :: string

text \<open>An error of validation: the field and the reason.\<close>

type_synonym enrollValidationError = "string \<times> string"

definition isValidDNSLabel :: "string \<Rightarrow> bool" where
  "isValidDNSLabel label \<longleftrightarrow>
     label \<noteq> [] \<and> length label \<le> maxDNSLabelLen \<and> hd label \<noteq> CHR ''-'' \<and> last label \<noteq> CHR ''-'' \<and>
     list_all (\<lambda>c. CHR ''a'' \<le> c \<and> c \<le> CHR ''z'' \<or> CHR ''0'' \<le> c \<and> c \<le> CHR ''9'' \<or> c = CHR ''-'') label"

definition isValidDNSName :: "string \<Rightarrow> bool" where
  "isValidDNSName s \<longleftrightarrow> s \<noteq> [] \<and> list_all isValidDNSLabel (Split s (CHR ''.''))"

definition containsControlChar :: "crypto \<Rightarrow> string \<Rightarrow> bool" where
  "containsControlChar C s =
     (if is_ascii s then list_ex (\<lambda>c. c < CHR '' '' \<or> c = CHR 0x7F) s else unicode_nonprint C s)"

text \<open>A rune beyond ASCII is a byte from \<open>0x80\<close> on, well-formed or not.\<close>

definition validateHostname :: "crypto \<Rightarrow> string \<Rightarrow> enrollValidationError option" where
  "validateHostname C raw =
     (let trimmed = TrimSpace raw; hostname = ToLower C trimmed in
      if \<not> is_ascii trimmed then Some (''hostname'', ''must be ASCII'')
      else if hostname = [] then Some (''hostname'', ''required'')
      else if maxHostnameLen < length hostname then Some (''hostname'', ''too long'')
      else if \<not> isValidDNSName hostname then Some (''hostname'', ''must be a valid DNS name'')
      else None)"

definition validateBoundedField :: "crypto \<Rightarrow> string \<Rightarrow> string \<Rightarrow> nat \<Rightarrow> enrollValidationError option" where
  "validateBoundedField C field raw maxLen =
     (let v = TrimSpace raw in
      if v = [] then Some (field, ''required'')
      else if maxLen < length v then Some (field, ''too long'')
      else if containsControlChar C v then Some (field, ''must not contain control characters'')
      else None)"

definition lowOrderWGKeys :: "nat list list" where
  "lowOrderWGKeys =
     [replicate 32 0, 1 # replicate 31 0,
      [0xe0, 0xeb, 0x7a, 0x7c, 0x3b, 0x41, 0xb8, 0xae, 0x16, 0x56, 0xe3, 0xfa, 0xf1, 0x9f, 0xc4, 0x6a,
       0xda, 0x09, 0x8d, 0xeb, 0x9c, 0x32, 0xb1, 0xfd, 0x86, 0x62, 0x05, 0x16, 0x5f, 0x49, 0xb8, 0x00],
      [0x5f, 0x9c, 0x95, 0xbc, 0xa3, 0x50, 0x8c, 0x24, 0xb1, 0xd0, 0xb1, 0x55, 0x9c, 0x83, 0xef, 0x5b,
       0x04, 0x44, 0x5c, 0xc4, 0x58, 0x1c, 0x8e, 0x86, 0xd8, 0x22, 0x4e, 0xdd, 0xd0, 0x9f, 0x11, 0x57],
      0xec # replicate 30 0xff @ [0x7f], 0xed # replicate 30 0xff @ [0x7f],
      0xee # replicate 30 0xff @ [0x7f]]"

definition validateWGPublicKey :: "string \<Rightarrow> enrollValidationError option" where
  "validateWGPublicKey raw =
     (let wgKey = TrimSpace raw; bad = Some (''wg_public_key'', ''must be base64-encoded 32 bytes'') in
      if wgKey = [] then Some (''wg_public_key'', ''required'')
      else if \<not> wg_key_format wgKey then bad
      else (case b64_decode wgKey of None \<Rightarrow> bad
            | Some decoded \<Rightarrow>
                if length decoded \<noteq> wgPublicKeyRawLen then bad
                else if decoded[31 := decoded ! 31 mod 128] \<in> set lowOrderWGKeys
                then Some (''wg_public_key'', ''is a low-order curve25519 point'')
                else None))"

definition validateEnrollRequest :: "crypto \<Rightarrow> enrollRequest \<Rightarrow> enrollValidationError option" where
  "validateEnrollRequest C req =
     (case validateHostname C (er_Hostname req) of Some e \<Rightarrow> Some e
      | None \<Rightarrow>
          let platform = TrimSpace (er_OSPlatform req); q = [CHR 0x27] in
          if platform \<noteq> ''ios'' \<and> platform \<noteq> ''android'' \<and> platform \<noteq> ''tvos''
          then Some (''os_platform'', ''must be '' @ q @ ''ios'' @ q @ '', '' @ q @ ''android'' @ q @ '', or '' @ q @ ''tvos'' @ q)
          else (case validateBoundedField C ''os_arch'' (er_OSArch req) maxOSArchLen of Some e \<Rightarrow> Some e
            | None \<Rightarrow>
                (case validateBoundedField C ''app_version'' (er_AppVersion req) maxAppVersionLen of
                   Some e \<Rightarrow> Some e
                 | None \<Rightarrow> validateWGPublicKey (er_WGPublicKey req))))"

text \<open>The answer to an invalid request names the field and the reason.\<close>

definition parseEnrollRequest :: "crypto \<Rightarrow> enrollRequest option \<Rightarrow> string + enrollRequest" where
  "parseEnrollRequest C body =
     (case body of None \<Rightarrow> Inl ''invalid request body''
      | Some req \<Rightarrow>
          (case validateEnrollRequest C req of
             Some (field, reason) \<Rightarrow> Inl (''invalid request: '' @ field @ '': '' @ reason)
           | None \<Rightarrow> Inr (req\<lparr>er_Hostname := ToLower C (TrimSpace (er_Hostname req)),
               er_OSPlatform := TrimSpace (er_OSPlatform req), er_OSArch := TrimSpace (er_OSArch req),
               er_AppVersion := TrimSpace (er_AppVersion req),
               er_WGPublicKey := TrimSpace (er_WGPublicKey req)\<rparr>)))"

section \<open>Enrolment\<close>

definition ensureEnrollReady :: "'r handler \<Rightarrow> env \<Rightarrow> string \<Rightarrow> 'r world \<Rightarrow> 'a response option \<times> 'r world" where
  "ensureEnrollReady H E userID w =
     (case rate_limit H E 0 (Key [''mobile'', ''enroll'', ''user'', userID]) mobileEnrollLimit mobileEnrollWindow w of
        (Some res, w') \<Rightarrow> (Some res, w')
      | (None, w') \<Rightarrow>
          (if WGServerPublicKey (h_cfg H) = [] \<or> WGServerEndpoint (h_cfg H) = [] \<or> WGOverlayCIDR (h_cfg H) = []
           then Some (Error 503 ''wireguard server not configured'') else None, w'))"

definition randomCredential :: "crypto \<Rightarrow> string option" where
  "randomCredential C = map_option (b64_encode b64_url) (rand_bytes C 0)"

definition is_mobile :: "device \<Rightarrow> bool" where
  "is_mobile x \<longleftrightarrow> d_os_platform x = ''ios'' \<or> d_os_platform x = ''android'' \<or> d_os_platform x = ''tvos''"

definition mobile_row :: "env \<Rightarrow> string \<Rightarrow> string \<Rightarrow> enrollRequest \<Rightarrow> device" where
  "mobile_row E owner credHash req =
     \<lparr>d_id = gen_uuid E 0, d_owner_user_id = owner, d_hostname = er_Hostname req, d_status = ''active'',
      d_overlay_ip = None, d_overlay_ip_allocated_at = None, d_overlay_ip_reclaim_after = None,
      d_credential_hash = credHash, d_agent_version = er_AppVersion req,
      d_os_platform = er_OSPlatform req, d_os_arch = er_OSArch req, d_disk_free_bytes = 0,
      d_external_endpoint_host = None, d_external_endpoint_port = None,
      d_last_seen_at = Some (clock E), d_revoked_at = None, d_created_at = clock E,
      d_updated_at = clock E, d_direct_scoped = er_DirectScoped req, d_direct_home_port = None\<rparr>"

definition reenrolled_row :: "env \<Rightarrow> enrollRequest \<Rightarrow> device \<Rightarrow> device" where
  "reenrolled_row E req x =
     x\<lparr>d_status := ''active'', d_hostname := er_Hostname req, d_agent_version := er_AppVersion req,
       d_os_platform := er_OSPlatform req, d_os_arch := er_OSArch req,
       d_direct_scoped := er_DirectScoped req, d_last_seen_at := Some (clock E),
       d_updated_at := clock E, d_revoked_at := None, d_overlay_ip_reclaim_after := None\<rparr>"

text \<open>\<open>upsertMobileDevice\<close>: the device, its address if it has one, and the database.\<close>

definition upsertMobileDevice :: "'r handler \<Rightarrow> env \<Rightarrow> string \<Rightarrow> enrollRequest \<Rightarrow> db \<Rightarrow>
    (string \<times> addr option \<times> db) option" where
  "upsertMobileDevice H E userID req d =
     (case (if fails E 2 then None else uuid_in E userID) of None \<Rightarrow> None
      | Some u \<Rightarrow>
          (case filter (\<lambda>x. d_owner_user_id x = u \<and> d_hostname x = er_Hostname req \<and> is_mobile x \<and>
                    d_direct_scoped x = er_DirectScoped req) (devices d) of
             [] \<Rightarrow>
               (case Option.bind (randomCredential (h_crypto H)) (bcrypt_hash (h_crypto H)) of None \<Rightarrow> None
                | Some credentialHash \<Rightarrow>
                    (case statement (fails E 3) (insert_device (mobile_row E u credentialHash req) d) of
                       None \<Rightarrow> None | Some d' \<Rightarrow> Some (gen_uuid E 0, None, d')))
           | x # _ \<Rightarrow>
               (case statement (fails E 3) (d\<lparr>devices := sql_update (\<lambda>y. d_id y = d_id x)
                   (reenrolled_row E req) (devices d)\<rparr>) of
                  None \<Rightarrow> None | Some d' \<Rightarrow> Some (d_id x, d_overlay_ip x, d'))))"

text \<open>\<open>COALESCE(MAX(key_version), 0) + 1\<close> over all keys of the device.\<close>

definition next_version :: "string \<Rightarrow> device_key list \<Rightarrow> int" where
  "next_version dev ks =
     (case map k_key_version (filter (\<lambda>k. k_device_id k = dev) ks) of [] \<Rightarrow> 1 | v # vs \<Rightarrow> fold max vs v + 1)"

definition upsertMobileDeviceKey :: "env \<Rightarrow> string \<Rightarrow> string \<Rightarrow> db \<Rightarrow> db option" where
  "upsertMobileDeviceKey E dev publicKey d =
     (if fails E 4 then None
      else (case filter (active_of dev) (device_keys d) of
              [] \<Rightarrow> if fails E 5 then None
                   else statement (fails E 6)
                     (insert_key (gen_uuid E 1) dev (next_version dev (device_keys d)) publicKey None d)
            | k # _ \<Rightarrow>
                if k_wg_public_key k = publicKey then Some d
                else Option.bind (statement (fails E 5) (retire_keys (clock E) (\<lambda>x. k_id x = k_id k) d))
                  (\<lambda>d'. statement (fails E 6)
                     (insert_key (gen_uuid E 1) dev (k_key_version k + 1) publicKey (Some (k_id k)) d'))))"

text \<open>
  The transaction of \<open>enrollMobileDevice\<close>: the device, its address and the database it commits.
\<close>

definition enroll_tx :: "'r handler \<Rightarrow> env \<Rightarrow> string \<Rightarrow> enrollRequest \<Rightarrow> db \<Rightarrow>
    (string \<times> string option \<times> db) option" where
  "enroll_tx H E userID req d =
     (if fails E 1 then None
      else (case upsertMobileDevice H E userID req d of None \<Rightarrow> None
        | Some (dev, ip, d1) \<Rightarrow>
            (case upsertMobileDeviceKey E dev (er_WGPublicKey req) d1 of None \<Rightarrow> None
             | Some d2 \<Rightarrow>
                 (case (if ip = None \<and> h_overlay H \<noteq> None
                        then (case AllocateTx E 7 (h_overlay H) dev d2 of
                                (Inl e, _) \<Rightarrow> None | (Inr a, d3) \<Rightarrow> Some (Some (addr_string a), d3))
                        else Some (map_option addr_string ip, d2)) of
                    None \<Rightarrow> None
                  | Some (overlayIP, d3) \<Rightarrow> if fails E 9 then None else Some (dev, overlayIP, d3)))))"

definition enrollMobileDevice :: "'r handler \<Rightarrow> env \<Rightarrow> string \<Rightarrow> enrollRequest \<Rightarrow> 'r world \<Rightarrow>
    (string \<times> string option) option \<times> 'r world" where
  "enrollMobileDevice H E userID req w =
     (case enroll_tx H E userID req (w_db w) of None \<Rightarrow> (None, w)
      | Some (dev, overlayIP, d) \<Rightarrow>
          let w1 = w\<lparr>w_db := d\<rparr> in
          if h_hub H \<noteq> None
          then (if er_DirectScoped req
                then (case sync_all H E 10 w1 of
                        (False, w2) \<Rightarrow> (None, w2) | (True, w2) \<Rightarrow> (Some (dev, overlayIP), w2))
                else (Some (dev, overlayIP), snd (sync_device H E 10 dev w1)))
          else (Some (dev, overlayIP), w1))"

text \<open>The grant of a phone for its home; an existing one gets the new expiry.\<close>

definition grant_home :: "env \<Rightarrow> string \<Rightarrow> string \<Rightarrow> time \<Rightarrow> db \<Rightarrow> db option" where
  "grant_home E mobile homeID expires d =
     (case (uuid_in E mobile, uuid_in E homeID) of
        (Some m, Some h) \<Rightarrow>
          statement (fails E 12)
            (if list_ex (\<lambda>x. d_id x = h \<and> d_status x = ''active'' \<and> d_direct_home_port x \<noteq> None) (devices d)
             then if list_ex (\<lambda>g. hg_mobile g = m \<and> hg_home g = h) (home_grants d)
                  then d\<lparr>home_grants := sql_update (\<lambda>g. hg_mobile g = m \<and> hg_home g = h)
                     (\<lambda>g. g\<lparr>hg_expires_at := expires\<rparr>) (home_grants d)\<rparr>
                  else d\<lparr>home_grants := home_grants d @ [\<lparr>hg_mobile = m, hg_home = h, hg_expires_at = expires\<rparr>]\<rparr>
             else d)
      | _ \<Rightarrow> None)"

record enrollResponse =
  en_DeviceID :: string
  en_OverlayIP :: "string option"
  en_WGConfig :: string

definition renderMobileWGConfig :: "'r handler \<Rightarrow> string \<Rightarrow> string option" where
  "renderMobileWGConfig H deviceOverlayIP =
     (case ServerOverlayIP (WGOverlayCIDR (h_cfg H)) of Inl e \<Rightarrow> None
      | Inr serverOverlayIP \<Rightarrow>
          Some (''[Interface]'' @ nl @ ''Address = '' @ deviceOverlayIP @ ''/32'' @ nl @ nl @
            DeviceSide (GeneratePeerConfig (WGServerPublicKey (h_cfg H)) (WGServerEndpoint (h_cfg H))
              (WGServerPort (h_cfg H)) serverOverlayIP ''mobile-device'' deviceOverlayIP)))"

definition writeMobileEnrollSuccess :: "'r handler \<Rightarrow> string \<Rightarrow> string option \<Rightarrow> enrollResponse response" where
  "writeMobileEnrollSuccess H dev overlayIP =
     (case overlayIP of None \<Rightarrow> Error 503 ''overlay not allocated''
      | Some ip \<Rightarrow> (case renderMobileWGConfig H ip of
                      None \<Rightarrow> Error 500 ''failed to build wireguard config''
                    | Some cfg \<Rightarrow> Reply 200 \<lparr>en_DeviceID = dev, en_OverlayIP = overlayIP, en_WGConfig = cfg\<rparr>))"

definition direct_config :: "string \<Rightarrow> string" where
  "direct_config ip = ''[Interface]'' @ nl @ ''Address = '' @ ip @ ''/32'' @ nl @ ''MTU = 1280'' @ nl"

definition handleEnroll :: "'r handler \<Rightarrow> env \<Rightarrow> Claims option \<Rightarrow> http_req \<Rightarrow> enrollRequest option \<Rightarrow>
    'r world \<Rightarrow> enrollResponse response \<times> 'r world" where
  "handleEnroll H E cl r body w =
     (if claims_sub cl = [] then (Error 401 ''unauthorized'', w)
      else (case parseEnrollRequest (h_crypto H) body of Inl m \<Rightarrow> (Error 400 m, w)
      | Inr req0 \<Rightarrow>
          (case ensureEnrollReady H E (claims_sub cl) w of (Some res, w1) \<Rightarrow> (res, w1)
           | (None, w1) \<Rightarrow>
               let home = (case cl of None \<Rightarrow> [] | Some c \<Rightarrow> DirectHomeID c);
                   expires = (case cl of None \<Rightarrow> 0 | Some c \<Rightarrow> ExpiresAt c);
                   req = req0\<lparr>er_DirectScoped := (home \<noteq> [])\<rparr> in
               (case enrollMobileDevice H E (claims_sub cl) req w1 of
                  (None, w2) \<Rightarrow> (Error 500 ''failed to enroll mobile device'', w2)
                | (Some (dev, overlayIP), w2) \<Rightarrow>
                    (case (if home = [] then Some (w_db w2) else grant_home E dev home expires (w_db w2)) of
                       None \<Rightarrow> (Error 503 ''direct grant unavailable'', w2)
                     | Some d \<Rightarrow>
                         (case overlayIP of
                            Some ip \<Rightarrow>
                              if er_DirectScoped req
                              then Reply 200 \<lparr>en_DeviceID = dev, en_OverlayIP = overlayIP, en_WGConfig = direct_config ip\<rparr>
                              else writeMobileEnrollSuccess H dev overlayIP
                          | None \<Rightarrow> writeMobileEnrollSuccess H dev overlayIP,
                          log_event H E 13 (user_event H r (claims_sub cl) ''device.mobile_enroll'' ''devices'' (Some dev))
                            (w2\<lparr>w_db := d\<rparr>)))))))"

section \<open>The servers of a user\<close>

record mobileServer =
  ms_DeviceID :: string
  ms_Hostname :: string
  ms_Status :: string
  ms_OverlayIP :: "string option"
  ms_OSPlatform :: string
  ms_OSArch :: string

text \<open>The rows come in the order of the hostnames, which is bytewise here.\<close>

definition handleListServers :: "env \<Rightarrow> Claims option \<Rightarrow> 'r world \<Rightarrow> mobileServer list response \<times> 'r world" where
  "handleListServers E cl w =
     (if claims_sub cl = [] then (Error 401 ''unauthorized'', w)
      else if (case cl of None \<Rightarrow> [] | Some c \<Rightarrow> DirectHomeID c) \<noteq> []
      then (Error 403 ''scoped home grant cannot manage mobile devices'', w)
      else (case (if fails E 0 then None else uuid_in E (claims_sub cl)) of
              None \<Rightarrow> (Error 500 ''failed to list mobile servers'', w)
            | Some u \<Rightarrow>
                (Reply 200 (map (\<lambda>x. \<lparr>ms_DeviceID = d_id x, ms_Hostname = d_hostname x, ms_Status = ''active'',
                     ms_OverlayIP = map_option addr_string (d_overlay_ip x), ms_OSPlatform = d_os_platform x,
                     ms_OSArch = d_os_arch x\<rparr>)
                   (sort_key d_hostname (filter (\<lambda>x. d_owner_user_id x = u \<and> d_status x = ''active'' \<and>
                      (d_direct_home_port x \<noteq> None \<or>
                       list_ex (\<lambda>s. sv_device_id s = d_id x) (services (w_db w)))) (devices (w_db w))))), w)))"

section \<open>Disconnecting\<close>

definition disconnectable :: "string \<Rightarrow> device \<Rightarrow> bool" where
  "disconnectable u x \<longleftrightarrow> d_owner_user_id x = u \<and> d_status x = ''active'' \<and> is_mobile x"

definition DisconnectMobileDevices :: "env \<Rightarrow> string \<Rightarrow> db \<Rightarrow> (string list \<times> db) option" where
  "DisconnectMobileDevices E userID d =
     (if fails E 1 then None
      else (case uuid_in E userID of None \<Rightarrow> None
        | Some u \<Rightarrow>
            (case statement (fails E 2) (d\<lparr>devices := sql_update (disconnectable u) (revoked_row E) (devices d)\<rparr>) of
               None \<Rightarrow> None
             | Some d1 \<Rightarrow>
                 let deviceIDs = map d_id (filter (disconnectable u) (devices d)) in
                 if deviceIDs = [] then (if fails E 4 then None else Some (deviceIDs, d1))
                 else (case statement (fails E 3)
                         (retire_keys (clock E) (\<lambda>k. k_device_id k \<in> set deviceIDs \<and> k_state k = ''active'') d1) of
                         None \<Rightarrow> None
                       | Some d2 \<Rightarrow> if fails E 4 then None else Some (deviceIDs, d2)))))"

text \<open>
  The audit event of a disconnect; the text of a synchronisation error is not modelled.
\<close>

definition auditMobileDisconnect :: "'r handler \<Rightarrow> env \<Rightarrow> http_req \<Rightarrow> string \<Rightarrow> string list \<Rightarrow> string \<Rightarrow>
    'r world \<Rightarrow> 'r world" where
  "auditMobileDisconnect H E r userID deviceIDs outcomeOverride w =
     log_event H E 6 ((user_event H r userID ''mobile.disconnect'' ''devices'' None)
       \<lparr>Outcome := (if outcomeOverride \<noteq> [] then outcomeOverride
                   else if deviceIDs = [] then ''info'' else ''success''),
        Metadata := [(''device_ids'', Join deviceIDs '',''), (''device_count'', dec_nat (length deviceIDs))] @
          (if outcomeOverride \<noteq> [] then [(''failure_reason'', ''wg_sync_failed'')] else [])\<rparr>) w"

definition handleDisconnect :: "'r handler \<Rightarrow> env \<Rightarrow> Claims option \<Rightarrow> http_req \<Rightarrow> 'r world \<Rightarrow>
    unit response \<times> 'r world" where
  "handleDisconnect H E cl r w =
     (if claims_sub cl = [] then (Error 401 ''unauthorized'', w)
      else if (case cl of None \<Rightarrow> [] | Some c \<Rightarrow> DirectHomeID c) \<noteq> []
      then (Error 403 ''scoped home grant cannot manage mobile devices'', w)
      else (case rate_limit H E 0 (Key [''mobile'', ''disconnect'', ''user'', claims_sub cl])
              mobileDisconnectLimit mobileDisconnectWindow w of
        (Some res, w1) \<Rightarrow> (res, w1)
      | (None, w1) \<Rightarrow>
          (case DisconnectMobileDevices E (claims_sub cl) (w_db w1) of
             None \<Rightarrow> (Error 500 ''failed to disconnect mobile devices'', w1)
           | Some (deviceIDs, d) \<Rightarrow>
               (case sync_all H E 5 (w1\<lparr>w_db := d\<rparr>) of
                  (False, w2) \<Rightarrow>
                    (Error 503 ''device revoked in database but wireguard sync failed; retry to fully tear down'',
                     auditMobileDisconnect H E r (claims_sub cl) deviceIDs ''failure'' w2)
                | (True, w2) \<Rightarrow>
                    (Reply 204 (), auditMobileDisconnect H E r (claims_sub cl) deviceIDs [] w2)))))"

end
