(* ===== verification/Device_Safety.thy ===== *)
theory Device_Safety
  imports Devices
begin

text \<open>
  Devices as a state machine: a step is one request of any user to any route of
  \<open>internal/devices\<close>. Shown here: a pair code pairs one device and never a second one, no user's
  requests reach the devices of another, keys are versioned upwards with one active key each, and
  guessing codes is bounded by the failure counters.
\<close>

section \<open>The step relation\<close>

inductive device_step :: "'r handler \<Rightarrow> env \<Rightarrow> Claims option \<Rightarrow> 'r world \<Rightarrow> 'r world \<Rightarrow> bool"
  for H E cl where
  pair_start: "handlePairStart H E cl r body w = (res, w') \<Longrightarrow> device_step H E cl w w'"
| pair_status: "handlePairStatus H E query w = (res, w') \<Longrightarrow> device_step H E cl w w'"
| pair_claim: "pairClaim H E cl r req w = (resp, w') \<Longrightarrow> device_step H E cl w w'"
| list_devices: "handleListDevices E cl w = (ds, w') \<Longrightarrow> device_step H E cl w w'"
| get_device: "handleGetDevice E cl param w = (x, w') \<Longrightarrow> device_step H E cl w w'"
| heartbeat: "handleHeartbeat H E cl param hb w = (ack, w') \<Longrightarrow> device_step H E cl w w'"
| rotate_key: "handleRotateKey H E cl r param key w = (ver, w') \<Longrightarrow> device_step H E cl w w'"
| peer_config: "handleGetPeerConfig H E cl param w = (pc, w') \<Longrightarrow> device_step H E cl w w'"
| delete_device: "handleDeleteDevice H E cl r param w = (ack, w') \<Longrightarrow> device_step H E cl w w'"

definition any_device_step :: "'r handler \<Rightarrow> 'r world \<Rightarrow> 'r world \<Rightarrow> bool" where
  "any_device_step H w w' \<longleftrightarrow> (\<exists>E cl. device_step H E cl w w')"

lemma readers_keep:
  "handlePairStatus H E query w = (a, w') \<Longrightarrow> w' = w"
  "handleListDevices E cl w = (b, w') \<Longrightarrow> w' = w"
  "handleGetDevice E cl param w = (c, w') \<Longrightarrow> w' = w"
  "handleGetPeerConfig H E cl param w = (e, w') \<Longrightarrow> w' = w"
  by (auto simp: handlePairStatus_def handleListDevices_def handleGetDevice_def handleGetPeerConfig_def Let_def
      split: if_splits option.splits list.splits sum.splits prod.splits)

text \<open>
  What a step can do, whatever the route: nothing to the tables other than the audit trail, a new
  pair code, a claim, an update of the caller's own device, or a rotation.
\<close>

lemma device_step_cases [consumes 1, case_names keep code claim own rotate]:
  assumes "device_step H E cl w w'"
  obtains
    (keep) "w_db w' = w_db w"
  | (code) row where "db_ok (w_db w')" "core w' = (core w)\<lparr>pair_codes := pair_codes (w_db w) @ [row]\<rparr>"
  | (claim) u hostname credHash ip pc where "db_ok (w_db w')" "uuid_in E (claims_sub cl) = Some u"
      "pc \<in> set (pair_codes (w_db w))" "claimable E pc"
      "core w' = (claimed_db H E u hostname credHash ip pc (w_db w))\<lparr>audit_events := []\<rparr>"
      "db_ok (claimed_db H E u hostname credHash ip pc (w_db w))"
  | (own) x u f where "db_ok (w_db w')" "uuid_in E (claims_sub cl) = Some u"
      "core w' = (core w)\<lparr>devices := sql_update (\<lambda>r. d_id r = x \<and> d_owner_user_id r = u) f (devices (w_db w))\<rparr>"
      "\<And>r. d_id (f r) = d_id r \<and> d_owner_user_id (f r) = d_owner_user_id r"
  | (rotate) dev key n d where "db_ok (w_db w')"
      "rotateActiveDeviceKey E dev (claims_sub cl) key (w_db w) = Inr (n, d)" "core w' = d\<lparr>audit_events := []\<rparr>"
  using assms
proof cases
  case (pair_start r body res)
  from handlePairStart_effect [OF this] show ?thesis
  proof (elim disjE exE conjE)
    fix q c b i j
    assume "db_ok (w_db w')" "w_db w' = (w_db w)\<lparr>pair_codes := pair_codes (w_db w) @
      [pair_code_row E i q (sha256 (h_crypto H) b)]\<rparr>"
    then show ?thesis
      by (intro code [of "pair_code_row E i q (sha256 (h_crypto H) b)"]) (simp_all add: core_def)
  qed (use keep in auto)
next
  case (pair_claim r req resp)
  from pairClaim_effect [OF this] show ?thesis
  proof (elim disjE exE conjE)
    fix q pc rs d c b
    assume c: "claim_code H E (claims_sub cl) (cr_DeviceName q) pc (w_db w) = Inr (rs, d)"
      "pc \<in> set (pair_codes (w_db w))" "claimable E pc" "core w' = d\<lparr>audit_events := []\<rparr>" "db_ok (w_db w')"
    from c(1) show ?thesis by (rule claim_code_effect) (use claim c in auto)
  qed (use keep in auto)
next
  case (heartbeat param hb ack)
  from handleHeartbeat_effect [OF this] show ?thesis
  proof (elim disjE exE conjE)
    fix x u req
    assume "uuid_in E (claims_sub cl) = Some u" "db_ok (w_db w')"
      "w_db w' = (w_db w)\<lparr>devices := sql_update (\<lambda>r. d_id r = x \<and> d_owner_user_id r = u)
         (heartbeat_row E req) (devices (w_db w))\<rparr>"
    then show ?thesis
      by (intro own [of u x "heartbeat_row E req"]) (simp_all add: core_def heartbeat_row_def)
  qed (use keep in auto)
next
  case (delete_device r param ack)
  from handleDeleteDevice_effect [OF this] show ?thesis
  proof (elim disjE exE conjE)
    fix x u
    assume "uuid_in E (claims_sub cl) = Some u" "db_ok (w_db w')"
      "core w' = (core w)\<lparr>devices := sql_update (\<lambda>r. d_id r = x \<and> d_owner_user_id r = u)
         (revoked_row E) (devices (w_db w))\<rparr>"
    then show ?thesis by (intro own [of u x "revoked_row E"]) (simp_all add: revoked_row_def)
  qed (use keep in auto)
next
  case (rotate_key r param key ver)
  from handleRotateKey_effect [OF this] show ?thesis using keep rotate by blast
qed (use keep in \<open>auto dest: readers_keep\<close>)

text \<open>The tables after a claim.\<close>

lemma claimed_db_tables [simp]:
  "pair_codes (claimed_db H E u hostname credHash ip pc d) = sql_update (\<lambda>x. pc_id x = pc_id pc)
     (\<lambda>x. x\<lparr>pc_status := ''claimed'', pc_claimed_device := Some (gen_uuid E 0), pc_claimant := Some u,
           pc_claimed_at := Some (clock E)\<rparr>) (pair_codes d)"
  "device_keys (claimed_db H E u hostname credHash ip pc d) = device_keys d @
     [\<lparr>k_id = gen_uuid E 1, k_device_id = gen_uuid E 0, k_key_version = 1, k_wg_public_key = pc_wg_public_key pc,
       k_state = ''active'', k_rotated_from = None, k_retired_at = None\<rparr>]"
  by (simp_all add: claimed_db_def mark_claimed_def insert_key_def insert_device_def with_overlay_ip_def Let_def
      split: option.splits)

section \<open>A pair code pairs one device\<close>

definition spent :: "string \<Rightarrow> string \<Rightarrow> 'r world \<Rightarrow> bool" where
  "spent h dev w \<longleftrightarrow> db_ok (w_db w) \<and>
     (\<exists>p \<in> set (pair_codes (w_db w)). pc_code_hash p = h \<and> pc_status p = ''claimed'' \<and> pc_claimed_device p = Some dev)"

lemma pair_code_unique:
  assumes "db_ok d" "p \<in> set (pair_codes d)" "q \<in> set (pair_codes d)" "pc_id p = pc_id q \<or> pc_code_hash p = pc_code_hash q"
  shows "p = q"
proof -
  have "unique_on (\<lambda>r. Some (pc_id r)) (pair_codes d)" "unique_on (\<lambda>r. Some (pc_code_hash r)) (pair_codes d)"
    using assms(1) by (simp_all add: db_ok_def pair_codes_ok_def pk_def)
  then show ?thesis using assms(2-4) unique_onD by fastforce
qed

lemma spent_step:
  assumes "spent h dev w" "device_step H E cl w w'"
  shows "spent h dev w'"
proof -
  obtain p where p: "db_ok (w_db w)" "p \<in> set (pair_codes (w_db w))" "pc_code_hash p = h"
    "pc_status p = ''claimed''" "pc_claimed_device p = Some dev" using assms(1) by (auto simp: spent_def)
  have "p \<in> set (pair_codes (w_db w')) \<and> db_ok (w_db w')"
    using assms(2)
  proof (cases rule: device_step_cases)
    case keep
    then show ?thesis using p by simp
  next
    case (code row)
    then have "pair_codes (core w') = pair_codes (w_db w) @ [row]" by simp
    then show ?thesis using p code(1) by (simp add: core_def)
  next
    case (claim u hostname credHash ip pc)
    have "pair_codes (core w') = pair_codes (claimed_db H E u hostname credHash ip pc (w_db w))"
      using claim(5) by simp
    moreover have "pc_id p \<noteq> pc_id pc"
      using pair_code_unique [OF p(1,2) claim(3)] p(4) claim(4) by (auto simp: claimable_def)
    ultimately show ?thesis using p(2) claim(1) by (simp add: core_def set_sql_update)
  next
    case (own x u f)
    then have "pair_codes (core w') = pair_codes (w_db w)" by (simp add: core_def)
    then show ?thesis using p own(1) by (simp add: core_def)
  next
    case (rotate dv key n d)
    from rotate(2) have "pair_codes d = pair_codes (w_db w)"
      by (rule rotate_effect) (simp add: insert_key_def retire_keys_def)
    then have "pair_codes (core w') = pair_codes (w_db w)" using rotate(3) by simp
    then show ?thesis using p rotate(1) by (simp add: core_def)
  qed
  with p show ?thesis by (auto simp: spent_def)
qed

interpretation codes: invariant_system "any_device_step H" "spent h dev" for H h dev
  by unfold_locales (auto simp: any_device_step_def intro: spent_step)

text \<open>A claim that succeeds marks its code, and a marked code is refused.\<close>

lemma claim_spends:
  assumes "pairClaim H E cl r (Some req) w = (Reply 200 resp, w1)"
    and "bytea_in E (ToUpper (h_crypto H) (TrimSpace (cr_Code req))) = Some b"
  shows "spent (sha256 (h_crypto H) b) (cr_DeviceID resp) w1"
proof -
  obtain pc d where c: "pc \<in> set (pair_codes (w_db w))" "pc_code_hash pc = sha256 (h_crypto H) b"
    "claim_code H E (claims_sub cl) (cr_DeviceName req) pc (w_db w) = Inr (resp, d)"
    "core w1 = d\<lparr>audit_events := []\<rparr>" "db_ok (w_db w1)"
    using pairClaim_effect [OF assms(1)] assms(2) by auto
  have "pair_codes (core w1) = pair_codes d" using c(4) by simp
  moreover have "\<exists>p \<in> set (pair_codes d). pc_code_hash p = sha256 (h_crypto H) b \<and>
      pc_status p = ''claimed'' \<and> pc_claimed_device p = Some (cr_DeviceID resp)"
    using c(3)
  proof (rule claim_code_effect)
    fix u hostname credHash ip
    assume "d = claimed_db H E u hostname credHash ip pc (w_db w)" "cr_DeviceID resp = gen_uuid E 0"
    then show ?thesis using c(1,2) by (auto simp: set_sql_update bex_Un)
  qed
  ultimately show ?thesis using c(5) by (simp add: spent_def core_def)
qed

lemma spent_refused:
  assumes "spent (sha256 (h_crypto H) b) dev w" "bytea_in E (ToUpper (h_crypto H) (TrimSpace (cr_Code req))) = Some b"
  shows "pairClaim H E cl r (Some req) w \<noteq> (Reply 200 resp, w')"
proof
  assume "pairClaim H E cl r (Some req) w = (Reply 200 resp, w')"
  from pairClaim_effect [OF this] assms(2) obtain q where
    "q \<in> set (pair_codes (w_db w))" "pc_code_hash q = sha256 (h_crypto H) b" "claimable E q" by auto
  moreover obtain p where "db_ok (w_db w)" "p \<in> set (pair_codes (w_db w))"
    "pc_code_hash p = sha256 (h_crypto H) b" "pc_status p = ''claimed''" using assms(1) by (auto simp: spent_def)
  ultimately show False using pair_code_unique [of "w_db w" q p] by (auto simp: claimable_def)
qed

text \<open>
  A pair code pairs one device, once. After a successful claim, whatever requests any users send
  to the device routes, the code stays marked as claimed with the device it paired, and no claim
  with a text that stands for the same code succeeds again.
\<close>

theorem pair_code_single_use:
  assumes "pairClaim H E cl r (Some req) w = (Reply 200 resp, w1)"
    and "bytea_in E (ToUpper (h_crypto H) (TrimSpace (cr_Code req))) = Some b"
    and "reach w1 (any_device_step H) w2"
    and "bytea_in E' (ToUpper (h_crypto H) (TrimSpace (cr_Code req'))) = Some b"
  shows "(\<exists>p \<in> set (pair_codes (w_db w2)). pc_code_hash p = sha256 (h_crypto H) b \<and>
      pc_status p = ''claimed'' \<and> pc_claimed_device p = Some (cr_DeviceID resp)) \<and>
    (\<forall>resp'. fst (pairClaim H E' cl' r' (Some req') w2) \<noteq> Reply 200 resp')"
proof -
  have s: "spent (sha256 (h_crypto H) b) (cr_DeviceID resp) w2"
    using codes.reach_inv [OF assms(3)] claim_spends [OF assms(1,2)] by simp
  show ?thesis
    using s spent_refused [OF s assms(4)] by (auto simp: spent_def) (metis prod.collapse)
qed

text \<open>A pending code of the sample network, its claim, and a second try.\<close>

definition sample_start :: pairStartRequest where
  "sample_start = \<lparr>ps_WGPublicKey = sample_key, ps_Hostname = ''nas'', ps_OSPlatform = ''linux'',
     ps_OSArch = ''arm64'', ps_AgentVersion = ''1''\<rparr>"

definition sample_user :: "Claims option" where
  "sample_user = Some \<lparr>CapabilityKind = [], SessionID = ''s1'', Sub = ''u1'', IsSuper = False,
     Audience = [''admin''], ExpiresAt = 60 * Second, DirectHomeID = []\<rparr>"

definition paired_world :: "redis_store world" where
  "paired_world = snd (handlePairStart sample_handler (calm 5 [''p1'']) sample_user sample_req (Some sample_start)
     (sample_world (empty_db\<lparr>users := [mk_user ''u1'', mk_user ''u2'']\<rparr>)))"

definition sample_claim :: pairClaimRequest where
  "sample_claim = \<lparr>cr_Code = '' abcdef '', cr_DeviceName = []\<rparr>"

definition hubless :: "redis_store handler" where
  "hubless = sample_handler\<lparr>h_hub := None\<rparr>"

theorem pair_code_single_use_witness:
  "\<exists>resp w1. pairClaim hubless (calm 9 [''d9'', ''k9'']) sample_user sample_req (Some sample_claim) paired_world
       = (Reply 200 resp, w1) \<and> cr_DeviceID resp = ''d9'' \<and>
     (\<forall>resp'. fst (pairClaim hubless (calm 9 []) sample_user sample_req (Some sample_claim) w1) \<noteq> Reply 200 resp')"
proof -
  let ?run = "pairClaim hubless (calm 9 [''d9'', ''k9'']) sample_user sample_req (Some sample_claim) paired_world"
  have f: "case fst ?run of Reply n resp \<Rightarrow> n = 200 \<and> cr_DeviceID resp = ''d9'' | _ \<Rightarrow> False" by code_simp
  obtain resp w1 where r: "?run = (Reply 200 resp, w1)" "cr_DeviceID resp = ''d9''"
    using f by (cases ?run; cases "fst ?run") auto
  have "\<forall>resp'. fst (pairClaim hubless (calm 9 []) sample_user sample_req (Some sample_claim) w1) \<noteq> Reply 200 resp'"
    using pair_code_single_use [OF r(1) _ reach_start, of "ToUpper (h_crypto hubless) (TrimSpace (cr_Code sample_claim))"
        "calm 9 []" sample_claim sample_user sample_req] by simp
  with r show ?thesis by blast
qed

section \<open>Requests of others leave a user's devices alone\<close>

text \<open>Identifiers the database generates are in the form its conversion delivers.\<close>

definition uuid_laws :: "env \<Rightarrow> bool" where
  "uuid_laws E \<longleftrightarrow> (\<forall>n. uuid_in E (gen_uuid E n) = Some (gen_uuid E n))"

definition stranger_step :: "'r handler \<Rightarrow> string \<Rightarrow> 'r world \<Rightarrow> 'r world \<Rightarrow> bool" where
  "stranger_step H owner w w' \<longleftrightarrow>
     (\<exists>E cl. device_step H E cl w w' \<and> uuid_laws E \<and> claims_sub cl \<noteq> owner \<and> uuid_in E (claims_sub cl) \<noteq> Some owner)"

definition keys_of :: "device list \<Rightarrow> device_key list \<Rightarrow> device_key list" where
  "keys_of ds ks = filter (\<lambda>k. k_device_id k \<in> d_id ` set ds) ks"

definition devices_of :: "string \<Rightarrow> device list \<Rightarrow> device list" where
  "devices_of owner ds = filter (\<lambda>x. d_owner_user_id x = owner) ds"

definition holdings :: "string \<Rightarrow> device list \<Rightarrow> device_key list \<Rightarrow> 'r world \<Rightarrow> bool" where
  "holdings owner ds ks w \<longleftrightarrow> db_ok (w_db w) \<and> devices_of owner (devices (w_db w)) = ds \<and>
     keys_of ds (device_keys (w_db w)) = ks"

lemma filter_sql_update:
  assumes "\<And>r. r \<in> set t \<Longrightarrow> p r \<Longrightarrow> \<not> q r \<and> \<not> q (f r)"
  shows "filter q (sql_update p f t) = filter q t"
  using assms by (induction t) auto

lemma filter_sql_update_none:
  assumes "\<And>r. p r \<Longrightarrow> \<not> q (f r)" "\<And>r. \<not> p r \<Longrightarrow> \<not> q r"
  shows "filter q (sql_update p f t) = []"
  using assms by (induction t) auto

lemma claimed_db_fresh:
  assumes "db_ok (claimed_db H E u hostname credHash ip pc d)"
  shows "gen_uuid E 0 \<notin> set (map d_id (devices d))"
proof -
  have m: "map d_id (devices (claimed_db H E u hostname credHash ip pc d)) =
      map d_id (devices d @ [claimed_device_row E u hostname credHash pc])"
    by (simp add: claimed_db_def mark_claimed_def insert_key_def insert_device_def with_overlay_ip_def Let_def
        map_sql_update split: option.splits)
  have "distinct (map d_id (devices (claimed_db H E u hostname credHash ip pc d)))"
    using assms by (simp add: db_ok_def devices_ok_def pk_distinct)
  then show ?thesis unfolding m by (simp add: claimed_device_row_def)
qed

lemma claimed_db_devices:
  assumes "uuid_laws E" "db_ok (claimed_db H E u hostname credHash ip pc d)"
  obtains row where "devices (claimed_db H E u hostname credHash ip pc d) = devices d @ [row]"
    "d_id row = gen_uuid E 0" "d_owner_user_id row = u" "\<forall>x \<in> set (devices d). d_id x \<noteq> gen_uuid E 0"
proof -
  let ?row = "claimed_device_row E u hostname credHash pc"
  have v: "uuid_in E (gen_uuid E 0) = Some (gen_uuid E 0)" using assms(1) by (simp add: uuid_laws_def)
  have f: "\<forall>x \<in> set (devices d). d_id x \<noteq> gen_uuid E 0" using claimed_db_fresh [OF assms(2)] by force
  show ?thesis
  proof (cases ip)
    case None
    then show ?thesis
      using that [of ?row] f
      by (simp add: claimed_db_def mark_claimed_def insert_key_def insert_device_def claimed_device_row_def Let_def)
  next
    case (Some a)
    have "sql_update (\<lambda>r. d_id r = gen_uuid E 0)
        (\<lambda>r. r\<lparr>d_overlay_ip := Some a, d_overlay_ip_allocated_at := Some (clock E)\<rparr>) (devices d) = devices d"
      by (rule sql_update_none) (use f in \<open>simp add: sql_count_pos\<close>)
    then show ?thesis
      using that [of "?row\<lparr>d_overlay_ip := Some a, d_overlay_ip_allocated_at := Some (clock E)\<rparr>"] f v Some
      by (simp add: claimed_db_def mark_claimed_def insert_key_def insert_device_def claimed_device_row_def Let_def
          with_overlay_ip_def sql_update_append)
  qed
qed

lemma holdings_step:
  assumes "holdings owner ds ks w" "stranger_step H owner w w'"
  shows "holdings owner ds ks w'"
proof -
  from assms(2) obtain E cl where st: "device_step H E cl w w'" and E: "uuid_laws E" "claims_sub cl \<noteq> owner"
    "uuid_in E (claims_sub cl) \<noteq> Some owner" by (auto simp: stranger_step_def)
  have P: "db_ok (w_db w)" "ds = devices_of owner (devices (w_db w))" "ks = keys_of ds (device_keys (w_db w))"
    using assms(1) by (auto simp: holdings_def)
  have eq: "devices (w_db w') = devices (core w')" "device_keys (w_db w') = device_keys (core w')"
    by (simp_all add: core_def)
  from st show ?thesis
  proof (cases rule: device_step_cases)
    case keep
    then show ?thesis using assms(1) by (simp add: holdings_def)
  next
    case (code row)
    then show ?thesis using P eq by (simp add: holdings_def) (simp add: core_def)
  next
    case (claim u hostname credHash ip pc)
    from E(1) claim(6) obtain row where row:
        "devices (claimed_db H E u hostname credHash ip pc (w_db w)) = devices (w_db w) @ [row]"
        "d_owner_user_id row = u" "\<forall>x \<in> set (devices (w_db w)). d_id x \<noteq> gen_uuid E 0"
      by (rule claimed_db_devices)
    have "u \<noteq> owner" using E(3) claim(2) by auto
    moreover have "gen_uuid E 0 \<notin> d_id ` set ds" using row(3) unfolding P by (auto simp: devices_of_def)
    ultimately show ?thesis
      using P claim(1) row unfolding holdings_def eq claim(5) by (simp add: devices_of_def keys_of_def)
  next
    case (own x u f)
    then have "u \<noteq> owner" using E(3) by auto
    then have "devices_of owner (devices (w_db w')) = ds"
      unfolding P devices_of_def eq own(3) using own(4) by (auto intro!: filter_sql_update)
    then show ?thesis using P eq own by (simp add: holdings_def) (simp add: core_def)
  next
    case (rotate dv key n d)
    from rotate(2) show ?thesis
    proof (rule rotate_effect)
      fix x old u
      assume x: "x \<in> set (devices (w_db w))" "d_id x = u" "d_owner_user_id x = claims_sub cl"
        and d: "d = insert_key (gen_uuid E 0) u n key (Some (k_id old)) (retire_keys (clock E) (active_of u) (w_db w))"
      have ok: "devices_ok (users (w_db w)) (devices (w_db w))" using P(1) by (simp add: db_ok_def)
      have "u \<notin> d_id ` set ds"
      proof
        assume "u \<in> d_id ` set ds"
        then obtain y where y: "y \<in> set (devices (w_db w))" "d_id y = u" "d_owner_user_id y = owner"
          unfolding P by (auto simp: devices_of_def)
        have "y = x" by (rule device_unique [OF ok y(1) x(1)]) (simp add: y x)
        then show False using y(3) x(3) E(2) by simp
      qed
      then have "keys_of ds (device_keys d) = ks"
        unfolding P(3) keys_of_def d
        by (simp add: insert_key_def retire_keys_def) (rule filter_sql_update, simp add: active_of_def)
      moreover have "devices d = devices (w_db w)" by (simp add: d insert_key_def retire_keys_def)
      ultimately show ?thesis
        using P(2) [symmetric] rotate(1) unfolding holdings_def eq rotate(3) by simp
    qed
  qed
qed

interpretation strangers: invariant_system "stranger_step H owner" "holdings owner ds ks" for H owner ds ks
  by unfold_locales (auto intro: holdings_step)

text \<open>
  The requests of other users, however many, leave a user's devices and their keys exactly as
  they were: no status, address, endpoint, heartbeat or key of them changes, none disappears, and
  none is added.
\<close>

theorem device_isolation:
  assumes "db_ok (w_db w)" "reach w (stranger_step H owner) w'"
  shows "devices_of owner (devices (w_db w')) = devices_of owner (devices (w_db w)) \<and>
    keys_of (devices_of owner (devices (w_db w))) (device_keys (w_db w')) =
    keys_of (devices_of owner (devices (w_db w))) (device_keys (w_db w))"
  using strangers.reach_inv [OF assms(2), of "devices_of owner (devices (w_db w))"
      "keys_of (devices_of owner (devices (w_db w))) (device_keys (w_db w))"] assms(1)
  by (simp add: holdings_def)

theorem device_isolation_witness:
  "db_ok (w_db paired_world) \<and>
   stranger_step hubless ''u2'' paired_world
     (snd (pairClaim hubless (calm 9 [''d9'', ''k9'']) sample_user sample_req (Some sample_claim) paired_world)) \<and>
   devices_of ''u2'' (devices (w_db (snd (pairClaim hubless (calm 9 [''d9'', ''k9'']) sample_user sample_req
     (Some sample_claim) paired_world)))) = []"
proof -
  let ?w = "snd (pairClaim hubless (calm 9 [''d9'', ''k9'']) sample_user sample_req (Some sample_claim) paired_world)"
  have ok: "db_ok (w_db paired_world)" and none: "devices (w_db paired_world) = []" by code_simp+
  have "device_step hubless (calm 9 [''d9'', ''k9'']) sample_user paired_world ?w"
    by (rule pair_claim [OF prod.collapse [symmetric]])
  then have st: "stranger_step hubless ''u2'' paired_world ?w"
    unfolding stranger_step_def
    by (intro exI [of _ "calm 9 [''d9'', ''k9'']"] exI [of _ sample_user])
      (simp add: uuid_laws_def sample_user_def claims_sub_def)
  show ?thesis
    using device_isolation [OF ok reach_step [where step = "stranger_step hubless ''u2''", OF reach_start st]] ok st none by (simp add: devices_of_def)
qed

section \<open>Keys\<close>

text \<open>
  A rotation that succeeds is the caller's own: the device is active and owned by the caller, its
  one active key afterwards is the new one with the next version and a reference to the key it
  replaces, which is retired; every key of every other device is untouched.
\<close>

theorem rotate_key_effect:
  assumes "db_ok (w_db w)" "handleRotateKey H E cl r param (Some key) w = (Reply 200 n, w')"
  shows "\<exists>x old new. x \<in> set (devices (w_db w)) \<and> uuid_in E (TrimSpace param) = Some (d_id x) \<and>
    d_status x = ''active'' \<and> d_owner_user_id x = claims_sub cl \<and>
    old \<in> set (device_keys (w_db w)) \<and> active_of (d_id x) old \<and> n = k_key_version old + 1 \<and>
    filter (active_of (d_id x)) (device_keys (w_db w')) = [new] \<and> k_wg_public_key new = key \<and>
    k_key_version new = n \<and> k_rotated_from new = Some (k_id old) \<and>
    filter (\<lambda>k. k_device_id k \<noteq> d_id x) (device_keys (w_db w')) =
    filter (\<lambda>k. k_device_id k \<noteq> d_id x) (device_keys (w_db w)) \<and> devices (w_db w') = devices (w_db w)"
proof -
  obtain d where d: "rotateActiveDeviceKey E (TrimSpace param) (claims_sub cl) key (w_db w) = Inr (n, d)"
      "core w' = d\<lparr>audit_events := []\<rparr>"
    using handleRotateKey_effect [OF assms(2)] by auto
  have eq: "devices (w_db w') = devices (core w')" "device_keys (w_db w') = device_keys (core w')"
    by (simp_all add: core_def)
  from d(1) show ?thesis
  proof (rule rotate_effect)
    fix x old u
    assume x: "uuid_in E (TrimSpace param) = Some u" "x \<in> set (devices (w_db w))" "d_id x = u"
        "d_status x = ''active''" "d_owner_user_id x = claims_sub cl" "old \<in> set (device_keys (w_db w))"
        "active_of u old" "n = k_key_version old + 1"
      and dd: "d = insert_key (gen_uuid E 0) u n key (Some (k_id old)) (retire_keys (clock E) (active_of u) (w_db w))"
    let ?new = "\<lparr>k_id = gen_uuid E 0, k_device_id = u, k_key_version = n, k_wg_public_key = key,
      k_state = ''active'', k_rotated_from = Some (k_id old), k_retired_at = None\<rparr>"
    let ?ret = "sql_update (active_of u) (\<lambda>k. k\<lparr>k_state := ''retired'', k_retired_at := Some (clock E)\<rparr>)
      (device_keys (w_db w))"
    have ks: "device_keys (w_db w') = ?ret @ [?new]" "devices (w_db w') = devices (w_db w)"
      unfolding eq d(2) dd by (simp_all add: insert_key_def retire_keys_def)
    have "filter (active_of u) ?ret = []"
      by (rule filter_sql_update_none) (simp_all add: active_of_def)
    then have "filter (active_of u) (device_keys (w_db w')) = [?new]"
      unfolding ks by (simp add: active_of_def)
    moreover have "filter (\<lambda>k. k_device_id k \<noteq> u) ?ret = filter (\<lambda>k. k_device_id k \<noteq> u) (device_keys (w_db w))"
      by (rule filter_sql_update) (simp add: active_of_def)
    ultimately show ?thesis using x ks by (intro exI [of _ x] exI [of _ old] exI [of _ ?new]) simp
  qed
qed

theorem rotate_key_effect_witness:
  "\<exists>w'. handleRotateKey hubless (calm 9 [''k9'']) sample_user sample_req ''d1''
       (Some (CHR ''C'' # tl sample_key)) (sample_world sample_net) = (Reply 200 2, w') \<and>
     (\<exists>new. filter (active_of ''d1'') (device_keys (w_db w')) = [new] \<and> k_key_version new = 2)"
proof -
  let ?run = "handleRotateKey hubless (calm 9 [''k9'']) sample_user sample_req ''d1''
       (Some (CHR ''C'' # tl sample_key)) (sample_world sample_net)"
  have f: "fst ?run = Reply 200 2" "db_ok (w_db (sample_world sample_net))"
    "list_all (\<lambda>x. d_id x = ''d1'') (devices (w_db (sample_world sample_net)))" by code_simp+
  obtain w' where r: "?run = (Reply 200 2, w')" using f(1) by (metis prod.collapse)
  from rotate_key_effect [OF f(2) r] f(3) r show ?thesis by (auto simp: list_all_iff)
qed

section \<open>Guessing pair codes\<close>

fun wrong_guesses :: "'r handler \<Rightarrow> string \<Rightarrow> (env \<times> Claims option \<times> http_req \<times> pairClaimRequest option) list \<Rightarrow>
    'r world \<Rightarrow> nat" where
  "wrong_guesses H k [] w = 0"
| "wrong_guesses H k ((E, cl, r, b) # rs) w =
     (case pairClaim H E cl r b w of (res, w') \<Rightarrow>
        (if claim_ip_key (client_ip H r) = k \<and> res = Error 404 ''invalid or expired code'' then 1 else 0) +
        wrong_guesses H k rs w')"

text \<open>After \<open>j\<close> wrong guesses since \<open>t0\<close> the counter of the key stands at \<open>j\<close> or more, at least until \<open>h\<close>.\<close>

definition counted :: "time \<Rightarrow> time \<Rightarrow> string \<Rightarrow> nat \<Rightarrow> redis_store \<Rightarrow> bool" where
  "counted t0 h k j st \<longleftrightarrow> j = 0 \<and> live st (rkey k) t0 = None \<or>
     (\<exists>v e. st (rkey k) = Some (v, Some e) \<and> int j \<le> v \<and> 1 \<le> v \<and> h \<le> e)"

lemma Key_claim:
  "claim_ip_key s = ''devices:pair:claim:failure:'' @ (if TrimSpace (RateLimitIP s) = [] then ''ip''
     else ''ip:'' @ TrimSpace (RateLimitIP s))"
  "claim_code_key C c = ''devices:pair:claim:failure:'' @ (if TrimSpace (HashToken C c) = [] then ''code''
     else ''code:'' @ TrimSpace (HashToken C c))"
proof -
  have "TrimSpace ''devices'' = ''devices''" "TrimSpace ''pair'' = ''pair''" "TrimSpace ''claim'' = ''claim''"
    "TrimSpace ''failure'' = ''failure''" "TrimSpace ''ip'' = ''ip''" "TrimSpace ''code'' = ''code''"
    by code_simp+
  then show "claim_ip_key s = ''devices:pair:claim:failure:'' @ (if TrimSpace (RateLimitIP s) = [] then ''ip''
     else ''ip:'' @ TrimSpace (RateLimitIP s))"
  "claim_code_key C c = ''devices:pair:claim:failure:'' @ (if TrimSpace (HashToken C c) = [] then ''code''
     else ''code:'' @ TrimSpace (HashToken C c))"
    by (simp_all add: claim_ip_key_def claim_code_key_def Key_def)
qed

lemma claim_keys_differ: "claim_code_key C c \<noteq> claim_ip_key s"
  by (simp add: Key_claim)

lemma redis_Hit_store:
  assumes "redis_laws R store" "redis_Hit R fail k w t r = (res, r')"
  shows "r' = r \<and> (\<exists>e. res = Inl e) \<or>
    (\<exists>d. res = Inr d \<and> 0 < w \<and> Count d = fst (incr_val (live (store r) (rkey k) t)) \<and>
       store r' = bump_store (store r) (rkey k) (w div 1000000) t)"
proof (cases "fail \<or> TrimSpace k = [] \<or> w \<le> 0")
  case True
  then show ?thesis using assms(2) by (auto simp: redis_Hit_def redis_bump_def split: if_splits)
next
  case False
  then have "redis_bump R False k w t r = (res, r')" using assms(2) by (simp add: redis_Hit_def)
  from redis_bump_store [OF assms(1) this] False show ?thesis by auto
qed

lemma counted_hit:
  assumes "counted t0 h k j st" "t0 \<le> t" "t < h" "h \<le> t0 + w div 1000000 * 1000000" "0 < w div 1000000"
  shows "counted t0 h k (j + 1) (bump_store st (rkey k) (w div 1000000) t)"
    and "int j + 1 \<le> fst (incr_val (live st (rkey k) t))"
proof -
  have dead: "live st (rkey k) t = None" if "live st (rkey k) t0 = None"
    using that assms(2) by (auto simp: alive_def split: option.splits prod.splits if_splits)
  show "counted t0 h k (j + 1) (bump_store st (rkey k) (w div 1000000) t)"
    "int j + 1 \<le> fst (incr_val (live st (rkey k) t))"
    using assms dead
    by (auto simp: counted_def bump_store_def incr_val_def alive_def Let_def split: option.splits if_splits)
qed

lemma counted_other:
  "counted t0 h k j st \<Longrightarrow> k' \<noteq> k \<Longrightarrow> counted t0 h k j (bump_store st (rkey k') ms t)"
  by (simp add: counted_def bump_store_other)

lemma invalid_claim_counted:
  assumes R: "redis_laws (h_redis H) store" and c: "counted t0 h k j (store s)" and k: "k = claim_ip_key src"
    and w: "w_limiter w = OnRedis s" "handleInvalidPairClaim H E i ip code w = (res, w')"
    and t: "t0 \<le> clock E" "clock E < h" "h \<le> t0 + Hour"
  obtains s' where "w_limiter w' = OnRedis s'"
    "counted t0 h k (if claim_ip_key ip = k \<and> res = Error 404 ''invalid or expired code'' then j + 1 else j) (store s')"
    "claim_ip_key ip = k \<Longrightarrow> res = Error 404 ''invalid or expired code'' \<Longrightarrow> j < 4"
proof -
  obtain r1 s1 where h1: "redis_Hit (h_redis H) (fails E i) (claim_ip_key ip) pairClaimSourceLockWindow (clock E) s
      = (r1, s1)" by (rule prod.exhaust)
  obtain r2 s2 where h2: "redis_Hit (h_redis H) (fails E (i + 1)) (claim_code_key (h_crypto H) code)
      pairClaimCodeLockWindow (clock E) s1 = (r2, s2)" by (rule prod.exhaust)
  note H1 = redis_Hit_store [OF R h1] and H2 = redis_Hit_store [OF R h2]
  have win: "pairClaimSourceLockWindow div 1000000 * 1000000 = Hour" "0 < pairClaimSourceLockWindow div 1000000"
    by (simp_all add: pairClaimSourceLockWindow_def Hour_def Minute_def Second_def)
  have s1: "counted t0 h k (if claim_ip_key ip = k \<and> (\<exists>d. r1 = Inr d) then j + 1 else j) (store s1)"
    using H1
  proof (elim disjE exE conjE)
    fix d
    assume d: "r1 = Inr d" "store s1 = bump_store (store s) (rkey (claim_ip_key ip)) (pairClaimSourceLockWindow div 1000000) (clock E)"
    show ?thesis
    proof (cases "claim_ip_key ip = k")
      case True
      then show ?thesis using d counted_hit(1) [OF c t(1,2), of pairClaimSourceLockWindow] win t(3) by simp
    next
      case False
      then show ?thesis using d counted_other [OF c False] by simp
    qed
  qed (use c in auto)
  have s2: "counted t0 h k m (store s2)" if "counted t0 h k m (store s1)" for m
    using H2 counted_other [OF that, of "claim_code_key (h_crypto H) code"] claim_keys_differ k that by auto
  have few: "j < 4" if "claim_ip_key ip = k" "r1 = Inr d" "Count d < pairClaimFailureLimit" for d
    using that H1 counted_hit(2) [OF c t(1,2), of pairClaimSourceLockWindow] win t(3)
    by (auto simp: pairClaimFailureLimit_def)
  show ?thesis
  proof (cases r1)
    case (Inl e)
    then show ?thesis
      using that [of s1] s1 w h1 by (auto simp: handleInvalidPairClaim_def recordPairClaimFailure_def)
  next
    case (Inr d)
    let ?j = "if claim_ip_key ip = k then j + 1 else j"
    have less: "counted t0 h k j (store x)" if "counted t0 h k ?j (store x)" for x
      using that by (auto simp: counted_def split: if_splits)
    show ?thesis
    proof (cases "pairClaimFailureLimit \<le> Count d")
      case True
      then show ?thesis
        using that [of s1] less [of s1] s1 w h1 Inr
        by (auto simp: handleInvalidPairClaim_def recordPairClaimFailure_def)
    next
      case False
      then have "w_limiter w' = OnRedis s2"
        using w h1 h2 Inr by (auto simp: handleInvalidPairClaim_def recordPairClaimFailure_def
            split: sum.splits if_splits)
      then show ?thesis
        using that [of s2] less [of s2] s2 [of ?j] s1 few [of d] False Inr
        by (cases "claim_ip_key ip = k \<and> res = Error 404 ''invalid or expired code''") auto
    qed
  qed
qed

lemma pairClaim_counted:
  assumes R: "redis_laws (h_redis H) store" and c: "counted t0 h k j (store s)" and k: "k = claim_ip_key src"
    and w: "w_limiter w = OnRedis s" "pairClaim H E cl r body w = (res, w')"
    and t: "t0 \<le> clock E" "clock E < h" "h \<le> t0 + Hour"
  obtains s' where "w_limiter w' = OnRedis s'"
    "counted t0 h k (if claim_ip_key (client_ip H r) = k \<and> res = Error 404 ''invalid or expired code'' then j + 1 else j) (store s')"
    "claim_ip_key (client_ip H r) = k \<Longrightarrow> res = Error 404 ''invalid or expired code'' \<Longrightarrow> j < 4"
proof (cases "\<exists>req. body = Some req \<and> pairClaim H E cl r body w =
    handleInvalidPairClaim H E 4 (client_ip H r) (ToUpper (h_crypto H) (TrimSpace (cr_Code req))) w")
  case True
  then obtain code where "handleInvalidPairClaim H E 4 (client_ip H r) code w = (res, w')" using w(2) by auto
  from invalid_claim_counted [OF R c k w(1) this t] that show ?thesis by metis
next
  case False
  have "w_limiter w' = w_limiter w \<and> res \<noteq> Error 404 ''invalid or expired code''"
    using w(2) False
    by (auto simp: pairClaim_def Let_def allowPairClaim_def claim_code_def
        split: if_splits option.splits list.splits sum.splits prod.splits)
  then show ?thesis using that [of s] c w(1) by auto
qed

text \<open>
  C19. Guessing is slow: whatever codes are tried and whoever signs the requests, one source (an IPv4
  address or an IPv6 \<open>/64\<close>) whose failure counter is not running gets at most four wrong codes
  answered as wrong within an hour; every further wrong code within the hour is answered by the
  lock, since the counter survives the hour and only grows.
\<close>

theorem pair_code_guesses_bounded:
  assumes "redis_laws (h_redis H) store" "w_limiter w = OnRedis s"
    and "live (store s) (rkey (claim_ip_key src)) t0 = None"
    and "\<forall>q \<in> set reqs. t0 \<le> clock (fst q) \<and> clock (fst q) < t0 + pairClaimSourceLockWindow"
  shows "wrong_guesses H (claim_ip_key src) reqs w \<le> 4"
proof -
  have "wrong_guesses H (claim_ip_key src) reqs w + j \<le> 4 \<or> wrong_guesses H (claim_ip_key src) reqs w = 0"
    if "w_limiter w = OnRedis s" "counted t0 (t0 + Hour) (claim_ip_key src) j (store s)"
      "\<forall>q \<in> set reqs. t0 \<le> clock (fst q) \<and> clock (fst q) < t0 + Hour" for j s w
    using that
  proof (induction reqs arbitrary: w s j)
    case (Cons q reqs)
    obtain E cl r b where q: "q = (E, cl, r, b)" by (cases q) auto
    obtain res w' where p: "pairClaim H E cl r b w = (res, w')" by (rule prod.exhaust)
    from Cons.prems q have t: "t0 \<le> clock E" "clock E < t0 + Hour" by auto
    let ?j = "if claim_ip_key (client_ip H r) = claim_ip_key src \<and> res = Error 404 ''invalid or expired code''
      then j + 1 else j"
    obtain s' where "w_limiter w' = OnRedis s'" "counted t0 (t0 + Hour) (claim_ip_key src) ?j (store s')"
      "claim_ip_key (client_ip H r) = claim_ip_key src \<Longrightarrow> res = Error 404 ''invalid or expired code'' \<Longrightarrow> j < 4"
      using pairClaim_counted [OF assms(1) Cons.prems(2) refl Cons.prems(1) p t] by (metis order_refl)
    then show ?case using Cons.IH [of w' s' ?j] Cons.prems(3) q p by (auto split: if_splits)
  qed simp
  moreover have "counted t0 (t0 + Hour) (claim_ip_key src) 0 (store s)" using assms(3) by (simp add: counted_def)
  ultimately show ?thesis using assms(2,4) by (fastforce simp: pairClaimSourceLockWindow_def)
qed

theorem pair_code_guesses_bounded_witness:
  "wrong_guesses hubless (claim_ip_key ''192.0.2.7'')
     (replicate 2 (calm 9 [], sample_user, sample_req, Some \<lparr>cr_Code = ''wrong'', cr_DeviceName = []\<rparr>))
     (sample_world empty_db) \<le> 4 \<and>
   wrong_guesses hubless (claim_ip_key ''192.0.2.7'')
     (replicate 2 (calm 9 [], sample_user, sample_req, Some \<lparr>cr_Code = ''wrong'', cr_DeviceName = []\<rparr>))
     (sample_world empty_db) = 2"
proof -
  let ?reqs = "replicate 2 (calm 9 [], sample_user, sample_req, Some \<lparr>cr_Code = ''wrong'', cr_DeviceName = []\<rparr>)"
  have "redis_laws (h_redis hubless) id" by (simp add: hubless_def sample_handler_def plain_redis_laws)
  moreover have "w_limiter (sample_world empty_db) = OnRedis Map.empty" by (simp add: sample_world_def)
  moreover have "\<forall>q \<in> set ?reqs. 9 \<le> clock (fst q) \<and> clock (fst q) < 9 + pairClaimSourceLockWindow"
    by (simp add: pairClaimSourceLockWindow_def Hour_def Minute_def Second_def)
  moreover have "wrong_guesses hubless (claim_ip_key ''192.0.2.7'') ?reqs (sample_world empty_db) = 2" by code_simp
  ultimately show ?thesis
    using pair_code_guesses_bounded [of hubless id "sample_world empty_db" Map.empty "''192.0.2.7''" 9 ?reqs]
    by (simp add: alive_def)
qed

end
