(* ===== verification/Mobile_Safety.thy ===== *)
theory Mobile_Safety
  imports Mobile Device_Safety
begin

text \<open>
  What enrolment and disconnecting guarantee: a disconnect takes the phones of the user off the
  database and off the interface, requests are stored in one canonical form, and the keys of a
  device, whichever route wrote them, are numbered upwards with the newest one active.
\<close>

section \<open>Disconnecting takes effect\<close>

lemma disconnect_effect:
  assumes "DisconnectMobileDevices E userID d = Some (ids, d')"
  obtains u where "uuid_in E userID = Some u" "db_ok d'"
    "ids = map d_id (filter (disconnectable u) (devices d))"
    "devices d' = sql_update (disconnectable u) (revoked_row E) (devices d)"
    "device_keys d' = sql_update (\<lambda>k. k_device_id k \<in> set ids \<and> k_state k = ''active'')
       (\<lambda>k. k\<lparr>k_state := ''retired'', k_retired_at := Some (clock E)\<rparr>) (device_keys d)"
    "d'\<lparr>devices := [], device_keys := []\<rparr> = d\<lparr>devices := [], device_keys := []\<rparr>"
proof -
  obtain u where u: "uuid_in E userID = Some u"
    using assms by (auto simp: DisconnectMobileDevices_def split: if_splits option.splits)
  have r: "sql_update (\<lambda>k. False) f t = t" for f and t :: "device_key list" by (induction t) auto
  show ?thesis
  proof (cases "filter (disconnectable u) (devices d) = []")
    case True
    then have "ids = []" "db_ok d'" "d' = d\<lparr>devices := sql_update (disconnectable u) (revoked_row E) (devices d)\<rparr>"
      using assms u by (auto simp: DisconnectMobileDevices_def Let_def split: if_splits option.splits)
    then show ?thesis by (intro that [of u]) (simp_all add: u True r)
  next
    case False
    then show ?thesis
      using assms u that [of u]
      by (auto simp: DisconnectMobileDevices_def Let_def retire_keys_def split: if_splits option.splits)
  qed
qed

lemma handleDisconnect_effect:
  assumes "handleDisconnect H E cl r w = (res, w')" "res = Reply 204 ()"
  obtains ids d w1 w2 where "w_db w1 = w_db w" "DisconnectMobileDevices E (claims_sub cl) (w_db w) = Some (ids, d)"
    "sync_all H E 5 (w1\<lparr>w_db := d\<rparr>) = (True, w2)" "w_cmds w' = w_cmds w2" "core w' = d\<lparr>audit_events := []\<rparr>"
    "w_cmds w1 = w_cmds w" "db_ok (w_db w')"
proof -
  obtain x w1 where p: "rate_limit H E 0 (Key [''mobile'', ''disconnect'', ''user'', claims_sub cl])
      mobileDisconnectLimit mobileDisconnectWindow w = (x :: unit response option, w1)" by (rule prod.exhaust)
  note R = rate_limit_result [OF p]
  have "x = None" using assms p R(3) by (auto simp: handleDisconnect_def split: if_splits option.splits)
  then obtain ids d where D: "DisconnectMobileDevices E (claims_sub cl) (w_db w) = Some (ids, d)"
    using assms p R by (auto simp: handleDisconnect_def split: if_splits option.splits)
  obtain ok w2 where S: "sync_all H E 5 (w1\<lparr>w_db := d\<rparr>) = (ok, w2)" by (rule prod.exhaust)
  have ok: "ok" "w' = auditMobileDisconnect H E r (claims_sub cl) ids [] w2"
    using assms p R D S \<open>x = None\<close> by (auto simp: handleDisconnect_def split: if_splits option.splits bool.splits)
  have w2: "w_db w2 = d" using sync_db(1) [of H E 5 "w1\<lparr>w_db := d\<rparr>"] S by simp
  have "db_ok d" using D by (rule disconnect_effect)
  then show ?thesis
    using that [of w1 ids d w2] R(1,2) D S ok w2
    by (auto simp: auditMobileDisconnect_def log_event_ok) (simp add: core_def)
qed



section \<open>Requests are stored in one form\<close>

lemma ascii_lower_idem [simp]: "ascii_lower (ascii_lower c) = ascii_lower c"
proof (cases "CHR ''A'' \<le> c \<and> c \<le> CHR ''Z''")
  case True
  then have "(of_char c :: nat) + 32 < 256" "90 < (of_char c :: nat) + 32" by (simp_all add: less_eq_char_def)
  then show ?thesis by (auto simp: ascii_lower_def less_eq_char_def)
next
  case False
  then have "ascii_lower c = c" by (auto simp: ascii_lower_def)
  then show ?thesis by simp
qed

lemma dns_char_plain:
  "CHR ''a'' \<le> c \<and> c \<le> CHR ''z'' \<or> CHR ''0'' \<le> c \<and> c \<le> CHR ''9'' \<or> c = CHR ''-'' \<or> c = CHR ''.'' \<Longrightarrow>
   plain_char c \<and> ascii_lower c = c \<and> c < CHR 0x80"
  by (auto simp: plain_char_def space1_def ascii_lower_def less_char_def less_eq_char_def)

lemma set_Split: "c \<in> set s \<Longrightarrow> c = sep \<or> (\<exists>l \<in> set (Split s sep). c \<in> set l)"
  by (induction s) (auto split: list.splits if_splits)

lemma dns_name_chars:
  assumes "isValidDNSName s" "c \<in> set s"
  shows "plain_char c \<and> ascii_lower c = c \<and> c < CHR 0x80"
proof (rule dns_char_plain)
  have "c = CHR ''.'' \<or> (\<exists>l \<in> set (Split s (CHR ''.'')). c \<in> set l)" by (rule set_Split [OF assms(2)])
  then show "CHR ''a'' \<le> c \<and> c \<le> CHR ''z'' \<or> CHR ''0'' \<le> c \<and> c \<le> CHR ''9'' \<or> c = CHR ''-'' \<or> c = CHR ''.''"
    using assms(1) by (auto simp: isValidDNSName_def isValidDNSLabel_def list_all_iff)
qed

lemma dns_name_fix:
  assumes "isValidDNSName s"
  shows "TrimSpace s = s" "ToLower C s = s" "is_ascii s"
proof -
  have ne: "s \<noteq> []" using assms by (simp add: isValidDNSName_def)
  then show "TrimSpace s = s" using dns_name_chars [OF assms] by (intro TrimSpace_plain) auto
  show "is_ascii s" using dns_name_chars [OF assms] by (simp add: is_ascii_def list_all_iff)
  then show "ToLower C s = s" using dns_name_chars [OF assms] by (simp add: ToLower_def map_idI)
qed

text \<open>
  C34. An accepted enrolment request is in canonical form: its hostname is a lower-case DNS name of at
  most 253 bytes, the platform is one of the three, the free texts are trimmed, not empty and at
  most 64 bytes long, the key has the format of the database, and checking the accepted request
  again accepts it unchanged.
\<close>

theorem enroll_request_canonical:
  assumes "parseEnrollRequest C body = Inr req"
  shows "isValidDNSName (er_Hostname req) \<and> length (er_Hostname req) \<le> maxHostnameLen \<and>
    er_OSPlatform req \<in> {''ios'', ''android'', ''tvos''} \<and>
    er_OSArch req \<noteq> [] \<and> length (er_OSArch req) \<le> maxOSArchLen \<and>
    er_AppVersion req \<noteq> [] \<and> length (er_AppVersion req) \<le> maxAppVersionLen \<and>
    wg_key_format (er_WGPublicKey req) \<and> parseEnrollRequest C (Some req) = Inr req"
proof -
  obtain q where q: "body = Some q" "validateEnrollRequest C q = None"
    "req = q\<lparr>er_Hostname := ToLower C (TrimSpace (er_Hostname q)), er_OSPlatform := TrimSpace (er_OSPlatform q),
       er_OSArch := TrimSpace (er_OSArch q), er_AppVersion := TrimSpace (er_AppVersion q),
       er_WGPublicKey := TrimSpace (er_WGPublicKey q)\<rparr>"
    using assms by (auto simp: parseEnrollRequest_def split: option.splits)
  let ?h = "ToLower C (TrimSpace (er_Hostname q))"
  have v: "validateHostname C (er_Hostname q) = None"
    "TrimSpace (er_OSPlatform q) \<in> {''ios'', ''android'', ''tvos''}"
    "validateBoundedField C ''os_arch'' (er_OSArch q) maxOSArchLen = None"
    "validateBoundedField C ''app_version'' (er_AppVersion q) maxAppVersionLen = None"
    "validateWGPublicKey (er_WGPublicKey q) = None"
    using q(2) by (auto simp: validateEnrollRequest_def Let_def split: option.splits if_splits)
  have h: "isValidDNSName ?h" "length ?h \<le> maxHostnameLen" "?h \<noteq> []"
    using v(1) by (auto simp: validateHostname_def Let_def split: if_splits)
  note F = dns_name_fix [OF h(1)]
  have "validateHostname C ?h = None" using h F by (simp add: validateHostname_def Let_def)
  moreover have "validateBoundedField C f (TrimSpace x) n = validateBoundedField C f x n" for f x n
    by (simp add: validateBoundedField_def)
  moreover have "validateWGPublicKey (TrimSpace x) = validateWGPublicKey x" for x
    by (simp add: validateWGPublicKey_def)
  ultimately have again: "validateEnrollRequest C req = None"
    unfolding q(3) using v by (auto simp: validateEnrollRequest_def Let_def)
  have "parseEnrollRequest C (Some req) = Inr req"
    using again F unfolding parseEnrollRequest_def by (simp add: q(3))
  moreover have "wg_key_format (TrimSpace (er_WGPublicKey q))"
    using v(5) by (auto simp: validateWGPublicKey_def Let_def split: if_splits)
  moreover have "TrimSpace (er_OSArch q) \<noteq> []" "length (TrimSpace (er_OSArch q)) \<le> maxOSArchLen"
    "TrimSpace (er_AppVersion q) \<noteq> []" "length (TrimSpace (er_AppVersion q)) \<le> maxAppVersionLen"
    using v(3,4) by (auto simp: validateBoundedField_def Let_def split: if_splits)
  ultimately show ?thesis using h v(2) by (simp add: q(3))
qed

definition sample_enroll :: enrollRequest where
  "sample_enroll = \<lparr>er_DirectScoped = False, er_Hostname = '' My-Phone.lan '', er_OSPlatform = ''ios'',
     er_OSArch = ''arm64 '', er_AppVersion = ''1.2'', er_WGPublicKey = sample_key\<rparr>"

theorem enroll_request_canonical_witness:
  "\<exists>req. parseEnrollRequest sample_crypto (Some sample_enroll) = Inr req \<and> er_Hostname req = ''my-phone.lan'' \<and>
     parseEnrollRequest sample_crypto (Some req) = Inr req"
proof -
  have v: "case parseEnrollRequest sample_crypto (Some sample_enroll) of Inl _ \<Rightarrow> False
    | Inr req \<Rightarrow> er_Hostname req = ''my-phone.lan''" by code_simp
  then obtain req where r: "parseEnrollRequest sample_crypto (Some sample_enroll) = Inr req"
    "er_Hostname req = ''my-phone.lan''" by (auto split: sum.splits)
  from enroll_request_canonical [OF r(1)] r show ?thesis by auto
qed

definition odd_key :: string where
  "odd_key = replicate 42 (CHR ''B'') @ ''B=''"

definition odd_net :: db where
  "odd_net = empty_db\<lparr>users := [mk_user ''u1''],
     devices := [(mk_device ''d1'' ''u1'' ''ios'')\<lparr>d_overlay_ip := Some (IPv4 0x0A000002)\<rparr>,
                 (mk_device ''d2'' ''u1'' ''linux'')\<lparr>d_overlay_ip := Some (IPv4 0x0A000003), d_created_at := 1\<rparr>],
     device_keys := [mk_key ''k1'' ''d1'' 1 odd_key, mk_key ''k2'' ''d2'' 1 sample_key]\<rparr>"

text \<open>
  The check of a key does not make it a stable name of the peer: two texts that differ only in the
  unused bits of their last character pass and decode to the same 32 bytes, so that the unique
  index over active keys does not see them as one peer. When the interface refuses the second
  spelling, as \<open>wg\<close> does, a synchronisation stops at it: it fails, and the device behind it in the
  list is not configured at all.
\<close>

theorem odd_key_stops_sync:
  "validateWGPublicKey sample_key = None \<and> validateWGPublicKey odd_key = None \<and> odd_key \<noteq> sample_key \<and>
   b64_decode odd_key = b64_decode sample_key \<and> db_ok odd_net \<and>
   \<not> fst (SyncAll (calm 7 []) 0 (plain_wg ''wg0'') (Some sample_hub) odd_net []) \<and>
   map_of (plain_peers ''wg0'' (snd (SyncAll (calm 7 []) 0 (plain_wg ''wg0'') (Some sample_hub) odd_net []))) sample_key = None"
  by code_simp

section \<open>Versions of keys\<close>

text \<open>The active key of a device has the highest version of all keys the device ever had.\<close>

definition latest :: "db \<Rightarrow> bool" where
  "latest d \<longleftrightarrow> db_ok d \<and> (\<forall>k \<in> set (device_keys d). \<forall>k' \<in> set (device_keys d).
     k_state k = ''active'' \<and> k_device_id k' = k_device_id k \<longrightarrow> k_key_version k' \<le> k_key_version k)"

text \<open>One request of any user to a route of the devices or of the phones.\<close>

inductive key_step :: "'r handler \<Rightarrow> 'r world \<Rightarrow> 'r world \<Rightarrow> bool" for H where
  device: "device_step H E cl w w' \<Longrightarrow> key_step H w w'"
| enroll: "handleEnroll H E cl r body w = (res, w') \<Longrightarrow> key_step H w w'"
| servers: "handleListServers E cl w = (ms, w') \<Longrightarrow> key_step H w w'"
| disconnect: "handleDisconnect H E cl r w = (ack, w') \<Longrightarrow> key_step H w w'"

lemma fold_max: "v \<le> fold max vs v \<and> (x \<in> set vs \<longrightarrow> x \<le> fold max vs v)" for v x :: int
proof (induction vs arbitrary: v)
  case (Cons y ys)
  from Cons.IH [of "max y v"] have "max y v \<le> fold max ys (max y v)" by simp
  then have "v \<le> fold max ys (max y v)" "y \<le> fold max ys (max y v)" by linarith+
  then show ?case using Cons.IH [of "max y v"] by auto
qed simp

lemma next_version_above:
  "k \<in> set ks \<Longrightarrow> k_device_id k = dev \<Longrightarrow> k_key_version k < next_version dev ks"
proof -
  assume k: "k \<in> set ks" "k_device_id k = dev"
  then have "k_key_version k \<in> set (map k_key_version (filter (\<lambda>k. k_device_id k = dev) ks))" by auto
  then show ?thesis
    unfolding next_version_def
    by (cases "map k_key_version (filter (\<lambda>k. k_device_id k = dev) ks)")
      (use fold_max in \<open>force simp: int_one_le_iff_zero_less\<close>)+
qed

lemma latest_core: "latest (w_db w) \<Longrightarrow> db_ok (w_db w') \<Longrightarrow> device_keys (w_db w') = device_keys (w_db w) \<Longrightarrow> latest (w_db w')"
  by (simp add: latest_def)

text \<open>A new key above all others of its device keeps the order, whatever was retired before.\<close>

lemma latest_insert:
  assumes "latest d" "db_ok (insert_key i dev v key from d1)"
    and "device_keys d1 = sql_update p (\<lambda>k. k\<lparr>k_state := ''retired'', k_retired_at := Some t\<rparr>) (device_keys d)"
    and "\<forall>k \<in> set (device_keys d). k_device_id k = dev \<longrightarrow> k_key_version k < v"
    and "\<forall>k \<in> set (device_keys d1). \<not> active_of dev k"
  shows "latest (insert_key i dev v key from d1)"
proof -
  have old: "\<exists>k0 \<in> set (device_keys d). k_device_id k0 = k_device_id k \<and> k_key_version k0 = k_key_version k \<and>
      (k_state k = ''active'' \<longrightarrow> k_state k0 = ''active'')" if "k \<in> set (device_keys d1)" for k
    using that unfolding assms(3) by (auto simp: set_sql_update)
  show ?thesis
    unfolding latest_def
  proof (intro conjI ballI impI)
    show "db_ok (insert_key i dev v key from d1)" by fact
    fix k k'
    assume k: "k \<in> set (device_keys (insert_key i dev v key from d1))" "k' \<in> set (device_keys (insert_key i dev v key from d1))"
      "k_state k = ''active'' \<and> k_device_id k' = k_device_id k"
    consider "k \<in> set (device_keys d1)" "k' \<in> set (device_keys d1)" | "k_device_id k = dev" "k_key_version k = v"
        "k' \<in> set (device_keys d1)" | "k \<in> set (device_keys d1)" "k_device_id k' = dev" | "k_key_version k' = k_key_version k"
      using k by (auto simp: insert_key_def)
    then show "k_key_version k' \<le> k_key_version k"
    proof cases
      case 1
      then show ?thesis using old [of k] old [of k'] k(3) assms(1) by (fastforce simp: latest_def)
    next
      case 2
      then show ?thesis using old [of k'] k(3) assms(4) by force
    next
      case 3
      then show ?thesis using k(3) assms(5) by (auto simp: active_of_def)
    qed simp
  qed
qed

lemma one_active_key:
  assumes "db_ok d" "k \<in> set (device_keys d)" "k' \<in> set (device_keys d)" "active_of dev k" "active_of dev k'"
  shows "k = k'"
proof -
  have "unique_on (active_key k_device_id) (device_keys d)" using assms(1) by (simp add: db_ok_def keys_ok_def)
  then show ?thesis
    using assms(2-5) by (intro unique_onD [of "active_key k_device_id" "device_keys d" k k' dev])
      (simp_all add: active_key_def active_of_def)
qed

lemma latest_upsert_key:
  assumes "latest d" "upsertMobileDeviceKey E dev key d = Some d'"
  shows "latest d'"
proof (cases "filter (active_of dev) (device_keys d)")
  case Nil
  then have d': "d' = insert_key (gen_uuid E 1) dev (next_version dev (device_keys d)) key None d" "db_ok d'"
    using assms(2) by (auto simp: upsertMobileDeviceKey_def split: if_splits)
  have "sql_update (\<lambda>k. False) f t = t" for f and t :: "device_key list" by (induction t) auto
  then show ?thesis
    unfolding d'(1) using d' Nil assms(1) next_version_above
    by (intro latest_insert [of d _ _ _ _ _ d "\<lambda>k. False"]) (auto simp: filter_empty_conv)
next
  case (Cons k ks)
  then have "k \<in> set (filter (active_of dev) (device_keys d))" by simp
  then have k: "k \<in> set (device_keys d)" "active_of dev k" by auto
  have ok: "db_ok d" using assms(1) by (simp add: latest_def)
  let ?d1 = "retire_keys (clock E) (\<lambda>x. k_id x = k_id k) d"
  have "d' = d \<or> d' = insert_key (gen_uuid E 1) dev (k_key_version k + 1) key (Some (k_id k)) ?d1 \<and> db_ok d'"
    using assms(2) Cons by (auto simp: upsertMobileDeviceKey_def bind_eq_Some_conv split: if_splits)
  moreover have "\<forall>x \<in> set (device_keys ?d1). \<not> active_of dev x"
    using one_active_key [OF ok k(1) _ k(2)]
    by (auto simp: retire_keys_def set_sql_update) (auto simp: active_of_def)
  moreover have "\<forall>x \<in> set (device_keys d). k_device_id x = dev \<longrightarrow> k_key_version x < k_key_version k + 1"
    using assms(1) k by (auto simp: latest_def active_of_def)
  ultimately show ?thesis
    using assms(1) by (auto intro!: latest_insert [of d] simp: retire_keys_def)
qed

lemma latest_enroll_tx:
  assumes "latest d" "enroll_tx H E u req d = Some (dev, ip, d')"
  shows "latest d'"
proof -
  obtain a d1 where 1: "upsertMobileDevice H E u req d = Some (dev, a, d1)"
    using assms(2) by (auto simp: enroll_tx_def split: if_splits option.splits)
  have L1: "latest d1"
    using 1 assms(1) by (auto simp: upsertMobileDevice_def latest_def insert_device_def
        split: if_splits option.splits list.splits)
  obtain d2 where 2: "upsertMobileDeviceKey E dev (er_WGPublicKey req) d1 = Some d2"
    using assms(2) 1 by (auto simp: enroll_tx_def split: if_splits option.splits)
  note L2 = latest_upsert_key [OF L1 2]
  have "d' = d2 \<or> (\<exists>x. AllocateTx E 7 (h_overlay H) dev d2 = (Inr x, d'))"
    using assms(2) 1 2 by (auto simp: enroll_tx_def split: if_splits option.splits prod.splits sum.splits)
  then show ?thesis
  proof
    assume "\<exists>x. AllocateTx E 7 (h_overlay H) dev d2 = (Inr x, d')"
    then obtain x where x: "AllocateTx E 7 (h_overlay H) dev d2 = (Inr x, d')" by auto
    have "device_keys (d'\<lparr>devices := []\<rparr>) = device_keys (d2\<lparr>devices := []\<rparr>)"
      using pool.alloc_only_devices(1) [OF x] by simp
    then show ?thesis using L2 pool.alloc_done [OF x] by (auto simp: latest_def)
  qed (use L2 in simp)
qed

lemma latest_handleEnroll:
  assumes "latest (w_db w)" "handleEnroll H E cl r body w = (res, w')"
  shows "latest (w_db w')"
proof -
  have rl: "w_db v = w_db w" if "ensureEnrollReady H E u w = (x, v)" for u v and x :: "enrollResponse response option"
    using that rate_limit_result(1) [where H = H]
    by (auto simp: ensureEnrollReady_def split: prod.splits option.splits)
  have en: "latest (w_db v')" if "enrollMobileDevice H E u req v = (x, v')" "latest (w_db v)" for u req v x v'
  proof (cases "enroll_tx H E u req (w_db v)")
    case None
    then show ?thesis using that by (simp add: enrollMobileDevice_def)
  next
    case (Some z)
    obtain dev ip d where z: "z = (dev, ip, d)" by (cases z)
    have "w_db v' = d"
      using that(1) Some z
      by (auto simp: enrollMobileDevice_def Let_def sync_all_def split: if_splits prod.splits bool.splits)
    then show ?thesis using latest_enroll_tx [OF that(2)] Some z by simp
  qed
  have gr: "latest d'" if "grant_home E m h t d = Some d'" "latest d" for m h t d d'
    using that by (auto simp: grant_home_def latest_def split: option.splits if_splits)
  have lg: "latest (w_db (log_event H E 13 e v))" if "latest (w_db v)" for e v
    using that latest_core [of v "log_event H E 13 e v"] log_event_ok [of v H E 13 e] by (simp add: latest_def)
  show ?thesis
    using assms
    by (auto simp: handleEnroll_def Let_def dest!: rl
        split: if_splits option.splits sum.splits prod.splits
        intro!: lg intro: en gr [OF _ en])
qed

lemma latest_disconnect:
  assumes "latest d" "DisconnectMobileDevices E u d = Some (ids, d')"
  shows "latest d'"
  using assms(2)
proof (rule disconnect_effect)
  assume d': "db_ok d'" "device_keys d' = sql_update (\<lambda>k. k_device_id k \<in> set ids \<and> k_state k = ''active'')
       (\<lambda>k. k\<lparr>k_state := ''retired'', k_retired_at := Some (clock E)\<rparr>) (device_keys d)"
  have old: "\<exists>k0 \<in> set (device_keys d). k_device_id k0 = k_device_id k \<and> k_key_version k0 = k_key_version k \<and>
      (k_state k = ''active'' \<longrightarrow> k_state k0 = ''active'')" if "k \<in> set (device_keys d')" for k
    using that unfolding d'(2) by (auto simp: set_sql_update)
  have "k_key_version k' \<le> k_key_version k"
    if "k \<in> set (device_keys d')" "k' \<in> set (device_keys d')" "k_state k = ''active''" "k_device_id k' = k_device_id k" for k k'
    using old [of k] old [of k'] that assms(1) by (fastforce simp: latest_def)
  then show ?thesis using d'(1) by (auto simp: latest_def)
qed

lemma latest_handleDisconnect:
  assumes "latest (w_db w)" "handleDisconnect H E cl r w = (res, w')"
  shows "latest (w_db w')"
proof -
  obtain x w1 where p: "rate_limit H E 0 (Key [''mobile'', ''disconnect'', ''user'', claims_sub cl])
      mobileDisconnectLimit mobileDisconnectWindow w = (x :: unit response option, w1)" by (rule prod.exhaust)
  note R = rate_limit_result(1) [OF p]
  have lg: "latest (w_db (auditMobileDisconnect H E r u ids o' v))" if "latest (w_db v)" for u ids o' v
    using that latest_core [of v "auditMobileDisconnect H E r u ids o' v"]
    by (simp add: auditMobileDisconnect_def log_event_ok) (simp add: latest_def log_event_ok)
  have sy: "w_db v' = w_db v" if "sync_all H E 5 v = (b, v')" for b v v'
    using that by (auto simp: sync_all_def split: prod.splits)
  show ?thesis
  proof (cases "DisconnectMobileDevices E (claims_sub cl) (w_db w)")
    case None
    then show ?thesis using assms p R by (auto simp: handleDisconnect_def split: if_splits option.splits)
  next
    case (Some z)
    then obtain ids d where z: "DisconnectMobileDevices E (claims_sub cl) (w_db w) = Some (ids, d)" by (cases z) simp
    note L = latest_disconnect [OF assms(1) z]
    obtain b v' where S: "sync_all H E 5 (w1\<lparr>w_db := d\<rparr>) = (b, v')" by (rule prod.exhaust)
    then have "latest (w_db v')" using sy [OF S] L by simp
    then show ?thesis
      using assms p R z S
      by (auto simp: handleDisconnect_def intro!: lg split: if_splits option.splits bool.splits)
  qed
qed

lemma latest_device_step:
  assumes "latest (w_db w)" "device_step H E cl w w'"
  shows "latest (w_db w')"
proof -
  have eq: "device_keys (w_db w') = device_keys (core w')" by (simp add: core_def)
  have ok: "db_ok (w_db w)" using assms(1) by (simp add: latest_def)
  from assms(2) show ?thesis
  proof (cases rule: device_step_cases)
    case keep
    then show ?thesis using assms(1) by simp
  next
    case (code row)
    have "device_keys (w_db w') = device_keys (w_db w)" unfolding eq code(2) by (simp add: core_def)
    then show ?thesis by (rule latest_core [OF assms(1) code(1)])
  next
    case (own x u f)
    have "device_keys (w_db w') = device_keys (w_db w)" unfolding eq own(3) by (simp add: core_def)
    then show ?thesis by (rule latest_core [OF assms(1) own(1)])
  next
    case (claim u hostname credHash ip pc)
    have "\<forall>k \<in> set (device_keys (w_db w)). refs (k_device_id k) d_id (devices (w_db w))"
      using ok by (simp add: db_ok_def keys_ok_def list_all_iff)
    then have "\<forall>k \<in> set (device_keys (w_db w)). k_device_id k \<noteq> gen_uuid E 0"
      using claimed_db_fresh [OF claim(6)] unfolding refs_iff by metis
    then show ?thesis using assms(1) claim(1) by (auto simp: latest_def eq claim(5))
  next
    case (rotate dv key n d)
    from rotate(2) show ?thesis
    proof (rule rotate_effect)
      fix x old u
      assume d: "old \<in> set (device_keys (w_db w))" "active_of u old" "n = k_key_version old + 1" "db_ok d"
        "d = insert_key (gen_uuid E 0) u n key (Some (k_id old)) (retire_keys (clock E) (active_of u) (w_db w))"
      have "latest d"
        unfolding d(5)
      proof (rule latest_insert [OF assms(1)])
        show "\<forall>k \<in> set (device_keys (w_db w)). k_device_id k = u \<longrightarrow> k_key_version k < n"
          using assms(1) d by (auto simp: latest_def active_of_def)
        show "\<forall>k \<in> set (device_keys (retire_keys (clock E) (active_of u) (w_db w))). \<not> active_of u k"
          by (auto simp: retire_keys_def set_sql_update) (auto simp: active_of_def)
      qed (use d in \<open>auto simp: retire_keys_def\<close>)
      then show ?thesis using rotate(1,3) by (simp add: latest_def eq)
    qed
  qed
qed

lemma latest_step: "latest (w_db w) \<Longrightarrow> key_step H w w' \<Longrightarrow> latest (w_db w')"
  by (erule key_step.cases)
    (auto intro: latest_device_step latest_handleEnroll latest_handleDisconnect
      simp: handleListServers_def split: if_splits option.splits)

interpretation keys: invariant_system "key_step H" "\<lambda>w. latest (w_db w)" for H
  by unfold_locales (rule latest_step)

text \<open>
  Keys are numbered upwards. Starting from any database without keys, after any sequence of
  requests to the device and phone routes, each device has at most one active key, and it has the
  highest version of all keys the device ever had.
\<close>

theorem active_key_is_latest:
  assumes "db_ok (w_db w)" "device_keys (w_db w) = []" "reach w (key_step H) w'"
    and "k \<in> set (device_keys (w_db w'))" "k' \<in> set (device_keys (w_db w'))"
    and "k_device_id k' = k_device_id k" "k_state k = ''active''"
  shows "k_key_version k' \<le> k_key_version k \<and> (k_state k' = ''active'' \<longrightarrow> k' = k)"
proof -
  have "latest (w_db w)" using assms(1,2) by (simp add: latest_def)
  then have L: "latest (w_db w')" by (rule keys.reach_inv [OF assms(3)])
  then have "k' = k" if "k_state k' = ''active''"
    using that assms(4-7) one_active_key [of "w_db w'" k' k "k_device_id k"]
    by (simp add: latest_def active_of_def)
  then show ?thesis using L assms(4-7) by (auto simp: latest_def)
qed

definition enrolled_world :: "redis_store world" where
  "enrolled_world = snd (handleEnroll hubless (calm 9 [''d9'', ''k9'']) sample_user sample_req (Some sample_enroll)
     (sample_world (empty_db\<lparr>users := [mk_user ''u1'']\<rparr>)))"

theorem active_key_is_latest_witness:
  "\<exists>k. device_keys (w_db enrolled_world) = [k] \<and> k_state k = ''active'' \<and> k_key_version k \<le> k_key_version k"
proof -
  let ?w = "sample_world (empty_db\<lparr>users := [mk_user ''u1'']\<rparr>)"
  have f: "db_ok (w_db ?w)" "device_keys (w_db ?w) = []"
    "case device_keys (w_db enrolled_world) of [k] \<Rightarrow> k_state k = ''active'' | _ \<Rightarrow> False" by code_simp+
  have "key_step hubless ?w enrolled_world"
    unfolding enrolled_world_def by (rule enroll [OF prod.collapse [symmetric]])
  then have R: "reach ?w (key_step hubless) enrolled_world" by (rule reach_step [OF reach_start])
  obtain k where k: "device_keys (w_db enrolled_world) = [k]" "k_state k = ''active''"
    using f(3) by (auto split: list.splits)
  from active_key_is_latest [OF f(1,2) R, of k k] k show ?thesis by simp
qed

subsection \<open>Storing a key succeeds\<close>

lemma db_ok_keys: "db_ok d \<Longrightarrow> keys_ok (devices d) ks \<Longrightarrow> db_ok (d\<lparr>device_keys := ks\<rparr>)"
  by (simp add: db_ok_def)

lemma keys_ok_retire:
  assumes "keys_ok ds ks"
  shows "keys_ok ds (sql_update p (\<lambda>k. k\<lparr>k_state := ''retired'', k_retired_at := Some t\<rparr>) ks)"
proof -
  let ?f = "\<lambda>k. k\<lparr>k_state := ''retired'', k_retired_at := Some t\<rparr>"
  have m: "map k_id (sql_update p ?f ks) = map k_id ks"
    "map (\<lambda>k. (k_device_id k, k_key_version k)) (sql_update p ?f ks) = map (\<lambda>k. (k_device_id k, k_key_version k)) ks"
    by (simp_all add: map_sql_update)
  have u: "unique_on (active_key f) (sql_update p ?f ks)" if "unique_on (active_key f) ks" for f :: "device_key \<Rightarrow> string"
    using that by (intro unique_on_update_None) (simp_all add: active_key_def)
  show ?thesis
    using assms u
    unfolding keys_ok_def pk_cong [OF m(1)] pk_cong [OF m(2)] refs_opt_cong [OF m(1)]
    by (auto simp: list_all_iff set_sql_update key_ok_def)
qed

lemma keys_ok_insert:
  assumes "keys_ok ds ks" "key_ok k" "k_state k = ''active''" "refs (k_device_id k) d_id ds"
    and "\<not> refs (k_id k) k_id ks" "refs_opt (k_rotated_from k) k_id ks"
    and "\<forall>x \<in> set ks. k_device_id x = k_device_id k \<longrightarrow> k_key_version x < k_key_version k \<and> k_state x \<noteq> ''active''"
    and "\<forall>x \<in> set ks. k_wg_public_key x = k_wg_public_key k \<longrightarrow> k_state x \<noteq> ''active''"
  shows "keys_ok ds (ks @ [k])"
proof -
  have "\<forall>x \<in> set ks. k_id x \<noteq> k_id k" using assms(5) by (simp add: refs_def list_ex_iff)
  then show ?thesis
    using assms
    by (auto simp: keys_ok_def pk_def unique_on_append active_key_def refs_opt_def refs_iff list_all_iff
        split: option.splits)
qed

lemma next_version_pos: "list_all key_ok ks \<Longrightarrow> 0 < next_version dev ks"
proof -
  assume "list_all key_ok ks"
  then have "\<forall>v \<in> set (map k_key_version (filter (\<lambda>k. k_device_id k = dev) ks)). 0 < v"
    by (auto simp: list_all_iff key_ok_def)
  then show ?thesis
    unfolding next_version_def
    by (cases "map k_key_version (filter (\<lambda>k. k_device_id k = dev) ks)") (use fold_max in \<open>force\<close>)+
qed

lemma active_singleton:
  assumes "db_ok d" "filter (active_of dev) (device_keys d) = k # ks"
  shows "ks = []"
proof -
  have "k \<in> set (filter (active_of dev) (device_keys d))" unfolding assms(2) by simp
  then have k: "k \<in> set (device_keys d)" "active_of dev k" by auto
  have "set ks \<subseteq> set (filter (active_of dev) (device_keys d))" unfolding assms(2) by auto
  then have "set ks \<subseteq> {k}" using one_active_key [OF assms(1) _ k(1) _ k(2)] by auto
  moreover have "distinct (map k_id (device_keys d))" using assms(1) by (simp add: db_ok_def keys_ok_def pk_distinct)
  then have "distinct (k # ks)" using assms(2) by (metis distinct_filter distinct_map)
  ultimately show ?thesis by (cases ks) auto
qed

text \<open>Retiring the active key of a device and storing another one with the next version.\<close>

lemma successor_key_ok:
  assumes "latest d" "filter (active_of dev) (device_keys d) = [k]" "wg_key_format key"
    and "\<not> refs i k_id (device_keys d)"
    and "\<forall>k \<in> set (device_keys d). k_wg_public_key k = key \<and> k_state k = ''active'' \<longrightarrow> k_device_id k = dev"
  shows "db_ok (retire_keys t (\<lambda>x. k_id x = k_id k) d) \<and>
    db_ok (insert_key i dev (k_key_version k + 1) key (Some (k_id k)) (retire_keys t (\<lambda>x. k_id x = k_id k) d)) \<and>
    filter (active_of dev) (device_keys (retire_keys t (\<lambda>x. k_id x = k_id k) d)) = []"
proof -
  let ?f = "\<lambda>k. k\<lparr>k_state := ''retired'', k_retired_at := Some t\<rparr>"
  let ?r = "sql_update (\<lambda>x. k_id x = k_id k) ?f (device_keys d)"
  let ?k = "\<lparr>k_id = i, k_device_id = dev, k_key_version = k_key_version k + 1,
    k_wg_public_key = key, k_state = ''active'', k_rotated_from = Some (k_id k), k_retired_at = None\<rparr>"
  have ok: "db_ok d" and K: "keys_ok (devices d) (device_keys d)" using assms(1) by (simp_all add: latest_def db_ok_def)
  have "k \<in> set (filter (active_of dev) (device_keys d))" unfolding assms(2) by simp
  then have k: "k \<in> set (device_keys d)" "active_of dev k" by auto
  have R: "keys_ok (devices d) ?r" by (rule keys_ok_retire [OF K])
  have inact: "\<not> active_of dev x" if "x \<in> set ?r" for x
    using that one_active_key [OF ok _ k(1) _ k(2)] by (auto simp: set_sql_update) (auto simp: active_of_def)
  have ver: "k_key_version x < k_key_version k + 1" if "x \<in> set ?r" "k_device_id x = dev" for x
    using that assms(1) k by (auto simp: set_sql_update latest_def active_of_def)
  have ids: "map k_id ?r = map k_id (device_keys d)" by (simp add: map_sql_update)
  have "keys_ok (devices d) (?r @ [?k])"
  proof (rule keys_ok_insert [OF R])
    show "key_ok ?k" using K k assms(3) by (auto simp: keys_ok_def key_ok_def list_all_iff)
    show "\<not> refs (k_id ?k) k_id ?r" using assms(4) by (simp add: refs_cong [OF ids])
    show "refs (k_device_id ?k) d_id (devices d)" using K k by (auto simp: keys_ok_def list_all_iff active_of_def)
    show "refs_opt (k_rotated_from ?k) k_id ?r" using k(1) by (auto simp: refs_opt_def refs_iff ids)
    show "\<forall>x \<in> set ?r. k_device_id x = k_device_id ?k \<longrightarrow> k_key_version x < k_key_version ?k \<and> k_state x \<noteq> ''active''"
      using ver inact by (auto simp: active_of_def)
    show "\<forall>x \<in> set ?r. k_wg_public_key x = k_wg_public_key ?k \<longrightarrow> k_state x \<noteq> ''active''"
      using assms(5) inact by (auto simp: set_sql_update active_of_def)
  qed simp
  then show ?thesis
    using db_ok_keys [OF ok] R inact by (auto simp: insert_key_def retire_keys_def filter_empty_conv)
qed

text \<open>
  Re-enrolling never gets stuck on key versions: for a device of a database whose active keys are
  the latest, storing a well-formed key succeeds whenever the statements do, the generated
  identifier is new and no other device has the key active; this holds after a disconnect
  retired the keys as well as for a change of the active key.
\<close>

theorem enroll_key_succeeds:
  assumes "latest d" "refs dev d_id (devices d)" "wg_key_format key"
    and "\<not> fails E 4" "\<not> fails E 5" "\<not> fails E 6" "\<not> refs (gen_uuid E 1) k_id (device_keys d)"
    and "\<forall>k \<in> set (device_keys d). k_wg_public_key k = key \<and> k_state k = ''active'' \<longrightarrow> k_device_id k = dev"
  shows "\<exists>d' k. upsertMobileDeviceKey E dev key d = Some d' \<and> db_ok d' \<and>
    filter (active_of dev) (device_keys d') = [k] \<and> k_wg_public_key k = key"
proof (cases "filter (active_of dev) (device_keys d)")
  case Nil
  have ok: "db_ok d" and K: "keys_ok (devices d) (device_keys d)" using assms(1) by (simp_all add: latest_def db_ok_def)
  let ?k = "\<lparr>k_id = gen_uuid E 1, k_device_id = dev, k_key_version = next_version dev (device_keys d),
    k_wg_public_key = key, k_state = ''active'', k_rotated_from = None, k_retired_at = None\<rparr>"
  have "keys_ok (devices d) (device_keys d @ [?k])"
    using assms K Nil next_version_above [of _ "device_keys d" dev] next_version_pos [of "device_keys d" dev]
    by (intro keys_ok_insert)
      (auto simp: key_ok_def keys_ok_def refs_opt_def filter_empty_conv active_of_def)
  then have "db_ok (insert_key (gen_uuid E 1) dev (next_version dev (device_keys d)) key None d)"
    using db_ok_keys [OF ok] by (simp add: insert_key_def)
  then show ?thesis using Nil assms(4-6) by (simp add: upsertMobileDeviceKey_def insert_key_def active_of_def statement_def)
next
  case (Cons k ks)
  have ok: "db_ok d" using assms(1) by (simp add: latest_def)
  have one: "filter (active_of dev) (device_keys d) = [k]" using active_singleton [OF ok Cons] Cons by simp
  show ?thesis
  proof (cases "k_wg_public_key k = key")
    case True
    then show ?thesis using one assms(4) ok by (simp add: upsertMobileDeviceKey_def)
  next
    case False
    from successor_key_ok [OF assms(1) one assms(3,7,8), of "clock E"] show ?thesis
      using one False assms(4-6)
      by (simp add: upsertMobileDeviceKey_def statement_def) (simp add: insert_key_def retire_keys_def active_of_def)
  qed
qed

theorem enroll_key_succeeds_witness:
  "\<exists>d' k. upsertMobileDeviceKey (calm 9 [''x'', ''k9'']) ''d1'' (CHR ''C'' # tl sample_key) sample_net = Some d' \<and>
     filter (active_of ''d1'') (device_keys d') = [k] \<and> k_wg_public_key k = CHR ''C'' # tl sample_key"
proof -
  have "latest sample_net" "refs ''d1'' d_id (devices sample_net)" "wg_key_format (CHR ''C'' # tl sample_key)"
    "\<not> refs ''k9'' k_id (device_keys sample_net)"
    "\<forall>k \<in> set (device_keys sample_net). k_wg_public_key k = CHR ''C'' # tl sample_key \<and> k_state k = ''active'' \<longrightarrow>
       k_device_id k = ''d1''"
    unfolding latest_def by code_simp+
  then show ?thesis using enroll_key_succeeds [of sample_net "''d1''" "CHR ''C'' # tl sample_key" "calm 9 [''x'', ''k9'']"]
    by auto
qed

end
