(* ===== verification/Catalog.thy ===== *)
theory Catalog
  imports Devices "HOL-Library.List_Lexorder"
begin

text \<open>
  Package \<open>internal/services\<close> (\<open>catalog.go\<close>): a device reports the services it exports, all at
  once, and users list them. The text an error carries after its first words is not modelled.
\<close>

record serviceEntry =
  se_Name :: string
  se_Protocol :: string
  se_LocalBind :: string
  se_ExposureType :: string
  se_Tags :: "string list option"
  se_AuthMode :: string
  se_HealthStatus :: string

datatype ownership = Owned | NotFound | OwnershipFailed

definition verifyDeviceOwnership :: "env \<Rightarrow> nat \<Rightarrow> string \<Rightarrow> string \<Rightarrow> db \<Rightarrow> ownership" where
  "verifyDeviceOwnership E i deviceID userID d =
     (case (if fails E i then None else owned_by E deviceID userID) of
        None \<Rightarrow> OwnershipFailed
      | Some p \<Rightarrow> if list_ex p (devices d) then Owned else NotFound)"

definition writeDeviceOwnershipError :: "ownership \<Rightarrow> 'a response" where
  "writeDeviceOwnershipError e =
     (if e = NotFound then Error 404 ''device not found'' else Error 500 ''failed to verify device'')"

definition service_row :: "string \<Rightarrow> string \<Rightarrow> serviceEntry \<Rightarrow> service" where
  "service_row i dev entry =
     \<lparr>sv_id = i, sv_device_id = dev, sv_name = se_Name entry, sv_protocol = se_Protocol entry,
      sv_local_bind = se_LocalBind entry, sv_exposure_type = se_ExposureType entry,
      sv_auth_mode = (if se_AuthMode entry = [] then ''inherit'' else se_AuthMode entry),
      sv_health_status = (if se_HealthStatus entry = [] then ''unknown'' else se_HealthStatus entry),
      sv_tags = (case se_Tags entry of None \<Rightarrow> [] | Some ts \<Rightarrow> ts)\<rparr>"

definition insertServiceEntry :: "env \<Rightarrow> nat \<Rightarrow> string \<Rightarrow> string \<Rightarrow> serviceEntry \<Rightarrow> db \<Rightarrow> string + db" where
  "insertServiceEntry E i newid dev entry d =
     (if se_Name entry = [] \<or> se_Protocol entry = [] \<or> se_LocalBind entry = [] \<or> se_ExposureType entry = []
      then Inl ''each service must have name, protocol, local_bind, and exposure_type''
      else (case statement (fails E i) (d\<lparr>services := services d @ [service_row newid dev entry]\<rparr>) of
              None \<Rightarrow> Inl ''failed to insert service'' | Some d' \<Rightarrow> Inr d'))"

text \<open>The loop over the manifest; the \<open>n\<close>-th entry gets the \<open>n\<close>-th generated identifier.\<close>

fun insert_entries :: "env \<Rightarrow> nat \<Rightarrow> string \<Rightarrow> serviceEntry list \<Rightarrow> db \<Rightarrow> string + db" where
  "insert_entries E n dev [] d = Inr d"
| "insert_entries E n dev (entry # entries) d =
     (case insertServiceEntry E (n + 4) (gen_uuid E n) dev entry d of
        Inl e \<Rightarrow> Inl e | Inr d' \<Rightarrow> insert_entries E (n + 1) dev entries d')"

text \<open>
  The transaction: the rows of the device go, the manifest comes. A session that refers to a
  deleted row makes the deletion fail (\<open>ON DELETE RESTRICT\<close>).
\<close>

definition replaceDeviceServices :: "env \<Rightarrow> string \<Rightarrow> serviceEntry list \<Rightarrow> db \<Rightarrow> string + db" where
  "replaceDeviceServices E deviceID entries d =
     (if fails E 1 then Inl ''failed to start transaction''
      else (case Option.bind (uuid_in E deviceID) (\<lambda>dev. map_option (Pair dev)
              (statement (fails E 2) (d\<lparr>services := filter (\<lambda>s. sv_device_id s \<noteq> dev) (services d)\<rparr>))) of
              None \<Rightarrow> Inl ''failed to replace services''
            | Some (dev, d1) \<Rightarrow>
                (case insert_entries E 0 dev entries d1 of Inl e \<Rightarrow> Inl e
                 | Inr d2 \<Rightarrow> if fails E 3 then Inl ''failed to commit services'' else Inr d2)))"

definition writeDeviceServices :: "env \<Rightarrow> nat \<Rightarrow> string \<Rightarrow> db \<Rightarrow> service list response" where
  "writeDeviceServices E i deviceID d =
     (case (if fails E i then None else uuid_in E deviceID) of
        None \<Rightarrow> Error 500 ''failed to list services''
      | Some dev \<Rightarrow> Reply 200 (sort_key sv_name (filter (\<lambda>s. sv_device_id s = dev) (services d))))"

definition handleUpsertServices :: "env \<Rightarrow> Claims option \<Rightarrow> string \<Rightarrow> serviceEntry list option \<Rightarrow> 'r world \<Rightarrow>
    service list response \<times> 'r world" where
  "handleUpsertServices E cl param body w =
     (if claims_sub cl = [] then (Error 401 ''unauthorized'', w)
      else let deviceID = TrimSpace param in
        if deviceID = [] then (Error 400 ''device id is required'', w)
        else (case body of None \<Rightarrow> (Error 400 ''invalid request body'', w)
        | Some entries \<Rightarrow>
            (case verifyDeviceOwnership E 0 deviceID (claims_sub cl) (w_db w) of
               Owned \<Rightarrow>
                 (case replaceDeviceServices E deviceID entries (w_db w) of
                    Inl e \<Rightarrow> (Error 500 e, w)
                  | Inr d \<Rightarrow> (writeDeviceServices E (length entries + 4) deviceID d, w\<lparr>w_db := d\<rparr>))
             | e \<Rightarrow> (writeDeviceOwnershipError e, w))))"

definition handleListDeviceServices :: "env \<Rightarrow> Claims option \<Rightarrow> string \<Rightarrow> 'r world \<Rightarrow>
    service list response \<times> 'r world" where
  "handleListDeviceServices E cl param w =
     (if claims_sub cl = [] then (Error 401 ''unauthorized'', w)
      else let deviceID = TrimSpace param in
        if deviceID = [] then (Error 400 ''device id is required'', w)
        else (case verifyDeviceOwnership E 0 deviceID (claims_sub cl) (w_db w) of
                Owned \<Rightarrow> (writeDeviceServices E 1 deviceID (w_db w), w)
              | e \<Rightarrow> (writeDeviceOwnershipError e, w)))"

text \<open>Ordered by hostname, then by name.\<close>

definition handleListAllServices :: "env \<Rightarrow> Claims option \<Rightarrow> 'r world \<Rightarrow> service list response \<times> 'r world" where
  "handleListAllServices E cl w =
     (if claims_sub cl = [] then (Error 401 ''unauthorized'', w)
      else (case (if fails E 0 then None else uuid_in E (claims_sub cl)) of
              None \<Rightarrow> (Error 500 ''failed to list services'', w)
            | Some u \<Rightarrow>
                (Reply 200 (map snd (sort_key (d_hostname \<circ> fst) (sort_key (sv_name \<circ> snd)
                   [(x, s). s \<leftarrow> services (w_db w), x \<leftarrow> devices (w_db w),
                      d_id x = sv_device_id s \<and> d_owner_user_id x = u]))), w)))"

section \<open>A manifest replaces the services of its device, all or nothing\<close>

lemma insert_entries_result:
  assumes "insert_entries E n dev entries d = Inr d'"
  shows "\<exists>rows. d' = d\<lparr>services := services d @ rows\<rparr> \<and> length rows = length entries \<and>
    rows = map (\<lambda>(i, e). service_row (gen_uuid E (n + i)) dev e) (enumerate 0 entries) \<and>
    (entries = [] \<or> db_ok d')"
  using assms
proof (induction entries arbitrary: n d)
  case (Cons e es)
  let ?r = "service_row (gen_uuid E n) dev e"
  let ?d1 = "d\<lparr>services := services d @ [?r]\<rparr>"
  from Cons.prems have r: "insert_entries E (n + 1) dev es ?d1 = Inr d'" "db_ok ?d1"
    by (auto simp: insertServiceEntry_def split: sum.splits if_splits option.splits)
  from Cons.IH [OF r(1)] obtain rows where
    rows: "d' = ?d1\<lparr>services := services ?d1 @ rows\<rparr>" "length rows = length es" "es = [] \<or> db_ok d'"
      "rows = map (\<lambda>(i, e). service_row (gen_uuid E (n + 1 + i)) dev e) (enumerate 0 es)" by blast
  have "map (\<lambda>(i, e). service_row (gen_uuid E (n + i)) dev e) (enumerate (Suc 0) es) = rows"
    unfolding rows(4) enumerate_Suc_eq by (simp add: split_def)
  then show ?case using rows(1-3) r by (cases es) (auto intro!: exI [of _ "?r # rows"])
qed simp

text \<open>
  A manifest replaces the services of its device, all or nothing: only the owner can send one,
  on success the device has exactly the entries of the manifest in order (with the defaults for a
  missing mode, status or tags) and every other device keeps its services; on any other answer
  the database is unchanged, except that listing the stored result may fail after the commit.
\<close>

theorem manifest_replaces:
  assumes "handleUpsertServices E cl param body w = (res, w')"
  shows "w' = w \<or>
    (\<exists>dev u entries. body = Some entries \<and> uuid_in E (TrimSpace param) = Some dev \<and>
       uuid_in E (claims_sub cl) = Some u \<and>
       (\<exists>x \<in> set (devices (w_db w)). d_id x = dev \<and> d_owner_user_id x = u) \<and>
       filter (\<lambda>s. sv_device_id s = dev) (services (w_db w')) =
         map (\<lambda>(i, e). service_row (gen_uuid E i) dev e) (enumerate 0 entries) \<and>
       filter (\<lambda>s. sv_device_id s \<noteq> dev) (services (w_db w')) =
         filter (\<lambda>s. sv_device_id s \<noteq> dev) (services (w_db w)) \<and>
       w' = w\<lparr>w_db := (w_db w)\<lparr>services := services (w_db w')\<rparr>\<rparr> \<and> db_ok (w_db w'))"
proof (cases "\<exists>entries d. body = Some entries \<and> replaceDeviceServices E (TrimSpace param) entries (w_db w) = Inr d \<and>
    w' = w\<lparr>w_db := d\<rparr> \<and> verifyDeviceOwnership E 0 (TrimSpace param) (claims_sub cl) (w_db w) = Owned")
  case False
  then show ?thesis
    using assms by (auto simp: handleUpsertServices_def Let_def
        split: if_splits option.splits ownership.splits sum.splits)
next
  case True
  then obtain entries d where b: "body = Some entries" "w' = w\<lparr>w_db := d\<rparr>"
    "replaceDeviceServices E (TrimSpace param) entries (w_db w) = Inr d"
    "verifyDeviceOwnership E 0 (TrimSpace param) (claims_sub cl) (w_db w) = Owned" by auto
  obtain dev u where o: "uuid_in E (TrimSpace param) = Some dev" "uuid_in E (claims_sub cl) = Some u"
    "\<exists>x \<in> set (devices (w_db w)). d_id x = dev \<and> d_owner_user_id x = u"
    using b(4) by (auto simp: verifyDeviceOwnership_def owned_by_def list_ex_iff split: option.splits if_splits)
  let ?d1 = "(w_db w)\<lparr>services := filter (\<lambda>s. sv_device_id s \<noteq> dev) (services (w_db w))\<rparr>"
  have i: "insert_entries E 0 dev entries ?d1 = Inr d" "db_ok ?d1"
    using b(3) o(1) by (auto simp: replaceDeviceServices_def split: if_splits option.splits sum.splits)
  let ?rows = "map (\<lambda>(i, e). service_row (gen_uuid E i) dev e) (enumerate 0 entries)"
  have d: "d = ?d1\<lparr>services := services ?d1 @ ?rows\<rparr>" "db_ok d"
    using insert_entries_result [OF i(1)] i by auto
  have "list_all (\<lambda>s. sv_device_id s = dev) ?rows"
    by (auto simp: list_all_iff service_row_def)
  then have "filter (\<lambda>s. sv_device_id s = dev) ?rows = ?rows" "filter (\<lambda>s. sv_device_id s \<noteq> dev) ?rows = []"
    by (simp_all add: list_all_iff filter_empty_conv)
  then show ?thesis
    using b o d by (intro disjI2 exI [of _ dev] exI [of _ u] exI [of _ entries]) simp
qed

definition sample_service :: service where
  "sample_service = \<lparr>sv_id = ''s1'', sv_device_id = ''d1'', sv_name = ''ssh'', sv_protocol = ''tcp'',
     sv_local_bind = ''127.0.0.1:22'', sv_exposure_type = ''tcp'', sv_auth_mode = ''inherit'',
     sv_health_status = ''unknown'', sv_tags = []\<rparr>"

definition sample_entry :: serviceEntry where
  "sample_entry = \<lparr>se_Name = ''web'', se_Protocol = ''http'', se_LocalBind = '':80'', se_ExposureType = ''http'',
     se_Tags = None, se_AuthMode = [], se_HealthStatus = []\<rparr>"

definition sample_owner :: "Claims option" where
  "sample_owner = Some \<lparr>CapabilityKind = [], SessionID = ''s1'', Sub = ''u1'', IsSuper = False,
     Audience = [''admin''], ExpiresAt = 60 * Second, DirectHomeID = []\<rparr>"

theorem manifest_replaces_witness:
  "\<exists>w'. handleUpsertServices (calm 9 [''n1'']) sample_owner '' d1 '' (Some [sample_entry])
       (sample_world (sample_net\<lparr>services := [sample_service]\<rparr>)) =
       (Reply 200 [service_row ''n1'' ''d1'' sample_entry], w') \<and>
     services (w_db w') = [service_row ''n1'' ''d1'' sample_entry]"
proof -
  let ?w = "sample_world (sample_net\<lparr>services := [sample_service]\<rparr>)"
  let ?run = "handleUpsertServices (calm 9 [''n1'']) sample_owner '' d1 '' (Some [sample_entry]) ?w"
  have f: "fst ?run = Reply 200 [service_row ''n1'' ''d1'' sample_entry]" "services (w_db (snd ?run)) \<noteq> services (w_db ?w)"
    "services (w_db ?w) = [sample_service]" "TrimSpace '' d1 '' = ''d1''" "sv_device_id sample_service = ''d1''"
    by code_simp+
  obtain w' where r: "?run = (Reply 200 [service_row ''n1'' ''d1'' sample_entry], w')" using f(1) by (metis prod.collapse)
  have "w' \<noteq> ?w" using f(2) r by auto
  with manifest_replaces [OF r] have m:
    "filter (\<lambda>s. sv_device_id s = ''d1'') (services (w_db w')) = [service_row ''n1'' ''d1'' sample_entry]"
    "filter (\<lambda>s. sv_device_id s \<noteq> ''d1'') (services (w_db w')) = []"
    using f(3-5) by (auto simp: enumerate_eq_zip)
  from m(2) have "filter (\<lambda>s. sv_device_id s = ''d1'') (services (w_db w')) = services (w_db w')"
    by (simp add: filter_empty_conv)
  then show ?thesis using r m(1) by simp
qed

text \<open>
  C36. A device whose service was ever the target of a session cannot report its services any more:
  sessions are never deleted and refer to the row, so the deletion at the start of the replacement
  fails for every manifest, the same one included.
\<close>

theorem sessions_block_manifest:
  assumes "c \<in> set (connect_sessions (w_db w))" "s \<in> set (services (w_db w))" "db_ok (w_db w)"
    and "cs_target_service c = sv_id s" "uuid_in E (TrimSpace param) = Some (sv_device_id s)"
  shows "handleUpsertServices E cl param (Some entries) w = (res, w') \<Longrightarrow> w' = w \<and> (\<forall>x. res \<noteq> Reply 200 x)"
proof -
  let ?d1 = "(w_db w)\<lparr>services := filter (\<lambda>x. sv_device_id x \<noteq> sv_device_id s) (services (w_db w))\<rparr>"
  have "sv_id x \<noteq> sv_id s" if "x \<in> set (services (w_db w))" "sv_device_id x \<noteq> sv_device_id s" for x
    using that assms(2,3) unique_onD [of "\<lambda>r. Some (sv_id r)" "services (w_db w)" x s]
    by (auto simp: db_ok_def services_ok_def pk_def)
  then have "\<not> refs (cs_target_service c) sv_id (services ?d1)"
    using assms(4) by (auto simp: refs_def list_ex_iff)
  then have "\<not> db_ok ?d1" using assms(1) by (auto simp: db_ok_def connect_sessions_ok_def list_all_iff)
  then have "\<exists>e. replaceDeviceServices E (TrimSpace param) entries (w_db w) = Inl e"
    using assms(5) by (auto simp: replaceDeviceServices_def statement_def)
  then show "handleUpsertServices E cl param (Some entries) w = (res, w') \<Longrightarrow> w' = w \<and> (\<forall>x. res \<noteq> Reply 200 x)"
    by (auto simp: handleUpsertServices_def Let_def writeDeviceOwnershipError_def
        split: if_splits ownership.splits)
qed

definition sample_session :: connect_session where
  "sample_session = \<lparr>cs_id = ''c1'', cs_requester_user = ''u1'', cs_requester_device = None, cs_target_device = ''d1'',
     cs_target_service = ''s1'', cs_action = ''connect'', cs_status = ''denied'', cs_requester_candidates = ''[]'',
     cs_target_candidates = ''[]'', cs_denial_reason = None, cs_expires_at = 10, cs_created_at = 0, cs_updated_at = 0\<rparr>"

definition sample_catalog :: db where
  "sample_catalog = sample_net\<lparr>services := [sample_service], connect_sessions := [sample_session]\<rparr>"

theorem sessions_block_manifest_witness:
  "db_ok sample_catalog \<and>
   (\<forall>x. fst (handleUpsertServices (calm 9 [''n1'']) sample_owner ''d1'' (Some [sample_entry]) (sample_world sample_catalog))
     \<noteq> Reply 200 x)"
proof -
  have f: "sample_session \<in> set (connect_sessions (w_db (sample_world sample_catalog)))"
    "sample_service \<in> set (services (w_db (sample_world sample_catalog)))"
    "db_ok (w_db (sample_world sample_catalog))" "cs_target_service sample_session = sv_id sample_service"
    "uuid_in (calm 9 [''n1'']) (TrimSpace ''d1'') = Some (sv_device_id sample_service)" by code_simp+
  show ?thesis
    using sessions_block_manifest [OF f, OF prod.collapse [symmetric], of sample_owner "[sample_entry]"] f(3)
    by (simp add: sample_world_def)
qed

end
