(* ===== verification/Signaling.thy ===== *)
theory Signaling
  imports Catalog
begin

text \<open>
  Packages \<open>internal/policy\<close> and \<open>internal/sessions\<close>: the access decision, connect sessions with the
  candidates of both sides, the event stream of a device up to its first bytes, and relay
  credentials. The answer of the policy server is an argument.
\<close>

section \<open>Policy\<close>

record policy_Input =
  pi_UserID :: string
  pi_DeviceID :: string
  pi_ServiceID :: string
  pi_Action :: string
  pi_RequestTime :: time

record policy_Result =
  pr_Allow :: bool
  pr_Reason :: string

text \<open>
  The exchange with the policy server: \<^const>\<open>None\<close> when the request fails, otherwise the status
  and the decoded result (\<^const>\<open>None\<close> when the body does not decode; a missing field is zero).
\<close>

type_synonym opa = "string \<Rightarrow> policy_Input \<Rightarrow> (nat \<times> policy_Result option) option"

definition Evaluate :: "string \<Rightarrow> opa \<Rightarrow> policy_Input \<Rightarrow> policy_Result option" where
  "Evaluate opaURL post input =
     (if opaURL = [] then Some \<lparr>pr_Allow = True, pr_Reason = ''policy-engine-disabled''\<rparr>
      else (case post (opaURL @ ''/v1/data/selkie/access'') input of None \<Rightarrow> None
            | Some (status, result) \<Rightarrow> if status \<noteq> 200 then None else result))"

section \<open>Sessions\<close>

definition sessionCreateLimit :: int where "sessionCreateLimit = 30"
definition sessionCreateWindow :: duration where "sessionCreateWindow = Minute"
definition sessionRelayLimit :: int where "sessionRelayLimit = 10"
definition sessionRelayWindow :: duration where "sessionRelayWindow = Minute"

record createSessionRequest =
  sr_RequesterDeviceID :: string
  sr_TargetDeviceID :: string
  sr_TargetServiceID :: string
  sr_RequestedAction :: string

definition nilIfEmpty :: "string \<Rightarrow> string option" where
  "nilIfEmpty s = (if s = [] then None else Some s)"

text \<open>The envelope of an event carries the session; delivery is best effort.\<close>

definition publishDeviceEvent :: "'r handler \<Rightarrow> env \<Rightarrow> nat \<Rightarrow> string \<Rightarrow> string \<Rightarrow> string \<Rightarrow> 'r world \<Rightarrow> 'r world" where
  "publishDeviceEvent H E i deviceID eventType payload w =
     (if \<not> h_rdb H \<or> fails E i then w
      else w\<lparr>w_events := w_events w @ [(''selkie:device:'' @ deviceID @ '':events'', eventType, payload)]\<rparr>)"

definition session_row where
  "session_row (E :: env) u requester target service action status reason =
     \<lparr>cs_id = gen_uuid E 0, cs_requester_user = u, cs_requester_device = Some requester,
      cs_target_device = target, cs_target_service = service, cs_action = action, cs_status = status,
      cs_requester_candidates = ''[]'', cs_target_candidates = ''[]'', cs_denial_reason = nilIfEmpty reason,
      cs_expires_at = clock E + Hour, cs_created_at = clock E, cs_updated_at = clock E\<rparr>"

text \<open>\<open>policy\<close> is \<^const>\<open>None\<close> for a handler without engine, otherwise its URL and exchange.\<close>

definition handleCreateSession :: "'r handler \<Rightarrow> (string \<times> opa) option \<Rightarrow> env \<Rightarrow> Claims option \<Rightarrow>
    createSessionRequest option \<Rightarrow> 'r world \<Rightarrow> connect_session response \<times> 'r world" where
  "handleCreateSession H policy E cl body w =
     (if claims_sub cl = [] then (Error 401 ''unauthorized'', w)
      else (case body of None \<Rightarrow> (Error 400 ''invalid request body'', w)
      | Some req \<Rightarrow>
          if sr_RequesterDeviceID req = [] \<or> sr_TargetDeviceID req = [] \<or> sr_TargetServiceID req = [] \<or>
             sr_RequestedAction req = []
          then (Error 400 ''missing required fields'', w)
          else (case rate_limit H E 0 (Key [''sessions'', ''create'', ''user'', claims_sub cl])
                  sessionCreateLimit sessionCreateWindow w of
            (Some res, w1) \<Rightarrow> (res, w1)
          | (None, w1) \<Rightarrow>
              (case (case policy of None \<Rightarrow> Some (''pending'', [])
                     | Some (url, post) \<Rightarrow>
                         map_option (\<lambda>dec. if pr_Allow dec then (''pending'', []) else (''denied'', pr_Reason dec))
                           (Evaluate url post \<lparr>pi_UserID = claims_sub cl, pi_DeviceID = sr_TargetDeviceID req,
                              pi_ServiceID = sr_TargetServiceID req, pi_Action = sr_RequestedAction req,
                              pi_RequestTime = clock E\<rparr>)) of
                 None \<Rightarrow> (Error 500 ''policy evaluation failed'', w1)
               | Some (sessionStatus, denialReason) \<Rightarrow>
                   (case (uuid_in E (claims_sub cl), uuid_in E (sr_RequesterDeviceID req),
                          uuid_in E (sr_TargetDeviceID req), uuid_in E (sr_TargetServiceID req)) of
                      (Some u, Some rd, Some td, Some ts) \<Rightarrow>
                        let row = session_row E u rd td ts (sr_RequestedAction req) sessionStatus denialReason in
                        (case statement (fails E 1)
                           ((w_db w1)\<lparr>connect_sessions := connect_sessions (w_db w1) @ [row]\<rparr>) of
                           None \<Rightarrow> (Error 500 ''failed to create session'', w1)
                         | Some d \<Rightarrow>
                             let w2 = w1\<lparr>w_db := d\<rparr> in
                             if sessionStatus = ''denied'' then (Reply 403 row, w2)
                             else (Reply 200 row,
                               publishDeviceEvent H E 3 (sr_TargetDeviceID req) ''session_created'' (cs_id row)
                                 (publishDeviceEvent H E 2 (sr_RequesterDeviceID req) ''session_created'' (cs_id row) w2)))
                    | _ \<Rightarrow> (Error 500 ''failed to create session'', w1))))))"

record candidatesRequest =
  ca_Role :: string
  ca_Candidates :: "string list option"

text \<open>\<open>json.Marshal\<close> of the candidates, each given by its own JSON text.\<close>

definition marshal_candidates :: "string list option \<Rightarrow> string" where
  "marshal_candidates cs = (case cs of None \<Rightarrow> ''null'' | Some xs \<Rightarrow> ''['' @ Join xs '','' @ '']'')"

definition operable :: "connect_session \<Rightarrow> bool" where
  "operable c \<longleftrightarrow> cs_status c \<notin> {''denied'', ''closing'', ''closed'', ''expired'', ''failed''}"

text \<open>The two updates of the route, by role: their \<open>WHERE\<close> clause and what they set.\<close>

definition candidate_turn :: "candidatesRequest \<Rightarrow> string \<Rightarrow> string \<Rightarrow> db \<Rightarrow> connect_session \<Rightarrow> bool" where
  "candidate_turn req sid u d c \<longleftrightarrow> cs_id c = sid \<and> operable c \<and>
     (if ca_Role req = ''requester'' then cs_requester_user c = u
      else list_ex (\<lambda>x. d_id x = cs_target_device c \<and> d_owner_user_id x = u) (devices d))"

definition set_candidates :: "env \<Rightarrow> candidatesRequest \<Rightarrow> connect_session \<Rightarrow> connect_session" where
  "set_candidates E req c = (if ca_Role req = ''requester''
     then c\<lparr>cs_requester_candidates := marshal_candidates (ca_Candidates req), cs_updated_at := clock E\<rparr>
     else c\<lparr>cs_target_candidates := marshal_candidates (ca_Candidates req), cs_updated_at := clock E\<rparr>)"

definition handleSessionCandidates :: "env \<Rightarrow> Claims option \<Rightarrow> string \<Rightarrow> candidatesRequest option \<Rightarrow> 'r world \<Rightarrow>
    unit response \<times> 'r world" where
  "handleSessionCandidates E cl param body w =
     (if claims_sub cl = [] then (Error 401 ''unauthorized'', w)
      else let sessionID = TrimSpace param in
        if sessionID = [] then (Error 400 ''session id is required'', w)
        else (case body of None \<Rightarrow> (Error 400 ''invalid request body'', w)
        | Some req \<Rightarrow>
            if ca_Role req \<noteq> ''requester'' \<and> ca_Role req \<noteq> ''target'' then (Error 400 ''invalid role'', w)
            else let d = w_db w in
              (case (uuid_in E sessionID, uuid_in E (claims_sub cl)) of
                 (Some sid, Some u) \<Rightarrow>
                   (case statement (fails E 0) (d\<lparr>connect_sessions :=
                       sql_update (candidate_turn req sid u d) (set_candidates E req) (connect_sessions d)\<rparr>) of
                      None \<Rightarrow> (Error 500 ''failed to update candidates'', w)
                    | Some d' \<Rightarrow>
                        (if sql_count (candidate_turn req sid u d) (connect_sessions d) = 0
                         then Error 404 ''session not found'' else Reply 204 (), w\<lparr>w_db := d'\<rparr>))
               | _ \<Rightarrow> (Error 500 ''failed to update candidates'', w))))"

definition handleListSessions :: "env \<Rightarrow> Claims option \<Rightarrow> 'r world \<Rightarrow> connect_session list response \<times> 'r world" where
  "handleListSessions E cl w =
     (if claims_sub cl = [] then (Error 401 ''unauthorized'', w)
      else (case (if fails E 0 then None else uuid_in E (claims_sub cl)) of
              None \<Rightarrow> (Error 500 ''failed to list sessions'', w)
            | Some u \<Rightarrow> (Reply 200 (take 50 (sort_key (\<lambda>c. - cs_created_at c)
                 (filter (\<lambda>c. cs_requester_user c = u) (connect_sessions (w_db w))))), w)))"

text \<open>
  \<open>handleDeviceEvents\<close>: the frames the stream writes for the messages and ticks that arrive before
  the client goes (\<^const>\<open>None\<close> is a tick of the keep-alive).
\<close>

fun event_frames :: "string option list \<Rightarrow> string list" where
  "event_frames [] = []"
| "event_frames (Some msg # es) = (''event: session'' @ nl @ ''data: '' @ msg @ nl @ nl) # event_frames es"
| "event_frames (None # es) = ('': keepalive'' @ nl @ nl) # event_frames es"

text \<open>\<open>%q\<close> only adds the quotes: a text that converts to a \<open>uuid\<close> has nothing to escape.\<close>

definition connected_frame :: "string \<Rightarrow> string" where
  "connected_frame dev = ''event: connected'' @ nl @ ''data: {'' @ [CHR 0x22] @ ''device_id'' @ [CHR 0x22] @ '':'' @
     [CHR 0x22] @ dev @ [CHR 0x22] @ ''}'' @ nl @ nl"

definition handleDeviceEvents :: "'r handler \<Rightarrow> env \<Rightarrow> Claims option \<Rightarrow> string \<Rightarrow> string option list \<Rightarrow> 'r world \<Rightarrow>
    string list response \<times> 'r world" where
  "handleDeviceEvents H E cl param arrivals w =
     (if claims_sub cl = [] then (Error 401 ''unauthorized'', w)
      else let deviceID = TrimSpace param in
        if deviceID = [] then (Error 400 ''device id is required'', w)
        else (case verifyDeviceOwnership E 0 deviceID (claims_sub cl) (w_db w) of
                NotFound \<Rightarrow> (Error 404 ''device not found'', w)
              | OwnershipFailed \<Rightarrow> (Error 500 ''failed to open events stream'', w)
              | Owned \<Rightarrow> (Reply 200 (connected_frame deviceID #
                   (if \<not> h_rdb H
                    then [''event: error'' @ nl @ ''data: {'' @ [CHR 0x22] @ ''message'' @ [CHR 0x22] @ '':'' @ [CHR 0x22] @
                          ''SSE unavailable (redis not configured)'' @ [CHR 0x22] @ ''}'' @ nl @ nl]
                    else event_frames arrivals)), w)))"

section \<open>Relay credentials\<close>

definition relayCredentialTTL :: int where "relayCredentialTTL = 3600"

record relayCredentialResponse =
  re_TurnServer :: string
  re_TurnPort :: int
  re_Username :: string
  re_Password :: string
  re_TTLSeconds :: int
  re_Transport :: string

definition relay_username :: "time \<Rightarrow> string \<Rightarrow> string" where
  "relay_username expiresAt sessionID = Itoa (expiresAt div Second) @ '':'' @ sessionID"

definition relay_row :: "env \<Rightarrow> string \<Rightarrow> string \<Rightarrow> string \<Rightarrow> relay_credential" where
  "relay_row E sid username password =
     \<lparr>rc_session = sid, rc_username = username, rc_password = password, rc_transport = ''udp'',
      rc_ttl = relayCredentialTTL, rc_issued_at = clock E,
      rc_expires_at = clock E + relayCredentialTTL * Second\<rparr>"

definition handleRelayCredentials :: "'r handler \<Rightarrow> env \<Rightarrow> Claims option \<Rightarrow> string \<Rightarrow> 'r world \<Rightarrow>
    relayCredentialResponse response \<times> 'r world" where
  "handleRelayCredentials H E cl param w =
     (if claims_sub cl = [] then (Error 401 ''unauthorized'', w)
      else let sessionID = TrimSpace param in
        if sessionID = [] then (Error 400 ''session id is required'', w)
        else (case rate_limit H E 0 (Key [''sessions'', ''relay'', ''session'', sessionID])
                sessionRelayLimit sessionRelayWindow w of
          (Some res, w1) \<Rightarrow> (res, w1)
        | (None, w1) \<Rightarrow>
            if CoturnSecret (h_cfg H) = [] then (Error 503 ''relay not configured'', w1)
            else (case (if fails E 1 then (None, None) else (uuid_in E sessionID, uuid_in E (claims_sub cl))) of
              (Some sid, Some u) \<Rightarrow>
                if \<not> list_ex (\<lambda>c. cs_id c = sid \<and> cs_requester_user c = u \<and> operable c) (connect_sessions (w_db w1))
                then (Error 404 ''session not found'', w1)
                else
                  let username = relay_username (clock E + relayCredentialTTL * Second) sessionID;
                      password = b64_encode b64_std (hmac_sha1 (h_crypto H) (CoturnSecret (h_cfg H)) username) in
                  (case statement (fails E 2) ((w_db w1)\<lparr>relay_credentials := relay_credentials (w_db w1) @
                       [relay_row E sid username password]\<rparr>) of
                     None \<Rightarrow> (Error 500 ''failed to issue relay credentials'', w1)
                   | Some d \<Rightarrow>
                       (Reply 200 \<lparr>re_TurnServer = TurnHost (h_cfg H), re_TurnPort = TurnPort (h_cfg H),
                          re_Username = username, re_Password = password, re_TTLSeconds = relayCredentialTTL,
                          re_Transport = ''udp''\<rparr>, w1\<lparr>w_db := d\<rparr>))
            | _ \<Rightarrow> (Error 500 ''failed to validate session'', w1))))"

section \<open>What the session routes guarantee\<close>

inductive session_step :: "'r handler \<Rightarrow> 'r world \<Rightarrow> 'r world \<Rightarrow> bool" for H where
  create: "handleCreateSession H pol E cl body w = (res, w') \<Longrightarrow> session_step H w w'"
| candidates: "handleSessionCandidates E cl param cand w = (ack, w') \<Longrightarrow> session_step H w w'"
| relay: "handleRelayCredentials H E cl param w = (cred, w') \<Longrightarrow> session_step H w w'"
| list_sessions: "handleListSessions E cl w = (ss, w') \<Longrightarrow> session_step H w w'"
| events: "handleDeviceEvents H E cl param arrivals w = (fs, w') \<Longrightarrow> session_step H w w'"

lemma publish_db [simp]: "w_db (publishDeviceEvent H E i dev t p w) = w_db w"
  by (simp add: publishDeviceEvent_def)

lemma rate_limit_w_db: "rate_limit H E i k n t w = (x, v) \<Longrightarrow> w_db v = w_db w"
  by (rule rate_limit_result(1))

lemma create_effect:
  assumes "handleCreateSession H pol E cl body w = (res, w')"
  shows "w_db w' = w_db w \<and> (\<forall>c. res \<noteq> Reply 200 c \<and> res \<noteq> Reply 403 c) \<or>
    (\<exists>row. (res = Reply 200 row \<and> cs_status row = ''pending'' \<or> res = Reply 403 row \<and> cs_status row = ''denied'') \<and>
       w_db w' = (w_db w)\<lparr>connect_sessions := connect_sessions (w_db w) @ [row]\<rparr> \<and> db_ok (w_db w') \<and>
       uuid_in E (claims_sub cl) = Some (cs_requester_user row))"
proof (cases "claims_sub cl = [] \<or> body = None")
  case True
  then show ?thesis using assms by (auto simp: handleCreateSession_def split: if_splits)
next
  case False
  then obtain req where b: "body = Some req" by auto
  obtain x v where p: "rate_limit H E 0 (Key [''sessions'', ''create'', ''user'', claims_sub cl])
      sessionCreateLimit sessionCreateWindow w = (x :: connect_session response option, v)" by (rule prod.exhaust)
  note R = rate_limit_result [OF p]
  show ?thesis
    using assms p b False R
    by (auto simp: handleCreateSession_def Let_def session_row_def
        split: if_splits option.splits prod.splits)
qed

lemma set_candidates_simps [simp]:
  "cs_id (set_candidates E req c) = cs_id c" "cs_status (set_candidates E req c) = cs_status c"
  by (simp_all add: set_candidates_def)

lemma candidates_effect:
  assumes "handleSessionCandidates E cl param body w = (res, w')"
  shows "w' = w \<or> (\<exists>req sid u. body = Some req \<and>
    w' = w\<lparr>w_db := (w_db w)\<lparr>connect_sessions :=
      sql_update (candidate_turn req sid u (w_db w)) (set_candidates E req) (connect_sessions (w_db w))\<rparr>\<rparr> \<and>
    uuid_in E (TrimSpace param) = Some sid \<and> uuid_in E (claims_sub cl) = Some u \<and>
    ca_Role req \<in> {''requester'', ''target''} \<and> db_ok (w_db w') \<and>
    res = (if sql_count (candidate_turn req sid u (w_db w)) (connect_sessions (w_db w)) = 0
           then Error 404 ''session not found'' else Reply 204 ()))"
proof (cases "\<exists>req sid u. body = Some req \<and> uuid_in E (TrimSpace param) = Some sid \<and> uuid_in E (claims_sub cl) = Some u")
  case True
  then obtain req sid u where h: "body = Some req" "uuid_in E (TrimSpace param) = Some sid"
    "uuid_in E (claims_sub cl) = Some u" by blast
  show ?thesis
  proof (cases "w' = w")
    case False
    with assms h show ?thesis
      by (intro disjI2 exI [of _ req] exI [of _ sid] exI [of _ u])
        (auto simp: handleSessionCandidates_def Let_def simp del: world.update_convs split: if_splits option.splits)
  qed simp
next
  case False
  with assms show ?thesis by (auto simp: handleSessionCandidates_def Let_def split: if_splits option.splits)
qed

lemma relay_effect:
  assumes "handleRelayCredentials H E cl param w = (res, w')"
  shows "w_db w' = w_db w \<and> (\<forall>c. res \<noteq> Reply 200 c) \<or>
    (\<exists>sid u password. uuid_in E (TrimSpace param) = Some sid \<and> uuid_in E (claims_sub cl) = Some u \<and>
       password = b64_encode b64_std (hmac_sha1 (h_crypto H) (CoturnSecret (h_cfg H))
         (relay_username (clock E + relayCredentialTTL * Second) (TrimSpace param))) \<and>
       (\<exists>c \<in> set (connect_sessions (w_db w)). cs_id c = sid \<and> cs_requester_user c = u \<and> operable c) \<and>
       w_db w' = (w_db w)\<lparr>relay_credentials := relay_credentials (w_db w) @
         [relay_row E sid (relay_username (clock E + relayCredentialTTL * Second) (TrimSpace param)) password]\<rparr> \<and>
       db_ok (w_db w') \<and>
       (\<exists>r. res = Reply 200 r \<and> re_Username r = relay_username (clock E + relayCredentialTTL * Second) (TrimSpace param) \<and>
          re_Password r = password \<and> re_TTLSeconds r = relayCredentialTTL))"
proof (cases "claims_sub cl = [] \<or> TrimSpace param = []")
  case True
  then show ?thesis using assms by (auto simp: handleRelayCredentials_def Let_def split: if_splits)
next
  case False
  obtain x v where p: "rate_limit H E 0 (Key [''sessions'', ''relay'', ''session'', TrimSpace param])
      sessionRelayLimit sessionRelayWindow w = (x :: relayCredentialResponse response option, v)" by (rule prod.exhaust)
  note R = rate_limit_result [OF p]
  show ?thesis
    using assms p False R
    by (auto simp: handleRelayCredentials_def Let_def list_ex_iff
        split: if_splits option.splits prod.splits)
qed

definition frozen :: "connect_session \<Rightarrow> 'r world \<Rightarrow> bool" where
  "frozen c w \<longleftrightarrow> c \<in> set (connect_sessions (w_db w)) \<and> \<not> operable c"

lemma frozen_step:
  assumes "frozen c w" "session_step H w w'"
  shows "frozen c w'"
  using assms(2)
proof cases
  case (create pol E cl body res)
  from create_effect [OF this] assms(1) show ?thesis by (auto simp: frozen_def)
next
  case (candidates E cl param cand ack)
  from candidates_effect [OF this] assms(1) show ?thesis by (auto simp: frozen_def set_sql_update candidate_turn_def)
next
  case (relay E cl param cred)
  from relay_effect [OF this] assms(1) show ?thesis by (auto simp: frozen_def)
next
  case (list_sessions E cl ss)
  then show ?thesis using assms(1) by (auto simp: handleListSessions_def split: if_splits option.splits)
next
  case (events E cl param arrivals fs)
  then show ?thesis using assms(1)
    by (auto simp: handleDeviceEvents_def Let_def split: if_splits ownership.splits)
qed

interpretation sessions: invariant_system "session_step H" "frozen c" for H c
  by unfold_locales (rule frozen_step)

text \<open>
  A session that was denied or is over stays as it is: whatever requests anyone sends to the
  session routes, its row (status, candidates, everything) never changes again.
\<close>

theorem ended_session_frozen:
  assumes "c \<in> set (connect_sessions (w_db w))"
    and "cs_status c \<in> {''denied'', ''closing'', ''closed'', ''expired'', ''failed''}"
    and "reach w (session_step H) w'"
  shows "c \<in> set (connect_sessions (w_db w'))"
  using sessions.reach_inv [OF assms(3), of c] assms(1,2) by (simp add: frozen_def operable_def)

theorem ended_session_frozen_witness:
  "sample_session \<in> set (connect_sessions (w_db (snd (handleSessionCandidates (calm 9 []) sample_owner ''c1''
     (Some \<lparr>ca_Role = ''requester'', ca_Candidates = Some []\<rparr>) (sample_world sample_catalog)))))"
proof -
  let ?w = "sample_world sample_catalog"
  let ?run = "handleSessionCandidates (calm 9 []) sample_owner ''c1''
     (Some \<lparr>ca_Role = ''requester'', ca_Candidates = Some []\<rparr>) ?w"
  have f: "sample_session \<in> set (connect_sessions (w_db ?w))"
    "cs_status sample_session \<in> {''denied'', ''closing'', ''closed'', ''expired'', ''failed''}" by code_simp+
  have "session_step sample_handler ?w (snd ?run)"
    by (rule session_step.candidates [OF prod.collapse [symmetric]])
  from ended_session_frozen [OF f reach_step [where step = "session_step sample_handler", OF reach_start this]] show ?thesis .
qed

text \<open>
  C20. The policy fails closed: with a policy server configured, a session is only ever created as
  pending when the server answered 200 with an explicit permission for exactly this user, device,
  service and action; when it denies, the session is stored as denied and answered with 403, and
  when it cannot be asked or its answer cannot be read, nothing is stored.
\<close>

theorem policy_fails_closed:
  assumes "handleCreateSession H (Some (url, post)) E cl (Some req) w = (res, w')" "url \<noteq> []"
  shows "w_db w' = w_db w \<or>
    (\<exists>dec row. post (url @ ''/v1/data/selkie/access'') \<lparr>pi_UserID = claims_sub cl, pi_DeviceID = sr_TargetDeviceID req,
        pi_ServiceID = sr_TargetServiceID req, pi_Action = sr_RequestedAction req, pi_RequestTime = clock E\<rparr>
        = Some (200, Some dec) \<and>
      w_db w' = (w_db w)\<lparr>connect_sessions := connect_sessions (w_db w) @ [row]\<rparr> \<and>
      (if pr_Allow dec then res = Reply 200 row \<and> cs_status row = ''pending''
       else res = Reply 403 row \<and> cs_status row = ''denied'' \<and> w_events w' = w_events w))"
proof (cases "claims_sub cl = []")
  case True
  then show ?thesis using assms by (auto simp: handleCreateSession_def)
next
  case False
  obtain x v where p: "rate_limit H E 0 (Key [''sessions'', ''create'', ''user'', claims_sub cl])
      sessionCreateLimit sessionCreateWindow w = (x :: connect_session response option, v)" by (rule prod.exhaust)
  have v: "w_db v = w_db w" "w_events v = w_events w"
    using p by (auto simp: rate_limit_def split: prod.splits)
  show ?thesis
    using assms p False v
    by (auto simp: handleCreateSession_def Evaluate_def Let_def session_row_def
        split: if_splits option.splits prod.splits)
qed

definition open_session :: db where
  "open_session = sample_net\<lparr>services := [sample_service],
     connect_sessions := [sample_session\<lparr>cs_status := ''pending''\<rparr>]\<rparr>"

definition sample_ask :: createSessionRequest where
  "sample_ask = \<lparr>sr_RequesterDeviceID = ''d1'', sr_TargetDeviceID = ''d1'', sr_TargetServiceID = ''s1'',
     sr_RequestedAction = ''connect''\<rparr>"

definition sample_opa :: opa where
  "sample_opa url inp = Some (200, Some \<lparr>pr_Allow = pi_Action inp = ''view'', pr_Reason = ''no''\<rparr>)"

theorem policy_fails_closed_witness:
  "\<exists>row w'. handleCreateSession sample_handler (Some (''http://opa'', sample_opa)) (calm 9 [''c9'']) sample_owner
      (Some sample_ask) (sample_world open_session) = (Reply 403 row, w') \<and> cs_status row = ''denied''"
proof -
  let ?run = "handleCreateSession sample_handler (Some (''http://opa'', sample_opa)) (calm 9 [''c9'']) sample_owner
      (Some sample_ask) (sample_world open_session)"
  have f: "length (connect_sessions (w_db (snd ?run))) \<noteq> length (connect_sessions (w_db (sample_world open_session)))"
    by code_simp
  have n: "''http://opa'' \<noteq> []" by simp
  from policy_fails_closed [OF prod.collapse [symmetric] n, of sample_handler sample_opa "calm 9 [''c9'']" sample_owner
      sample_ask "sample_world open_session"] f
  show ?thesis by (auto simp: sample_opa_def sample_ask_def prod_eq_iff)
qed

text \<open>
  C26. TURN credentials are only handed out for a session of the caller that is not over, and the
  password is the one coturn derives itself: the base64 of the HMAC of the username under the
  shared secret, the username being the second the credential expires and the session. What is
  stored is what is answered.
\<close>

theorem relay_credential_issued:
  assumes "handleRelayCredentials H E cl param w = (Reply 200 r, w')"
  shows "\<exists>sid u c. uuid_in E (TrimSpace param) = Some sid \<and> uuid_in E (claims_sub cl) = Some u \<and>
    c \<in> set (connect_sessions (w_db w)) \<and> cs_id c = sid \<and> cs_requester_user c = u \<and> operable c \<and>
    re_Username r = Itoa ((clock E + 3600 * Second) div Second) @ '':'' @ TrimSpace param \<and>
    re_Password r = b64_encode b64_std (hmac_sha1 (h_crypto H) (CoturnSecret (h_cfg H)) (re_Username r)) \<and>
    relay_credentials (w_db w') = relay_credentials (w_db w) @ [relay_row E sid (re_Username r) (re_Password r)]"
  using relay_effect [OF assms]
  by (auto simp: relay_username_def relayCredentialTTL_def)

theorem relay_credential_issued_witness:
  "\<exists>r w'. handleRelayCredentials sample_handler (calm 9 []) sample_owner ''c1'' (sample_world open_session) = (Reply 200 r, w') \<and>
     re_Username r = ''3600:c1'' \<and> length (relay_credentials (w_db w')) = 1"
proof -
  let ?run = "handleRelayCredentials sample_handler (calm 9 []) sample_owner ''c1'' (sample_world open_session)"
  have f: "case fst ?run of Reply n r \<Rightarrow> n = 200 | _ \<Rightarrow> False" "relay_credentials (w_db (sample_world open_session)) = []"
    "Itoa ((clock (calm 9 []) + 3600 * Second) div Second) @ '':'' @ TrimSpace ''c1'' = ''3600:c1''" by code_simp+
  from f(1) obtain r w' where r: "?run = (Reply 200 r, w')" by (cases ?run) (auto split: response.splits)
  from relay_credential_issued [OF r] f(2,3) have
    "re_Username r = ''3600:c1''" "length (relay_credentials (w_db w')) = 1" by auto
  with r show ?thesis by blast
qed

text \<open>
  Two credentials for the same session cannot be issued within one second, although the limit
  allows ten in a minute: the username only has the second and the session in it and is unique.
\<close>

theorem relay_credential_once_a_second:
  assumes "handleRelayCredentials H E cl param w = (Reply 200 r, w')"
    and "clock E' div Second = clock E div Second" "TrimSpace param' = TrimSpace param"
  shows "fst (handleRelayCredentials H E' cl' param' w') \<noteq> Reply 200 r'"
proof
  assume h: "fst (handleRelayCredentials H E' cl' param' w') = Reply 200 r'"
  have u: "relay_username (clock E' + relayCredentialTTL * Second) (TrimSpace param') =
      relay_username (clock E + relayCredentialTTL * Second) (TrimSpace param)"
    using assms(2,3) by (simp add: relay_username_def Second_def)
  obtain w'' where h': "handleRelayCredentials H E' cl' param' w' = (Reply 200 r', w'')"
    using h by (metis prod.collapse)
  from relay_effect [OF assms(1)] obtain row where
    "relay_credentials (w_db w') = relay_credentials (w_db w) @ [row]"
    "rc_username row = relay_username (clock E + relayCredentialTTL * Second) (TrimSpace param)"
    by (auto simp: relay_row_def)
  moreover from relay_effect [OF h'] u obtain row' where
    "relay_credentials (w_db w'') = relay_credentials (w_db w') @ [row']" "db_ok (w_db w'')"
    "rc_username row' = relay_username (clock E + relayCredentialTTL * Second) (TrimSpace param)"
    by (auto simp: relay_row_def)
  ultimately show False by (simp add: db_ok_def relay_credentials_ok_def pk_distinct)
qed

theorem relay_credential_once_a_second_witness:
  "\<exists>r w'. handleRelayCredentials sample_handler (calm 9 []) sample_owner ''c1'' (sample_world open_session) = (Reply 200 r, w') \<and>
     (\<forall>r'. fst (handleRelayCredentials sample_handler (calm 70 []) sample_owner '' c1'' w') \<noteq> Reply 200 r')"
proof -
  let ?run = "handleRelayCredentials sample_handler (calm 9 []) sample_owner ''c1'' (sample_world open_session)"
  have f: "case fst ?run of Reply n r \<Rightarrow> n = 200 | _ \<Rightarrow> False"
    "clock (calm 70 []) div Second = clock (calm 9 []) div Second" "TrimSpace '' c1'' = TrimSpace ''c1''" by code_simp+
  from f(1) obtain r where r: "?run = (Reply 200 r, snd ?run)" by (cases ?run) (auto split: response.splits)
  from relay_credential_once_a_second [OF r f(2,3)] r show ?thesis by blast
qed

end
