(* ===== verification/Relay_Stats.thy ===== *)
theory Relay_Stats
  imports Signaling
begin

text \<open>
  Package \<open>internal/nat\<close>, \<open>statsdb.go\<close>: the subscriber to the events coturn publishes about its
  allocations. A message is a channel name and a payload; its handling is a function on the
  database, which stays as it was when a statement fails (the error is only logged).
\<close>

section \<open>The patterns\<close>

text \<open>
  \<open>channelRe\<close>: after each fixed part a non-empty segment without slash, at the end a non-empty rest
  without line feed.
\<close>

definition segment :: "string \<Rightarrow> string \<Rightarrow> (string \<times> string) option" where
  "segment pre s =
     (if prefix pre s
      then (case Cut (drop (length pre) s) CHR ''/'' of None \<Rightarrow> None
            | Some (a, b) \<Rightarrow> if a = [] then None else Some (a, b))
      else None)"

definition channelRe :: "string \<Rightarrow> (string \<times> string \<times> string \<times> string) option" where
  "channelRe channel =
     (case segment ''turn/realm/'' channel of None \<Rightarrow> None
      | Some (realm, s1) \<Rightarrow>
          (case segment ''user/'' s1 of None \<Rightarrow> None
           | Some (username, s2) \<Rightarrow>
               (case segment ''allocation/'' s2 of None \<Rightarrow> None
                | Some (allocID, eventType) \<Rightarrow>
                    if eventType = [] \<or> CHR 0x0A \<in> set eventType then None
                    else Some (realm, username, allocID, eventType))))"

text \<open>
  \<open>trafficRe\<close>: all matches of a word, an equals sign and digits, from left to right. The word is
  maximal, since no equals sign is a word character; after a failure inside a word no later start
  in the same word can match.
\<close>

function trafficRe :: "string \<Rightarrow> (string \<times> string) list" where
  "trafficRe s =
     (if s = [] then []
      else let word = takeWhile is_word s; rest = dropWhile is_word s in
        if word = [] then trafficRe (tl s)
        else if rest = [] \<or> hd rest \<noteq> CHR ''='' then trafficRe rest
        else let num = takeWhile is_digit (tl rest) in
          if num = [] then trafficRe rest else (word, num) # trafficRe (dropWhile is_digit (tl rest)))"
  by auto

lemma dropWhile_shorter: "takeWhile p s \<noteq> [] \<Longrightarrow> length (dropWhile p s) < length s"
  by (cases s) (auto simp: length_dropWhile_le le_imp_less_Suc split: if_splits)

termination trafficRe
proof (relation "measure length")
  fix s word rest num
  assume h: "s \<noteq> []" "word = takeWhile is_word s" "rest = dropWhile is_word s" "word \<noteq> []"
    "\<not> (rest = [] \<or> hd rest \<noteq> CHR ''='')"
  have "length (dropWhile is_digit (tl rest)) \<le> length rest"
    by (metis diff_le_self dual_order.trans length_dropWhile_le length_tl)
  also have "\<dots> < length s" using h dropWhile_shorter [of is_word s] by simp
  finally show "(dropWhile is_digit (tl rest), s) \<in> measure length" by simp
qed (auto simp: dropWhile_shorter)

declare trafficRe.simps [simp del]

definition parseTraffic :: "string \<Rightarrow> string \<Rightarrow> int option" where
  "parseTraffic payload =
     fold (\<lambda>(k, num) m. case Atoi num of None \<Rightarrow> m | Some v \<Rightarrow> m(k \<mapsto> v)) (trafficRe payload) Map.empty"

section \<open>Messages\<close>

text \<open>\<open>strings.SplitN(username, ":", 2)\<close> has two parts exactly when there is a colon.\<close>

definition extractSessionID :: "string \<Rightarrow> string" where
  "extractSessionID username = (case Cut username CHR '':'' of None \<Rightarrow> [] | Some (a, b) \<Rightarrow> b)"

definition allocation_row :: "env \<Rightarrow> string \<Rightarrow> string \<Rightarrow> relay_allocation" where
  "allocation_row E sid allocKey =
     \<lparr>ra_id = gen_uuid E 0, ra_session = sid, ra_key = allocKey, ra_transport = ''udp'', ra_state = ''active'',
      ra_bytes_up = 0, ra_bytes_down = 0, ra_started_at = clock E, ra_ended_at = None, ra_updated_at = clock E\<rparr>"

definition alloc_key :: "string \<Rightarrow> string \<Rightarrow> string \<Rightarrow> string" where
  "alloc_key realm username allocID = realm @ ''/'' @ username @ ''/'' @ allocID"

text \<open>An \<open>Exec\<close> whose error is logged: \<^const>\<open>None\<close> is a parameter that does not convert.\<close>

definition exec_logged :: "env \<Rightarrow> db option \<Rightarrow> db \<Rightarrow> db" where
  "exec_logged E dn d = (case dn of None \<Rightarrow> d
     | Some d1 \<Rightarrow> (case statement (fails E 0) d1 of None \<Rightarrow> d | Some d2 \<Rightarrow> d2))"

definition handleStatus :: "env \<Rightarrow> string \<Rightarrow> string \<Rightarrow> string \<Rightarrow> string \<Rightarrow> string \<Rightarrow> db \<Rightarrow> db" where
  "handleStatus E realm sessionID allocID username payload d =
     (if prefix ''new '' payload then
        let allocKey = alloc_key realm username allocID in
        exec_logged E (map_option (\<lambda>sid.
            if list_ex (\<lambda>a. ra_key a = allocKey) (relay_allocations d) then d
            else d\<lparr>relay_allocations := relay_allocations d @ [allocation_row E sid allocKey]\<rparr>)
          (uuid_in E sessionID)) d
      else if payload = ''deleted'' then
        exec_logged E (map_option (\<lambda>sid. d\<lparr>relay_allocations :=
            sql_update (\<lambda>a. ra_session a = sid \<and> ra_state a = ''active'')
              (\<lambda>a. a\<lparr>ra_state := ''closed'', ra_ended_at := Some (clock E), ra_updated_at := clock E\<rparr>)
              (relay_allocations d)\<rparr>)
          (uuid_in E sessionID)) d
      else d)"

text \<open>The row of the subquery; among rows that started at the same time any may be taken.\<close>

definition latest_allocation :: "string \<Rightarrow> relay_allocation list \<Rightarrow> string option" where
  "latest_allocation sid as = (case sort_key (\<lambda>a. - ra_started_at a) (filter (\<lambda>a. ra_session a = sid) as) of
     [] \<Rightarrow> None | a # _ \<Rightarrow> Some (ra_id a))"

definition handleTotalTraffic :: "env \<Rightarrow> string \<Rightarrow> string \<Rightarrow> db \<Rightarrow> db" where
  "handleTotalTraffic E sessionID payload d =
     (let counters = parseTraffic payload;
          bytesUp = (case counters ''rcvb'' of None \<Rightarrow> 0 | Some n \<Rightarrow> n);
          bytesDown = (case counters ''sentb'' of None \<Rightarrow> 0 | Some n \<Rightarrow> n) in
      exec_logged E (map_option (\<lambda>sid. d\<lparr>relay_allocations :=
          sql_update (\<lambda>a. Some (ra_id a) = latest_allocation sid (relay_allocations d))
            (\<lambda>a. a\<lparr>ra_bytes_up := bytesUp, ra_bytes_down := bytesDown, ra_updated_at := clock E\<rparr>)
            (relay_allocations d)\<rparr>)
        (uuid_in E sessionID)) d)"

definition handleMessage :: "env \<Rightarrow> string \<Rightarrow> string \<Rightarrow> db \<Rightarrow> db" where
  "handleMessage E channel payload d =
     (case channelRe channel of None \<Rightarrow> d
      | Some (realm, username, allocID, eventType) \<Rightarrow>
          let sessionID = extractSessionID username in
          if sessionID = [] then d
          else if eventType = ''status'' then handleStatus E realm sessionID allocID username payload d
          else if eventType = ''total_traffic'' then handleTotalTraffic E sessionID payload d
          else d)"

text \<open>\<open>Run\<close>: the messages that arrive until the subscription ends, each in its own environment.\<close>

fun stats_Run :: "(env \<times> string \<times> string) list \<Rightarrow> db \<Rightarrow> db" where
  "stats_Run [] d = d"
| "stats_Run ((E, channel, payload) # ms) d = stats_Run ms (handleMessage E channel payload d)"

section \<open>The patterns find what coturn writes\<close>

definition turn_channel :: "string \<Rightarrow> string \<Rightarrow> string \<Rightarrow> string \<Rightarrow> string" where
  "turn_channel realm username allocID event =
     ''turn/realm/'' @ realm @ ''/user/'' @ username @ ''/allocation/'' @ allocID @ ''/'' @ event"

definition path_part :: "string \<Rightarrow> bool" where
  "path_part s \<longleftrightarrow> s \<noteq> [] \<and> CHR ''/'' \<notin> set s"

lemma segment_append: "path_part a \<Longrightarrow> segment pre (pre @ a @ CHR ''/'' # b) = Some (a, b)"
  by (simp add: segment_def path_part_def Cut_append)

lemma channelRe_turn_channel:
  assumes "path_part realm" "path_part username" "path_part allocID" "ev \<noteq> []" "CHR 0x0A \<notin> set ev"
  shows "channelRe (turn_channel realm username allocID ev) = Some (realm, username, allocID, ev)"
proof -
  let ?s2 = "''allocation/'' @ allocID @ CHR ''/'' # ev"
  let ?s1 = "''user/'' @ username @ CHR ''/'' # ?s2"
  have "turn_channel realm username allocID ev = ''turn/realm/'' @ realm @ CHR ''/'' # ?s1"
    by (simp add: turn_channel_def)
  then show ?thesis
    using segment_append [OF assms(1), of "''turn/realm/''" ?s1] segment_append [OF assms(2), of "''user/''" ?s2]
      segment_append [OF assms(3), of "''allocation/''" ev] assms(4,5)
    by (simp add: channelRe_def)
qed

lemma extractSessionID_relay_username: "extractSessionID (relay_username t s) = s"
  by (simp add: extractSessionID_def relay_username_def Cut_append [OF Itoa_no_colon])

lemma Itoa_no_slash: "CHR ''/'' \<notin> set (Itoa i)"
  using dec_nat_no_sep by (auto simp: Itoa_def)

lemma trafficRe_pair:
  assumes "list_all is_word k" "k \<noteq> []" "all_digits n" "r = [] \<or> \<not> is_digit (hd r)"
  shows "trafficRe (k @ CHR ''='' # n @ r) = (k, n) # trafficRe r"
proof -
  have n: "n \<noteq> []" "list_all is_digit n" using assms(3) by (auto simp: all_digits_def)
  have e: "\<not> is_word CHR ''=''" by code_simp
  have t: "takeWhile is_word (k @ CHR ''='' # n @ r) = k" "dropWhile is_word (k @ CHR ''='' # n @ r) = CHR ''='' # n @ r"
    using assms(1) e by (auto simp: takeWhile_append dropWhile_append list_all_iff takeWhile_eq_all_conv [THEN iffD2])
  have d: "takeWhile is_digit (n @ r) = n" "dropWhile is_digit (n @ r) = r"
    using n(2) assms(4) by (cases r; auto simp: takeWhile_append dropWhile_append list_all_iff)+
  show ?thesis
    by (subst trafficRe.simps) (simp add: t d n(1) assms(2) Let_def)
qed

lemma trafficRe_sep: "c \<in> {CHR '','', CHR '' ''} \<Longrightarrow> trafficRe (c # s) = trafficRe s"
proof -
  assume c: "c \<in> {CHR '','', CHR '' ''}"
  have "\<not> is_word (CHR '','')" "\<not> is_word (CHR '' '')" by code_simp+
  with c show ?thesis by (subst trafficRe.simps) auto
qed

definition traffic_payload :: "nat \<Rightarrow> nat \<Rightarrow> nat \<Rightarrow> nat \<Rightarrow> string" where
  "traffic_payload rp rb sp sb = ''rcvp='' @ dec_nat rp @ '', rcvb='' @ dec_nat rb @ '', sentp='' @ dec_nat sp @
     '', sentb='' @ dec_nat sb"

lemma trafficRe_payload:
  "trafficRe (traffic_payload rp rb sp sb) =
     [(''rcvp'', dec_nat rp), (''rcvb'', dec_nat rb), (''sentp'', dec_nat sp), (''sentb'', dec_nat sb)]"
proof -
  have w: "list_all is_word ''rcvp''" "list_all is_word ''rcvb''" "list_all is_word ''sentp''"
    "list_all is_word ''sentb''" "\<not> is_digit CHR '',''" by code_simp+
  note P = trafficRe_pair [OF w(1) _ all_digits_dec_nat [of rp]] trafficRe_pair [OF w(2) _ all_digits_dec_nat [of rb]]
    trafficRe_pair [OF w(3) _ all_digits_dec_nat [of sp]] trafficRe_pair [OF w(4) _ all_digits_dec_nat [of sb], of "[]"]
  have "trafficRe [] = []" by (subst trafficRe.simps) simp
  with P w(5) show ?thesis by (simp add: traffic_payload_def trafficRe_sep)
qed

lemma Atoi_dec_nat: "int n < 2 ^ 63 \<Longrightarrow> Atoi (dec_nat n) = Some (int n)"
  using Atoi_Itoa [of "int n"] by (simp add: Itoa_def int64_def)

lemma parseTraffic_payload:
  assumes "int rb < 2 ^ 63" "int sb < 2 ^ 63"
  shows "parseTraffic (traffic_payload rp rb sp sb) ''rcvb'' = Some (int rb)"
    "parseTraffic (traffic_payload rp rb sp sb) ''sentb'' = Some (int sb)"
  using assms by (simp_all add: parseTraffic_def trafficRe_payload Atoi_dec_nat split: option.splits)

section \<open>What a message does to the allocations\<close>

lemma exec_logged_cases: "exec_logged E dn d = d \<or> (\<exists>d1. dn = Some d1 \<and> exec_logged E dn d = d1 \<and> db_ok d1 \<and> \<not> fails E 0)"
  by (auto simp: exec_logged_def split: option.splits)

lemma exec_logged_Some: "\<not> fails E 0 \<Longrightarrow> db_ok d1 \<Longrightarrow> exec_logged E (Some d1) d = d1"
  by (simp add: exec_logged_def statement_def)

lemma db_ok_allocations_update:
  assumes "db_ok d" "\<And>a. ra_id (f a) = ra_id a" "\<And>a. ra_key (f a) = ra_key a"
    and "\<And>a. p a \<Longrightarrow> a \<in> set (relay_allocations d) \<Longrightarrow>
      relay_allocations_ok (connect_sessions d) [a] \<Longrightarrow> relay_allocations_ok (connect_sessions d) [f a]"
  shows "db_ok (d\<lparr>relay_allocations := sql_update p f (relay_allocations d)\<rparr>)"
proof -
  have m: "map ra_id (sql_update p f (relay_allocations d)) = map ra_id (relay_allocations d)"
    "map ra_key (sql_update p f (relay_allocations d)) = map ra_key (relay_allocations d)"
    by (simp_all add: map_sql_update assms(2,3))
  have r: "relay_allocations_ok cs as \<longleftrightarrow> distinct (map ra_id as) \<and> distinct (map ra_key as) \<and>
      (\<forall>a \<in> set as. relay_allocations_ok cs [a])" for cs as
    by (auto simp: relay_allocations_ok_def pk_distinct list_all_iff)
  have "relay_allocations_ok (connect_sessions d) (relay_allocations d)" using assms(1) by (simp add: db_ok_def)
  then have "relay_allocations_ok (connect_sessions d) (sql_update p f (relay_allocations d))"
    unfolding r [of _ "sql_update p f (relay_allocations d)"] r [of _ "relay_allocations d"] m
    using assms(4) by (auto simp: set_sql_update)
  with assms(1) show ?thesis by (simp add: db_ok_def)
qed

text \<open>An allocation only ever moves from active to closed, and its counters change.\<close>

definition alloc_later :: "relay_allocation \<Rightarrow> relay_allocation \<Rightarrow> bool" where
  "alloc_later a b \<longleftrightarrow> ra_id b = ra_id a \<and> ra_session b = ra_session a \<and> ra_key b = ra_key a \<and>
     ra_started_at b = ra_started_at a \<and>
     (ra_state b = ra_state a \<and> ra_ended_at b = ra_ended_at a \<or>
      ra_state a = ''active'' \<and> ra_state b = ''closed'' \<and> ra_ended_at b \<noteq> None)"

lemma alloc_later_refl [simp]: "alloc_later a a"
  by (simp add: alloc_later_def)

lemma alloc_later_trans: "alloc_later a b \<Longrightarrow> alloc_later b c \<Longrightarrow> alloc_later a c"
  by (auto simp: alloc_later_def)

text \<open>
  The possible effects: nothing, a new active allocation whose key is new, or an update that
  moves rows along.
\<close>

definition alloc_effect :: "db \<Rightarrow> db \<Rightarrow> bool" where
  "alloc_effect d d' \<longleftrightarrow> d' = d \<or>
     db_ok d' \<and> ((\<exists>a. d' = d\<lparr>relay_allocations := relay_allocations d @ [a]\<rparr> \<and> ra_state a = ''active'' \<and> ra_ended_at a = None) \<or>
       (\<exists>p f. d' = d\<lparr>relay_allocations := sql_update p f (relay_allocations d)\<rparr> \<and> (\<forall>a. p a \<longrightarrow> alloc_later a (f a))))"

lemma exec_logged_effect:
  assumes "\<And>d1. dn = Some d1 \<Longrightarrow> db_ok d1 \<Longrightarrow> alloc_effect d d1"
  shows "alloc_effect d (exec_logged E dn d)"
  using exec_logged_cases [of E dn d] assms by (auto simp: alloc_effect_def)

lemma alloc_effect_new:
  "db_ok (d\<lparr>relay_allocations := relay_allocations d @ [allocation_row E sid k]\<rparr>) \<Longrightarrow>
   alloc_effect d (d\<lparr>relay_allocations := relay_allocations d @ [allocation_row E sid k]\<rparr>)"
  unfolding alloc_effect_def by (intro disjI2 conjI disjI1 exI [of _ "allocation_row E sid k"]) (simp_all add: allocation_row_def)

lemma alloc_effect_update:
  "db_ok (d\<lparr>relay_allocations := sql_update p f (relay_allocations d)\<rparr>) \<Longrightarrow> (\<And>a. p a \<Longrightarrow> alloc_later a (f a)) \<Longrightarrow>
   alloc_effect d (d\<lparr>relay_allocations := sql_update p f (relay_allocations d)\<rparr>)"
  unfolding alloc_effect_def by blast

lemma handleStatus_effect: "alloc_effect d (handleStatus E realm sid alloc user payload d)"
proof -
  have "alloc_effect d d" by (simp add: alloc_effect_def)
  then show ?thesis
    unfolding handleStatus_def Let_def
    by (auto intro!: exec_logged_effect alloc_effect_new alloc_effect_update simp: alloc_later_def)
qed

lemma handleTotalTraffic_effect: "alloc_effect d (handleTotalTraffic E sid payload d)"
  unfolding handleTotalTraffic_def Let_def
  by (auto intro!: exec_logged_effect alloc_effect_update simp: alloc_later_def)

lemma handleMessage_effect: "alloc_effect d (handleMessage E ch payload d)"
  using handleStatus_effect handleTotalTraffic_effect
  by (auto simp: handleMessage_def Let_def alloc_effect_def [of d d] split: option.splits)

lemma handleMessage_ok [inv_pres]: "db_ok d \<Longrightarrow> db_ok (handleMessage E ch payload d)"
  using handleMessage_effect [of d E ch payload] by (auto simp: alloc_effect_def)

lemma alloc_effect_later:
  assumes "alloc_effect d d'" "a \<in> set (relay_allocations d)"
  shows "\<exists>b \<in> set (relay_allocations d'). alloc_later a b"
proof -
  from assms(1) consider (keep) "set (relay_allocations d) \<subseteq> set (relay_allocations d')"
    | (upd) p f where "relay_allocations d' = sql_update p f (relay_allocations d)" "\<forall>a. p a \<longrightarrow> alloc_later a (f a)"
    unfolding alloc_effect_def by fastforce
  then show ?thesis
  proof cases
    case keep
    then show ?thesis using assms(2) by (intro bexI [of _ a]) auto
  next
    case upd
    then show ?thesis using assms(2) by (intro bexI [of _ "if p a then f a else a"]) (auto simp: set_sql_update)
  qed
qed

inductive stats_step :: "db \<Rightarrow> db \<Rightarrow> bool" where
  message: "stats_step d (handleMessage E ch payload d)"

inductive_cases stats_stepE: "stats_step d d'"

definition grown_from :: "relay_allocation \<Rightarrow> db \<Rightarrow> bool" where
  "grown_from a d \<longleftrightarrow> db_ok d \<and> (\<exists>b \<in> set (relay_allocations d). alloc_later a b)"

lemma grown_from_step: "grown_from a d \<Longrightarrow> stats_step d d' \<Longrightarrow> grown_from a d'"
  by (auto simp: grown_from_def elim!: stats_stepE intro: handleMessage_ok)
    (metis alloc_effect_later alloc_later_trans handleMessage_effect)

interpretation allocations: invariant_system stats_step "grown_from a" for a
  by unfold_locales (rule grown_from_step)

lemma stats_Run_reach: "reach d0 stats_step d \<Longrightarrow> reach d0 stats_step (stats_Run ms d)"
  by (induction ms d rule: stats_Run.induct) (auto intro: reach_step stats_step.message)

text \<open>
  The ledger of relay usage is append-only and an allocation ends once: whatever messages the
  subscriber receives, in whatever order and with whatever failures, an allocation on record stays
  on record for the same session and key, and once it is closed its end never moves and it never
  becomes active again. The constraints of the schema hold throughout.
\<close>

theorem allocation_history:
  assumes "db_ok d" "a \<in> set (relay_allocations d)"
  shows "db_ok (stats_Run ms d) \<and>
    (\<exists>b \<in> set (relay_allocations (stats_Run ms d)).
       ra_id b = ra_id a \<and> ra_session b = ra_session a \<and> ra_key b = ra_key a \<and> ra_started_at b = ra_started_at a \<and>
       (ra_state a \<noteq> ''active'' \<longrightarrow> ra_state b = ra_state a \<and> ra_ended_at b = ra_ended_at a) \<and>
       (ra_state b \<noteq> ra_state a \<longrightarrow> ra_state b = ''closed'' \<and> ra_ended_at b \<noteq> None))"
proof -
  have "grown_from a d" unfolding grown_from_def using assms(1) by (blast intro: assms(2) alloc_later_refl)
  with allocations.reach_inv [OF stats_Run_reach [OF reach_start]] have "grown_from a (stats_Run ms d)" by blast
  then show ?thesis by (auto simp: grown_from_def alloc_later_def)
qed

definition sample_alloc :: relay_allocation where
  "sample_alloc = \<lparr>ra_id = ''a1'', ra_session = ''c1'', ra_key = ''r/3600:c1/01'', ra_transport = ''udp'', ra_state = ''active'',
     ra_bytes_up = 0, ra_bytes_down = 0, ra_started_at = 1, ra_ended_at = None, ra_updated_at = 1\<rparr>"

definition relayed :: db where
  "relayed = open_session\<lparr>relay_allocations := [sample_alloc]\<rparr>"

theorem allocation_history_witness:
  "\<exists>b. relay_allocations (stats_Run [(calm 9 [], ''turn/realm/r/user/3600:c1/allocation/02/status'', ''deleted''),
         (calm 10 [''a2''], ''turn/realm/r/user/3600:c1/allocation/01/status'', ''new lifetime=600'')] relayed) = [b] \<and>
     ra_state b = ''closed'' \<and> ra_ended_at b = Some 9 \<and> ra_id b = ra_id sample_alloc"
proof -
  let ?run = "stats_Run [(calm 9 [], ''turn/realm/r/user/3600:c1/allocation/02/status'', ''deleted''),
         (calm 10 [''a2''], ''turn/realm/r/user/3600:c1/allocation/01/status'', ''new lifetime=600'')] relayed"
  have f: "db_ok relayed" "sample_alloc \<in> set (relay_allocations relayed)"
    "length (relay_allocations ?run) = 1" "map ra_state (relay_allocations ?run) = [''closed'']"
    "map ra_ended_at (relay_allocations ?run) = [Some 9]" by code_simp+
  from f(3) obtain b where b: "relay_allocations ?run = [b]" by (auto simp: length_Suc_conv)
  from allocation_history [OF f(1,2)] have "\<exists>x \<in> set (relay_allocations ?run). ra_id x = ra_id sample_alloc" by blast
  with b f(4,5) show ?thesis by simp
qed

text \<open>
  C27. Relay usage is attributed to the session the credential was issued for: when coturn announces
  an allocation under a username that was handed out, a row for exactly that session is recorded.
\<close>

theorem allocation_attributed:
  assumes "handleRelayCredentials H E cl param w = (Reply 200 r, w')"
    and "path_part realm" "path_part allocID" "CHR ''/'' \<notin> set (TrimSpace param)"
    and "\<not> fails E' 0" "uuid_in E' = uuid_in E"
    and "gen_uuid E' 0 \<notin> ra_id ` set (relay_allocations (w_db w'))"
    and "alloc_key realm (re_Username r) allocID \<notin> ra_key ` set (relay_allocations (w_db w'))"
  shows "\<exists>c \<in> set (connect_sessions (w_db w)). uuid_in E (TrimSpace param) = Some (cs_id c) \<and>
    uuid_in E (claims_sub cl) = Some (cs_requester_user c) \<and>
    handleMessage E' (turn_channel realm (re_Username r) allocID ''status'') (''new '' @ rest) (w_db w') =
      (w_db w')\<lparr>relay_allocations := relay_allocations (w_db w') @
        [allocation_row E' (cs_id c) (alloc_key realm (re_Username r) allocID)]\<rparr>"
proof -
  let ?key = "alloc_key realm (re_Username r) allocID"
  from relay_effect [OF assms(1)] obtain c where c: "c \<in> set (connect_sessions (w_db w))"
    "uuid_in E (TrimSpace param) = Some (cs_id c)" "uuid_in E (claims_sub cl) = Some (cs_requester_user c)"
    "connect_sessions (w_db w') = connect_sessions (w_db w)" "db_ok (w_db w')"
    "re_Username r = relay_username (clock E + relayCredentialTTL * Second) (TrimSpace param)" by auto
  have t: "TrimSpace param \<noteq> []" using assms(1) by (auto simp: handleRelayCredentials_def Let_def split: if_splits)
  have u: "path_part (re_Username r)" "extractSessionID (re_Username r) = TrimSpace param"
    using assms(4) Itoa_no_slash by (simp_all add: c(6) extractSessionID_relay_username) (simp add: path_part_def relay_username_def)
  let ?d = "(w_db w')\<lparr>relay_allocations := relay_allocations (w_db w') @ [allocation_row E' (cs_id c) ?key]\<rparr>"
  have ok: "db_ok ?d"
    using c(1,4,5) assms(7,8)
    by (auto simp: db_ok_def relay_allocations_ok_def pk_distinct allocation_row_def refs_def list_ex_iff)
  have "\<not> list_ex (\<lambda>a. ra_key a = ?key) (relay_allocations (w_db w'))"
    using assms(8) by (force simp: list_ex_iff)
  then have "handleMessage E' (turn_channel realm (re_Username r) allocID ''status'') (''new '' @ rest) (w_db w') = ?d"
    using channelRe_turn_channel [OF assms(2) u(1) assms(3), of "''status''"] u(2) t assms(6) c(2)
      exec_logged_Some [OF assms(5) ok]
    by (simp add: handleMessage_def handleStatus_def Let_def)
  with c show ?thesis by blast
qed

theorem allocation_attributed_witness:
  "\<exists>r w'. handleRelayCredentials sample_handler (calm 9 []) sample_owner ''c1'' (sample_world open_session) = (Reply 200 r, w') \<and>
     map ra_session (relay_allocations (handleMessage (calm 10 [''a1'']) (turn_channel ''r'' (re_Username r) ''01'' ''status'')
       ''new lifetime=600'' (w_db w'))) = [''c1'']"
proof -
  let ?run = "handleRelayCredentials sample_handler (calm 9 []) sample_owner ''c1'' (sample_world open_session)"
  have f: "case fst ?run of Reply n r \<Rightarrow> n = 200 | _ \<Rightarrow> False" "relay_allocations (w_db (snd ?run)) = []"
    "path_part ''r''" "path_part ''01''" "CHR ''/'' \<notin> set (TrimSpace ''c1'')" "TrimSpace ''c1'' = ''c1''" by code_simp+
  have e: "\<not> fails (calm 10 [''a1'']) 0" "uuid_in (calm 10 [''a1'']) = uuid_in (calm 9 [])" by (simp_all add: calm_def)
  from f(1) obtain r w' where r: "?run = (Reply 200 r, w')" by (cases ?run) (auto split: response.splits)
  from allocation_attributed [OF r f(3-5) e, of "''lifetime=600''"] f(2,6) r
  have "map ra_session (relay_allocations (handleMessage (calm 10 [''a1'']) (turn_channel ''r'' (re_Username r) ''01'' ''status'')
       ''new lifetime=600'' (w_db w'))) = [''c1'']" by (auto simp: allocation_row_def)
  with r show ?thesis by (intro exI conjI)
qed

text \<open>
  The totals coturn reports are what is recorded: a \<open>total_traffic\<close> message in coturn's format
  puts exactly its received and sent byte counts, as far as they fit 64 bits, on the allocation of
  the session that started last, and on no other.
\<close>

theorem traffic_recorded:
  assumes "db_ok d" "path_part realm" "path_part allocID" "path_part username" "\<not> fails E 0"
    and "uuid_in E (extractSessionID username) = Some sid" "extractSessionID username \<noteq> []"
    and "int rb < 2 ^ 63" "int sb < 2 ^ 63"
  shows "relay_allocations (handleMessage E (turn_channel realm username allocID ''total_traffic'')
      (traffic_payload rp rb sp sb) d) =
    map (\<lambda>a. if latest_allocation sid (relay_allocations d) = Some (ra_id a)
             then a\<lparr>ra_bytes_up := int rb, ra_bytes_down := int sb, ra_updated_at := clock E\<rparr> else a)
      (relay_allocations d)"
proof -
  let ?f = "\<lambda>a. a\<lparr>ra_bytes_up := int rb, ra_bytes_down := int sb, ra_updated_at := clock E\<rparr>"
  let ?p = "\<lambda>a. Some (ra_id a) = latest_allocation sid (relay_allocations d)"
  have "db_ok (d\<lparr>relay_allocations := sql_update ?p ?f (relay_allocations d)\<rparr>)"
    by (rule db_ok_allocations_update [OF assms(1)]) (auto simp: relay_allocations_ok_def pk_distinct split: option.splits)
  from exec_logged_Some [OF assms(5) this] show ?thesis
    using channelRe_turn_channel [OF assms(2,4,3), of "''total_traffic''"] assms(6,7)
      parseTraffic_payload [OF assms(8,9), of rp sp]
    by (simp add: handleMessage_def handleTotalTraffic_def Let_def) (simp add: sql_update_def eq_commute)
qed

theorem traffic_recorded_witness:
  "map ra_bytes_up (relay_allocations (handleMessage (calm 9 []) (turn_channel ''r'' ''3600:c1'' ''01'' ''total_traffic'')
     (traffic_payload 1025 224660 1023 281136) relayed)) = [224660]"
proof -
  have f: "db_ok relayed" "path_part ''r''" "path_part ''01''" "path_part ''3600:c1''" "extractSessionID ''3600:c1'' = ''c1''"
    "relay_allocations relayed = [sample_alloc]" "latest_allocation ''c1'' (relay_allocations relayed) = Some (ra_id sample_alloc)"
    by code_simp+
  then show ?thesis
    using traffic_recorded [OF f(1-4), of "calm 9 []" "''c1''" 224660 281136 1025 1023] by simp
qed

text \<open>
  A \<open>deleted\<close> message closes every allocation of the session that is active, not only the one
  the channel names: the end of one allocation ends them all.
\<close>

theorem deleted_closes_session:
  assumes "db_ok d" "path_part realm" "path_part allocID" "path_part username" "\<not> fails E 0"
    and "uuid_in E (extractSessionID username) = Some sid" "extractSessionID username \<noteq> []"
    and "\<forall>a \<in> set (relay_allocations d). ra_started_at a \<le> clock E"
  shows "\<forall>a \<in> set (relay_allocations (handleMessage E (turn_channel realm username allocID ''status'') ''deleted'' d)).
    ra_session a = sid \<longrightarrow> ra_state a \<noteq> ''active''"
proof -
  let ?f = "\<lambda>a. a\<lparr>ra_state := ''closed'', ra_ended_at := Some (clock E), ra_updated_at := clock E\<rparr>"
  let ?p = "\<lambda>a. ra_session a = sid \<and> ra_state a = ''active''"
  let ?d = "d\<lparr>relay_allocations := sql_update ?p ?f (relay_allocations d)\<rparr>"
  have "db_ok ?d"
    using assms(8) by (intro db_ok_allocations_update [OF assms(1)]) (simp_all add: relay_allocations_ok_def pk_distinct)
  from exec_logged_Some [OF assms(5) this]
  have run: "handleMessage E (turn_channel realm username allocID ''status'') ''deleted'' d = ?d"
    using channelRe_turn_channel [OF assms(2,4,3), of "''status''"] assms(6,7)
    by (simp add: handleMessage_def handleStatus_def Let_def)
  show ?thesis unfolding run by (auto dest!: sql_update_in split: if_splits)
qed

theorem deleted_closes_session_witness:
  "list_all (\<lambda>a. ra_state a \<noteq> ''active'') (relay_allocations
     (handleMessage (calm 9 []) (turn_channel ''r'' ''3600:c1'' ''77'' ''status'') ''deleted'' relayed))"
proof -
  let ?run = "handleMessage (calm 9 []) (turn_channel ''r'' ''3600:c1'' ''77'' ''status'') ''deleted'' relayed"
  have f: "db_ok relayed" "path_part ''r''" "path_part ''77''" "path_part ''3600:c1''" "extractSessionID ''3600:c1'' = ''c1''"
    "relay_allocations relayed = [sample_alloc]" "ra_started_at sample_alloc = 1"
    "list_all (\<lambda>a. ra_session a = ''c1'') (relay_allocations ?run)"
    by code_simp+
  then show ?thesis
    using deleted_closes_session [OF f(1-4), of "calm 9 []" "''c1''"] by (simp add: list_all_iff)
qed

end
