(* ===== verification/Uoa_Sessions.thy ===== *)
theory Uoa_Sessions
  imports Middleware "HOL-Library.AList"
begin

text \<open>
  The relying-party sessions of \<open>internal/auth\<close> (\<open>uoa.go\<close>, \<open>uoa_transport.go\<close>, \<open>uoa_sessions.go\<close>,
  \<open>session_cache.go\<close>, \<open>session_validator.go\<close>, \<open>session_admission.go\<close>, \<open>session_maintenance.go\<close>,
  \<open>uoa_session_logout.go\<close>, \<open>broker_capability.go\<close>, \<open>development_session.go\<close>): what the server keeps
  of a login at the identity provider, UOA, and how it is rotated, revoked and checked on every
  request. The provider, AES-GCM and the parsers of the Go library are arguments.
\<close>

section \<open>The identity provider\<close>

record UOAClaims =
  uc_CapabilityFingerprint :: string
  uc_Picture :: string
  uc_Active :: "(string \<times> string) option"
  uc_SessionID :: string
  uc_RefreshToken :: string
  uc_RefreshExpiresIn :: int
  uc_ActiveOrgID :: string
  uc_ActiveTeamID :: string
  uc_Email :: string
  uc_DisplayName :: string
  uc_Name :: string
  uc_Subject :: string
  uc_ExpiresAt :: "time option"

definition no_claims :: UOAClaims where
  "no_claims = \<lparr>uc_CapabilityFingerprint = [], uc_Picture = [], uc_Active = None, uc_SessionID = [],
     uc_RefreshToken = [], uc_RefreshExpiresIn = 0, uc_ActiveOrgID = [], uc_ActiveTeamID = [], uc_Email = [],
     uc_DisplayName = [], uc_Name = [], uc_Subject = [], uc_ExpiresAt = None\<rparr>"

record tokenExchangeResponse =
  tx_AccessToken :: string
  tx_RefreshToken :: string
  tx_ExpiresIn :: int
  tx_RefreshTokenExpiresIn :: int

record uoa_user =
  uu_ID :: string
  uu_Email :: string
  uu_Name :: string
  uu_AvatarURL :: string

record brokerValidation =
  bv_Sub :: string
  bv_ExpiresAt :: time
  bv_OrgID :: string
  bv_TeamID :: string

text \<open>
  What lies outside: URL parsing (\<open>url_host\<close> is the host name of a URL, \<open>url_ok\<close> says whether a
  request can be built for one), the provider's endpoints, each with the bearer token and the
  payload (\<^const>\<open>None\<close> when the exchange fails, otherwise the status and the decoded body), the
  unverified reading of a token, AES-GCM (key, nonce, plain text or cipher text, additional data),
  and the key a Go map iteration happens to visit first.
\<close>

type_synonym 'a answer = "(nat \<times> 'a option) option"

record uoa =
  url_host :: "string \<Rightarrow> string option"
  url_ok :: "string \<Rightarrow> bool"
  post_token :: "string \<Rightarrow> (string \<times> string) list \<Rightarrow> tokenExchangeResponse answer"
  get_users :: "string \<Rightarrow> string \<Rightarrow> string \<Rightarrow> uoa_user list answer"
  post_validate :: "string \<Rightarrow> string \<Rightarrow> brokerValidation answer"
  post_revoke :: "string \<Rightarrow> string \<Rightarrow> unit answer"
  post_debug_issue :: "string \<Rightarrow> (string \<times> string) list \<Rightarrow> (string \<times> int) answer"
  post_debug_redeem :: "string \<Rightarrow> string \<Rightarrow> tokenExchangeResponse answer"
  jwt_unverified :: "string \<Rightarrow> UOAClaims option"
  gcm_seal :: "string \<Rightarrow> string \<Rightarrow> string \<Rightarrow> string \<Rightarrow> string"
  gcm_open :: "string \<Rightarrow> string \<Rightarrow> string \<Rightarrow> string \<Rightarrow> string option"
  map_pick :: "string list \<Rightarrow> string"

datatype uoa_error = UOARefused | UOAUnavailable

definition uoaConfigDomain :: "uoa \<Rightarrow> Config \<Rightarrow> string option" where
  "uoaConfigDomain U cfg =
     (let configURL = TrimSpace (UOAConfigURL cfg) in
      if configURL \<noteq> [] then
        (case url_host U configURL of None \<Rightarrow> None
         | Some h \<Rightarrow> let host = TrimSpace h in if host = [] then None else Some host)
      else let domain = TrimSpace (UOADomain cfg) in if domain = [] then None else Some domain)"

definition uoaAuthorizationToken :: "crypto \<Rightarrow> string \<Rightarrow> string \<Rightarrow> string" where
  "uoaAuthorizationToken C domain secret = hex_bytes (sha256 C (domain @ secret))"

definition checkUOAStatus :: "nat \<Rightarrow> uoa_error option" where
  "checkUOAStatus status =
     (if 200 \<le> status \<and> status < 300 then None
      else if status \<in> {400, 401, 403, 409, 410} then Some UOARefused else Some UOAUnavailable)"

definition TrimRightSlash :: "string \<Rightarrow> string" where
  "TrimRightSlash s = rev (dropWhile (\<lambda>c. c = CHR ''/'') (rev s))"

definition uoaRequest :: "'r handler \<Rightarrow> uoa \<Rightarrow> string \<Rightarrow> (string \<Rightarrow> 'a answer) \<Rightarrow> uoa_error + 'a" where
  "uoaRequest H U path send =
     (case uoaConfigDomain U (h_cfg H) of None \<Rightarrow> Inl UOAUnavailable
      | Some domain \<Rightarrow>
          if \<not> url_ok U (TrimRightSlash (UOABaseURL (h_cfg H)) @ path) then Inl UOAUnavailable
          else (case send (''Bearer '' @ uoaAuthorizationToken (h_crypto H) domain (UOASharedSecret (h_cfg H))) of
                  None \<Rightarrow> Inl UOAUnavailable
                | Some (status, body) \<Rightarrow>
                    (case checkUOAStatus status of Some e \<Rightarrow> Inl e
                     | None \<Rightarrow> (case body of None \<Rightarrow> Inl UOAUnavailable | Some b \<Rightarrow> Inr b))))"

definition exchangeUOATokens :: "'r handler \<Rightarrow> uoa \<Rightarrow> (string \<times> string) list \<Rightarrow> uoa_error + tokenExchangeResponse" where
  "exchangeUOATokens H U body =
     (case uoaRequest H U ''/auth/token'' (\<lambda>b. post_token U b body) of Inl e \<Rightarrow> Inl e
      | Inr tokens \<Rightarrow> if tx_AccessToken tokens = [] then Inl UOAUnavailable else Inr tokens)"

definition decodeUOAToken :: "uoa \<Rightarrow> time \<Rightarrow> string \<Rightarrow> UOAClaims option" where
  "decodeUOAToken U now tokenString =
     (case jwt_unverified U tokenString of None \<Rightarrow> None
      | Some claims \<Rightarrow>
          if TrimSpace (uc_Subject claims) = [] then None
          else (case uc_ExpiresAt claims of None \<Rightarrow> None
                | Some exp \<Rightarrow>
                    if \<not> now < exp then None
                    else Some (case uc_Active claims of None \<Rightarrow> claims
                      | Some (org, team) \<Rightarrow> claims\<lparr>uc_ActiveOrgID := org, uc_ActiveTeamID := team\<rparr>)))"

definition ExchangeCode :: "'r handler \<Rightarrow> uoa \<Rightarrow> time \<Rightarrow> string \<Rightarrow> string \<Rightarrow> string \<Rightarrow> UOAClaims option" where
  "ExchangeCode H U now code redirectURL codeVerifier =
     (if TrimSpace code = [] then None
      else (case exchangeUOATokens H U [(''code'', code), (''redirect_url'', redirectURL), (''code_verifier'', codeVerifier)] of
              Inl e \<Rightarrow> None
            | Inr tokens \<Rightarrow>
                (case decodeUOAToken U now (tx_AccessToken tokens) of None \<Rightarrow> None
                 | Some c \<Rightarrow>
                     let claims = c\<lparr>uc_RefreshToken := tx_RefreshToken tokens,
                           uc_RefreshExpiresIn := tx_RefreshTokenExpiresIn tokens,
                           uc_DisplayName := (if uc_DisplayName c = [] then uc_Name c else uc_DisplayName c)\<rparr> in
                     Some (case uc_Active claims of None \<Rightarrow> claims
                       | Some (org, team) \<Rightarrow> claims\<lparr>uc_ActiveOrgID := org, uc_ActiveTeamID := team\<rparr>))))"

definition currentUOAProfile :: "'r handler \<Rightarrow> uoa \<Rightarrow> string \<Rightarrow> UOAClaims option" where
  "currentUOAProfile H U subject =
     (case uoaConfigDomain U (h_cfg H) of None \<Rightarrow> None
      | Some domain \<Rightarrow>
          (case uoaRequest H U ''/domain/users'' (\<lambda>b. get_users U b domain subject) of
             Inr [u] \<Rightarrow> if uu_ID u \<noteq> subject then None
               else Some (no_claims\<lparr>uc_Email := uu_Email u, uc_DisplayName := uu_Name u,
                 uc_Picture := uu_AvatarURL u, uc_Subject := subject\<rparr>)
           | _ \<Rightarrow> None))"

section \<open>Sealing\<close>

definition NonceSize :: nat where "NonceSize = 12"

definition seal_key :: "'r handler \<Rightarrow> string" where
  "seal_key H = sha256 (h_crypto H) (''selkie-uoa-refresh-v1:'' @ InternalSessionSecret (h_cfg H))"

definition seal :: "'r handler \<Rightarrow> uoa \<Rightarrow> nat \<Rightarrow> string \<Rightarrow> string option" where
  "seal H U i refresh =
     (case rand_bytes (h_crypto H) i of None \<Rightarrow> None
      | Some bs \<Rightarrow> let nonce = bytes_string (take NonceSize bs) in
          Some (nonce @ gcm_seal U (seal_key H) nonce refresh (UOAConfigURL (h_cfg H))))"

definition unseal :: "'r handler \<Rightarrow> uoa \<Rightarrow> string \<Rightarrow> string option" where
  "unseal H U sealed =
     (if length sealed < NonceSize then None
      else gcm_open U (seal_key H) (take NonceSize sealed) (drop NonceSize sealed) (UOAConfigURL (h_cfg H)))"

definition gcm_laws :: "uoa \<Rightarrow> bool" where
  "gcm_laws U \<longleftrightarrow> (\<forall>k n p a. length n = NonceSize \<longrightarrow> gcm_open U k n (gcm_seal U k n p a) a = Some p)"

lemma unseal_seal:
  assumes "gcm_laws U" "\<And>bs. rand_bytes (h_crypto H) i = Some bs \<Longrightarrow> NonceSize \<le> length bs" "seal H U i p = Some s"
  shows "unseal H U s = Some p"
proof -
  obtain bs where b: "rand_bytes (h_crypto H) i = Some bs"
    "s = bytes_string (take NonceSize bs) @ gcm_seal U (seal_key H) (bytes_string (take NonceSize bs)) p (UOAConfigURL (h_cfg H))"
    using assms(3) by (auto simp: seal_def Let_def split: option.splits)
  have "length (bytes_string (take NonceSize bs)) = NonceSize" using assms(2) [OF b(1)] by (simp add: bytes_string_def)
  with b assms(1) show ?thesis by (auto simp: unseal_def gcm_laws_def)
qed

section \<open>The cache\<close>

definition maxSessionCacheEntries :: nat where "maxSessionCacheEntries = 1024"

record sessionCacheEntry =
  ce_fingerprint :: string
  ce_expires :: time
  ce_claims :: UOAClaims

record sessionCache =
  entries :: "(string \<times> sessionCacheEntry) list"
  flights :: "string list"

definition capabilityFingerprint :: "crypto \<Rightarrow> string \<Rightarrow> string" where
  "capabilityFingerprint C sealed = hex_bytes (sha256 C sealed)"

text \<open>
  \<open>acquire\<close>: a call that finds the session in flight waits; it leaves the loop when the flight
  ends, which is to acquire later, or when its context does, the only case that is an answer here.
\<close>

definition cache_acquire :: "string \<Rightarrow> sessionCache \<Rightarrow> sessionCache option" where
  "cache_acquire i c =
     (if i \<in> set (flights c) \<or> maxSessionCacheEntries \<le> length (flights c) then None
      else Some (c\<lparr>flights := i # flights c\<rparr>))"

definition cache_release :: "string \<Rightarrow> sessionCache \<Rightarrow> sessionCache" where
  "cache_release i c = c\<lparr>flights := filter (\<lambda>j. j \<noteq> i) (flights c)\<rparr>"

definition cache_get :: "time \<Rightarrow> string \<Rightarrow> string \<Rightarrow> sessionCache \<Rightarrow> UOAClaims option \<times> sessionCache" where
  "cache_get now i fingerprint c =
     (case map_of (entries c) i of
        Some e \<Rightarrow>
          if ce_fingerprint e \<noteq> fingerprint \<or> \<not> now < ce_expires e
          then (None, c\<lparr>entries := AList.delete i (entries c)\<rparr>) else (Some (ce_claims e), c)
      | None \<Rightarrow> (None, c))"

definition cache_put :: "uoa \<Rightarrow> time \<Rightarrow> string \<Rightarrow> UOAClaims \<Rightarrow> sessionCache \<Rightarrow> sessionCache" where
  "cache_put U now i claims c =
     (case uc_ExpiresAt claims of None \<Rightarrow> c
      | Some exp \<Rightarrow>
          if \<not> now < exp then c
          else let expiry = min exp (now + 30 * Second);
                   kept = (if maxSessionCacheEntries \<le> length (entries c)
                           then AList.delete (map_pick U (map fst (entries c))) (entries c) else entries c) in
            c\<lparr>entries := AList.update i \<lparr>ce_fingerprint = uc_CapabilityFingerprint claims, ce_expires = expiry,
                 ce_claims = claims\<rparr> kept\<rparr>)"

section \<open>State and atomic steps\<close>

text \<open>
  The session manager works on the database, its cache and, as a ghost, the refresh tokens whose
  family the provider has confirmed as revoked. Requests run concurrently; every statement or
  transaction is one atomic step, since the row is locked. A function that makes several steps
  takes what the others do at each of its points of interleaving as an argument.
\<close>

record sso =
  so_db :: db
  so_cache :: sessionCache
  so_revoked :: "string list"

type_synonym others = "nat \<Rightarrow> sso \<Rightarrow> sso"

definition wrap64 :: "int \<Rightarrow> int" where
  "wrap64 x = (x + 2 ^ 63) mod 2 ^ 64 - 2 ^ 63"

text \<open>\<open>time.Now().Add(time.Duration(n) * time.Second)\<close>: the product wraps at 64 bits.\<close>

definition after_seconds :: "time \<Rightarrow> int \<Rightarrow> time" where
  "after_seconds now n = now + wrap64 (n * Second)"

definition NULLIF :: "string \<Rightarrow> string option" where
  "NULLIF s = (if s = [] then None else Some s)"

definition uoa_row :: "env \<Rightarrow> string option \<Rightarrow> string \<Rightarrow> string \<Rightarrow> string \<Rightarrow> string \<Rightarrow> string \<Rightarrow> time \<Rightarrow> bool \<Rightarrow> time \<Rightarrow>
    uoa_session" where
  "uoa_row E user subject org team sealed kind expires closing cleanup =
     \<lparr>us_id = gen_uuid E 0, us_user_id = user, us_subject = subject, us_organization_id = NULLIF org,
      us_team_id = NULLIF team, us_sealed = sealed, us_kind = kind, us_expires_at = expires,
      us_closing = closing, us_cleanup_after = cleanup, us_created_at = clock E\<rparr>"

definition insert_session :: "env \<Rightarrow> nat \<Rightarrow> uoa_session \<Rightarrow> db \<Rightarrow> (string \<times> db) option" where
  "insert_session E i row d =
     map_option (\<lambda>d'. (us_id row, d')) (statement (fails E i) (d\<lparr>uoa_sessions := uoa_sessions d @ [row]\<rparr>))"

definition update_sessions :: "(uoa_session \<Rightarrow> bool) \<Rightarrow> (uoa_session \<Rightarrow> uoa_session) \<Rightarrow> db \<Rightarrow> db" where
  "update_sessions p f d = d\<lparr>uoa_sessions := sql_update p f (uoa_sessions d)\<rparr>"

text \<open>\<open>DELETE FROM uoa_sessions\<close>: the handoff codes of the session go with it.\<close>

definition delete_sessions :: "(uoa_session \<Rightarrow> bool) \<Rightarrow> db \<Rightarrow> db" where
  "delete_sessions p d =
     d\<lparr>uoa_sessions := filter (\<lambda>r. \<not> p r) (uoa_sessions d),
       handoff_codes := filter (\<lambda>h. \<not> list_ex (\<lambda>r. p r \<and> hc_session_id h = Some (us_id r)) (uoa_sessions d)) (handoff_codes d)\<rparr>"

definition session_by :: "(uoa_session \<Rightarrow> bool) \<Rightarrow> db \<Rightarrow> uoa_session option" where
  "session_by p d = List.find p (uoa_sessions d)"

section \<open>Creating sessions\<close>

definition capabilityRefresh :: string where "capabilityRefresh = ''refresh''"

definition sm_create :: "'r handler \<Rightarrow> uoa \<Rightarrow> env \<Rightarrow> string \<Rightarrow> UOAClaims \<Rightarrow> sso \<Rightarrow> string option \<times> sso" where
  "sm_create H U E userID claims s =
     (if uc_RefreshToken claims = [] \<or> uc_RefreshExpiresIn claims \<le> 0 then (None, s)
      else (case (seal H U 0 (uc_RefreshToken claims), uuid_in E userID) of
              (Some sealed, Some u) \<Rightarrow>
                (case insert_session E 0 (uoa_row E (Some u) (uc_Subject claims) (uc_ActiveOrgID claims)
                    (uc_ActiveTeamID claims) sealed capabilityRefresh (after_seconds (clock E) (uc_RefreshExpiresIn claims))
                    False (clock E)) (so_db s) of
                   None \<Rightarrow> (None, s) | Some (i, d) \<Rightarrow> (Some i, s\<lparr>so_db := d\<rparr>))
            | _ \<Rightarrow> (None, s)))"

definition stage :: "'r handler \<Rightarrow> uoa \<Rightarrow> env \<Rightarrow> UOAClaims \<Rightarrow> sso \<Rightarrow> string option \<times> sso" where
  "stage H U E claims s =
     (if uc_RefreshToken claims = [] \<or> uc_RefreshExpiresIn claims \<le> 0 then (None, s)
      else (case seal H U 0 (uc_RefreshToken claims) of None \<Rightarrow> (None, s)
            | Some sealed \<Rightarrow>
                (case insert_session E 0 (uoa_row E None (uc_Subject claims) (uc_ActiveOrgID claims)
                    (uc_ActiveTeamID claims) sealed capabilityRefresh (after_seconds (clock E) (uc_RefreshExpiresIn claims))
                    True (clock E + 30 * Second)) (so_db s) of
                   None \<Rightarrow> (None, s) | Some (i, d) \<Rightarrow> (Some i, s\<lparr>so_db := d\<rparr>))))"

definition createBroker :: "'r handler \<Rightarrow> uoa \<Rightarrow> env \<Rightarrow> nat \<Rightarrow> string \<Rightarrow> string \<Rightarrow> brokerValidation \<Rightarrow> sso \<Rightarrow> string option \<times> sso" where
  "createBroker H U E i userID capability v s =
     (case (seal H U 0 capability, uuid_in E userID) of
        (Some sealed, Some u) \<Rightarrow>
          (case insert_session E i (uoa_row E (Some u) (bv_Sub v) (bv_OrgID v) (bv_TeamID v) sealed ''broker''
              (bv_ExpiresAt v) False (clock E)) (so_db s) of
             None \<Rightarrow> (None, s) | Some (sid, d) \<Rightarrow> (Some sid, s\<lparr>so_db := d\<rparr>))
      | _ \<Rightarrow> (None, s))"

definition DevUserExternalID :: string where "DevUserExternalID = ''dev-agent-smith''"
definition DevUserEmail :: string where "DevUserEmail = ''agent.smith@dev.local''"
definition DevUserDisplayName :: string where "DevUserDisplayName = ''Agent Smith''"
definition DevUserPicture :: string where
  "DevUserPicture = ''https://api.dicebear.com/9.x/bottts/svg?seed=AgentSmith''"

definition createDevelopment :: "'r handler \<Rightarrow> uoa \<Rightarrow> env \<Rightarrow> nat \<Rightarrow> string \<Rightarrow> sso \<Rightarrow> string option \<times> sso" where
  "createDevelopment H U E i userID s =
     (if \<not> DevMode (h_cfg H) \<or> UOAConfigURL (h_cfg H) \<noteq> [] then (None, s)
      else (case (seal H U 0 ''development-only'', uuid_in E userID) of
              (Some sealed, Some u) \<Rightarrow>
                (case insert_session E i (uoa_row E (Some u) DevUserExternalID [] [] sealed ''development''
                    (clock E + sessionTokenTTL) False (clock E)) (so_db s) of
                   None \<Rightarrow> (None, s) | Some (sid, d) \<Rightarrow> (Some sid, s\<lparr>so_db := d\<rparr>))
            | _ \<Rightarrow> (None, s)))"

section \<open>Resolving a session\<close>

definition resolveDevelopment :: "'r handler \<Rightarrow> env \<Rightarrow> string \<Rightarrow> session_error + UOAClaims" where
  "resolveDevelopment H E subject =
     (if \<not> DevMode (h_cfg H) \<or> UOAConfigURL (h_cfg H) \<noteq> [] then Inl SessionExpired
      else if fails E 3 then Inl SessionUnavailable
      else Inr (no_claims\<lparr>uc_Email := DevUserEmail, uc_DisplayName := DevUserDisplayName,
        uc_Picture := DevUserPicture, uc_Subject := subject\<rparr>))"

definition validateBrokerCapability :: "'r handler \<Rightarrow> uoa \<Rightarrow> time \<Rightarrow> string \<Rightarrow> uoa_error + brokerValidation" where
  "validateBrokerCapability H U now capability =
     (if capability = [] \<or> 8192 < length capability then Inl UOAUnavailable
      else (case uoaRequest H U ''/auth/session-broker/validate'' (\<lambda>b. post_validate U b capability) of
              Inl e \<Rightarrow> Inl e
            | Inr v \<Rightarrow>
                if bv_Sub v = [] \<or> \<not> now < bv_ExpiresAt v \<or> now + (5 * Minute + 30 * Second) < bv_ExpiresAt v
                then Inl UOAUnavailable else Inr v))"

definition resolveBroker :: "'r handler \<Rightarrow> uoa \<Rightarrow> env \<Rightarrow> string \<Rightarrow> string \<Rightarrow> session_error + UOAClaims" where
  "resolveBroker H U E sealed subject =
     (case unseal H U sealed of None \<Rightarrow> Inl SessionUnavailable
      | Some capability \<Rightarrow>
          (case validateBrokerCapability H U (clock E) capability of Inl e \<Rightarrow> Inl SessionUnavailable
           | Inr v \<Rightarrow>
               if bv_Sub v \<noteq> subject \<or> fails E 3 then Inl SessionUnavailable
               else Inr (no_claims\<lparr>uc_ActiveOrgID := bv_OrgID v, uc_ActiveTeamID := bv_TeamID v,
                 uc_Subject := subject\<rparr>)))"

definition rotate_session :: "'r handler \<Rightarrow> uoa \<Rightarrow> env \<Rightarrow> string \<Rightarrow> string \<Rightarrow> string \<Rightarrow> sso \<Rightarrow> (session_error + UOAClaims) \<times> sso" where
  "rotate_session H U E i sealed subject s =
     (case unseal H U sealed of None \<Rightarrow> (Inl SessionUnavailable, s)
      | Some refresh \<Rightarrow>
          (case exchangeUOATokens H U [(''refresh_token'', refresh), (''grant_type'', ''refresh_token'')] of
             Inl e \<Rightarrow> (Inl SessionUnavailable, s)
           | Inr tokens \<Rightarrow>
               (case decodeUOAToken U (clock E) (tx_AccessToken tokens) of None \<Rightarrow> (Inl SessionUnavailable, s)
                | Some claims \<Rightarrow>
                    if uc_Subject claims \<noteq> subject \<or> tx_RefreshToken tokens = [] \<or> tx_RefreshTokenExpiresIn tokens \<le> 0
                    then (Inl SessionUnavailable, s)
                    else (case seal H U 0 (tx_RefreshToken tokens) of None \<Rightarrow> (Inl SessionUnavailable, s)
                      | Some sealed' \<Rightarrow>
                          (case statement (fails E 2 \<or> fails E 3) (update_sessions (\<lambda>r. us_id r = i)
                              (\<lambda>r. r\<lparr>us_sealed := sealed', us_organization_id := NULLIF (uc_ActiveOrgID claims),
                                us_team_id := NULLIF (uc_ActiveTeamID claims),
                                us_expires_at := after_seconds (clock E) (tx_RefreshTokenExpiresIn tokens)\<rparr>) (so_db s)) of
                             None \<Rightarrow> (Inl SessionUnavailable, s)
                           | Some d \<Rightarrow>
                               (Inr (claims\<lparr>uc_CapabilityFingerprint := capabilityFingerprint (h_crypto H) sealed'\<rparr>),
                                s\<lparr>so_db := d\<rparr>))))))"

definition profileForSession :: "'r handler \<Rightarrow> uoa \<Rightarrow> env \<Rightarrow> string \<Rightarrow> UOAClaims \<Rightarrow> db \<Rightarrow> session_error + UOAClaims" where
  "profileForSession H U E i claims d =
     (case (if \<not> DevMode (h_cfg H) \<or> UOAConfigURL (h_cfg H) \<noteq> [] then
              map_option (\<lambda>p. claims\<lparr>uc_Email := uc_Email p, uc_DisplayName := uc_DisplayName p,
                uc_Picture := uc_Picture p\<rparr>) (currentUOAProfile H U (uc_Subject claims))
            else Some claims) of
        None \<Rightarrow> Inl SessionUnavailable
      | Some claims' \<Rightarrow>
          (case (if fails E 4 then None
                 else session_by (\<lambda>r. us_id r = i \<and> \<not> us_closing r \<and> clock E < us_expires_at r) d) of
             None \<Rightarrow> Inl SessionUnavailable
           | Some r \<Rightarrow>
               if uc_CapabilityFingerprint claims' \<noteq> [] \<and>
                  uc_CapabilityFingerprint claims' \<noteq> capabilityFingerprint (h_crypto H) (us_sealed r)
               then Inl SessionUnavailable else Inr claims'))"

text \<open>The row the first query of \<open>resolveLocked\<close> finds: the session of an active user, not expired.\<close>

definition live_row :: "time \<Rightarrow> string \<Rightarrow> string \<Rightarrow> db \<Rightarrow> uoa_session \<Rightarrow> bool" where
  "live_row now i userID d r \<longleftrightarrow> us_id r = i \<and> us_user_id r = Some userID \<and> now < us_expires_at r \<and>
     list_ex (\<lambda>u. u_id u = userID \<and> u_status u = ''active'') (users d)"

definition super_user :: "string \<Rightarrow> db \<Rightarrow> bool" where
  "super_user userID d = list_ex (\<lambda>u. u_id u = userID \<and> u_is_super u) (users d)"

definition resolveLocked :: "'r handler \<Rightarrow> uoa \<Rightarrow> env \<Rightarrow> others \<Rightarrow> string \<Rightarrow> string \<Rightarrow> sso \<Rightarrow>
    (session_error + UOAClaims \<times> bool) \<times> sso" where
  "resolveLocked H U E oth i userID s =
     (if i = [] then (Inl SessionExpired, s)
      else if fails E 0 \<or> fails E 1 then (Inl SessionUnavailable, s)
      else (case session_by (live_row (clock E) i userID (so_db s)) (so_db s) of None \<Rightarrow> (Inl SessionExpired, s)
        | Some r \<Rightarrow>
            let isSuper = super_user userID (so_db s) in
            if us_closing r then (Inl SessionClosing, s)
            else (case (if us_kind r = capabilityRefresh
                        then cache_get (clock E) i (capabilityFingerprint (h_crypto H) (us_sealed r)) (so_cache s)
                        else (None, so_cache s)) of
              (Some cached, c) \<Rightarrow> (Inr (cached, isSuper), s\<lparr>so_cache := c\<rparr>)
            | (None, c) \<Rightarrow>
                let s1 = s\<lparr>so_cache := c\<rparr> in
                (case (if us_kind r = ''development'' then (resolveDevelopment H E (us_subject r), s1)
                       else if us_kind r = ''broker'' then (resolveBroker H U E (us_sealed r) (us_subject r), s1)
                       else if us_kind r = capabilityRefresh then rotate_session H U E i (us_sealed r) (us_subject r) s1
                       else (Inl SessionExpired, s1)) of
                   (Inl e, s2) \<Rightarrow> (Inl e, s2)
                 | (Inr claims, s2) \<Rightarrow>
                     let s3 = oth 0 s2 in
                     (case profileForSession H U E i claims (so_db s3) of Inl e \<Rightarrow> (Inl e, s3)
                      | Inr profile \<Rightarrow>
                          (Inr (profile, isSuper),
                           if us_kind r = capabilityRefresh
                           then s3\<lparr>so_cache := cache_put U (clock E) i profile (so_cache s3)\<rparr> else s3))))))"

definition resolve :: "'r handler \<Rightarrow> uoa \<Rightarrow> env \<Rightarrow> others \<Rightarrow> string \<Rightarrow> string \<Rightarrow> sso \<Rightarrow>
    (session_error + UOAClaims \<times> bool) \<times> sso" where
  "resolve H U E oth i userID s =
     (case cache_acquire i (so_cache s) of None \<Rightarrow> (Inl SessionUnavailable, s)
      | Some c \<Rightarrow>
          (case resolveLocked H U E oth i userID (s\<lparr>so_cache := c\<rparr>) of
             (res, s1) \<Rightarrow> (res, s1\<lparr>so_cache := cache_release i (so_cache s1)\<rparr>)))"

definition sm_Validate :: "'r handler \<Rightarrow> uoa \<Rightarrow> env \<Rightarrow> others \<Rightarrow> Claims \<Rightarrow> sso \<Rightarrow> (session_error + Claims) \<times> sso" where
  "sm_Validate H U E oth claims s =
     (if CapabilityKind claims = RafikiDirectCapability
      then (validateRafikiDirect E 0 (h_cfg H) claims (so_db s), s)
      else if CapabilityKind claims \<noteq> [] \<or> DirectHomeID claims \<noteq> [] then (Inl SessionExpired, s)
      else (case resolve H U E oth (SessionID claims) (Sub claims) s of
              (Inl e, s1) \<Rightarrow> (Inl e, s1)
            | (Inr (p, isSuper), s1) \<Rightarrow> (Inr (claims\<lparr>IsSuper := isSuper\<rparr>), s1)))"

section \<open>Ending a session\<close>

definition revoke_family :: "'r handler \<Rightarrow> uoa \<Rightarrow> string \<Rightarrow> sso \<Rightarrow> bool \<times> sso" where
  "revoke_family H U refresh s =
     (case uoaRequest H U ''/auth/revoke'' (\<lambda>b. post_revoke U b refresh) of
        Inl e \<Rightarrow> (False, s) | Inr u \<Rightarrow> (True, s\<lparr>so_revoked := refresh # so_revoked s\<rparr>))"

text \<open>\<open>cleanupOne\<close>: one transaction that holds the row. The result says whether it is without error.\<close>

definition cleanupOne :: "'r handler \<Rightarrow> uoa \<Rightarrow> env \<Rightarrow> string \<Rightarrow> sso \<Rightarrow> bool \<times> sso" where
  "cleanupOne H U E i s =
     (if fails E 0 \<or> fails E 1 then (False, s)
      else (case session_by (\<lambda>r. us_id r = i \<and> us_closing r \<and> us_cleanup_after r \<le> clock E) (so_db s) of
              None \<Rightarrow> (True, s)
            | Some r \<Rightarrow>
                (case unseal H U (us_sealed r) of None \<Rightarrow> (False, s)
                 | Some capability \<Rightarrow>
                     (case (if us_kind r = capabilityRefresh then revoke_family H U capability s else (True, s)) of
                        (False, s1) \<Rightarrow> (False, s1)
                      | (True, s1) \<Rightarrow>
                          (case statement (fails E 2 \<or> fails E 3)
                              (delete_sessions (\<lambda>q. us_id q = i \<and> us_closing q) (so_db s1)) of
                             None \<Rightarrow> (False, s1)
                           | Some d \<Rightarrow> (True, s1\<lparr>so_db := d\<rparr>))))))"

definition schedule :: "env \<Rightarrow> nat \<Rightarrow> string \<Rightarrow> time \<Rightarrow> sso \<Rightarrow> bool \<times> sso" where
  "schedule E n i t s =
     (case statement (fails E n) (update_sessions (\<lambda>r. us_id r = i \<and> us_closing r)
         (\<lambda>r. r\<lparr>us_cleanup_after := t\<rparr>) (so_db s)) of
        None \<Rightarrow> (False, s) | Some d \<Rightarrow> (True, s\<lparr>so_db := d\<rparr>))"

text \<open>
  \<open>RetryCleanup\<close>: the sessions due, the oldest twenty, each in its own environment. \<open>gone\<close> says
  whether the deadline of the sweep has passed after a failed attempt. The result is the first
  error, if any.
\<close>

definition due :: "time \<Rightarrow> db \<Rightarrow> string list" where
  "due now d = map us_id (take 20 (sort_key us_created_at
     (filter (\<lambda>r. us_closing r \<and> us_cleanup_after r \<le> now) (uoa_sessions d))))"

fun sweep :: "'r handler \<Rightarrow> uoa \<Rightarrow> (string \<Rightarrow> env) \<Rightarrow> (string \<Rightarrow> bool) \<Rightarrow> string list \<Rightarrow> bool \<Rightarrow> sso \<Rightarrow> bool \<times> sso" where
  "sweep H U Es gone [] ok s = (ok, s)"
| "sweep H U Es gone (i # ids) ok s =
     (case cleanupOne H U (Es i) i s of
        (True, s1) \<Rightarrow> sweep H U Es gone ids ok s1
      | (False, s1) \<Rightarrow>
          if gone i then (False, s1)
          else (case schedule (Es i) 4 i (clock (Es i) + 2 * Minute) s1 of
                  (False, s2) \<Rightarrow> (False, s2)
                | (True, s2) \<Rightarrow> sweep H U Es gone ids False s2))"

definition RetryCleanup :: "'r handler \<Rightarrow> uoa \<Rightarrow> env \<Rightarrow> (string \<Rightarrow> env) \<Rightarrow> (string \<Rightarrow> bool) \<Rightarrow> sso \<Rightarrow> bool \<times> sso" where
  "RetryCleanup H U E Es gone s =
     (if fails E 0 then (False, s) else sweep H U Es gone (due (clock E) (so_db s)) True s)"

text \<open>The first transaction of \<open>logout\<close>: the capability and its kind, when there is a session to end.\<close>

definition logout_close :: "'r handler \<Rightarrow> uoa \<Rightarrow> env \<Rightarrow> string \<Rightarrow> string \<Rightarrow> sso \<Rightarrow> (bool + string \<times> string) \<times> sso" where
  "logout_close H U E i userID s =
     (if fails E 0 \<or> fails E 1 then (Inl False, s)
      else (case session_by (\<lambda>r. us_id r = i \<and> us_user_id r = Some userID) (so_db s) of
              None \<Rightarrow> (Inl True, s)
            | Some r \<Rightarrow>
                (case unseal H U (us_sealed r) of None \<Rightarrow> (Inl False, s)
                 | Some refresh \<Rightarrow>
                     (case statement (fails E 2 \<or> fails E 3) (update_sessions (\<lambda>q. us_id q = i)
                         (\<lambda>q. q\<lparr>us_closing := True, us_cleanup_after := clock E\<rparr>) (so_db s)) of
                        None \<Rightarrow> (Inl False, s)
                      | Some d \<Rightarrow> (Inr (refresh, us_kind r), s\<lparr>so_db := d\<rparr>)))))"

definition logout_delete :: "env \<Rightarrow> string \<Rightarrow> string \<Rightarrow> sso \<Rightarrow> bool \<times> sso" where
  "logout_delete E i userID s =
     (case statement (fails E 4)
         (delete_sessions (\<lambda>q. us_id q = i \<and> us_user_id q = Some userID \<and> us_closing q) (so_db s)) of
        None \<Rightarrow> (False, s) | Some d \<Rightarrow> (True, s\<lparr>so_db := d\<rparr>))"

text \<open>\<open>logout\<close>; the result says whether it is without error.\<close>

definition sm_logout :: "'r handler \<Rightarrow> uoa \<Rightarrow> env \<Rightarrow> others \<Rightarrow> string \<Rightarrow> string \<Rightarrow> sso \<Rightarrow> bool \<times> sso" where
  "sm_logout H U E oth i userID s =
     (case logout_close H U E i userID s of
        (Inl ok, s1) \<Rightarrow> (ok, s1)
      | (Inr (refresh, kind), s1) \<Rightarrow>
          (case (if kind = capabilityRefresh then revoke_family H U refresh (oth 0 s1) else (True, oth 0 s1)) of
             (False, s2) \<Rightarrow> (False, s2)
           | (True, s2) \<Rightarrow> logout_delete E i userID (oth 1 s2)))"

section \<open>Admission\<close>

text \<open>
  \<open>upsertUser\<close>: the first user is made super; the external identifier is the key. The result is the
  user and whether it is super.
\<close>

definition new_user :: "env \<Rightarrow> string \<Rightarrow> bool \<Rightarrow> user" where
  "new_user E subject super = \<lparr>u_id = gen_uuid E 1, u_external_id = subject, u_status = ''active'', u_is_super = super,
     u_last_login_at = Some (clock E), u_updated_at = clock E\<rparr>"

definition upsertUser :: "env \<Rightarrow> nat \<Rightarrow> string \<Rightarrow> db \<Rightarrow> ((string \<times> bool) \<times> db) option" where
  "upsertUser E i subject d =
     (if fails E i \<or> fails E (i + 1) then None
      else let firstUser = (users d = []) in
        (case List.find (\<lambda>u. u_external_id u = subject) (users d) of
           Some u \<Rightarrow> map_option (\<lambda>d'. ((u_id u, u_is_super u \<or> firstUser), d'))
             (statement (fails E (i + 2) \<or> fails E (i + 3)) (d\<lparr>users := sql_update (\<lambda>x. u_external_id x = subject)
               (\<lambda>x. x\<lparr>u_last_login_at := Some (clock E), u_updated_at := clock E\<rparr>) (users d)\<rparr>))
         | None \<Rightarrow> map_option (\<lambda>d'. ((gen_uuid E 1, firstUser), d'))
             (statement (fails E (i + 2) \<or> fails E (i + 3)) (d\<lparr>users := users d @ [new_user E subject firstUser]\<rparr>))))"

definition admissible :: "time \<Rightarrow> string \<Rightarrow> string \<Rightarrow> string \<Rightarrow> db \<Rightarrow> uoa_session \<Rightarrow> bool" where
  "admissible now i userID subject d r \<longleftrightarrow> us_id r = i \<and> us_user_id r = None \<and> us_closing r \<and> us_subject r = subject \<and>
     now < us_expires_at r \<and>
     list_ex (\<lambda>u. u_id u = userID \<and> u_external_id u = subject \<and> u_status u = ''active'') (users d)"

definition admit :: "env \<Rightarrow> nat \<Rightarrow> string \<Rightarrow> string \<Rightarrow> string \<Rightarrow> sso \<Rightarrow> bool \<times> sso" where
  "admit E n i userID subject s =
     (case statement (fails E n) (update_sessions (admissible (clock E) i userID subject (so_db s))
         (\<lambda>r. r\<lparr>us_user_id := Some userID, us_closing := False\<rparr>) (so_db s)) of
        None \<Rightarrow> (False, s)
      | Some d \<Rightarrow> (sql_count (admissible (clock E) i userID subject (so_db s)) (uoa_sessions (so_db s)) = 1,
                  s\<lparr>so_db := d\<rparr>))"

definition cleanupStaged :: "'r handler \<Rightarrow> uoa \<Rightarrow> env \<Rightarrow> others \<Rightarrow> string \<Rightarrow> sso \<Rightarrow> sso" where
  "cleanupStaged H U E oth i s =
     (case schedule E 4 i (clock E) s of (False, s1) \<Rightarrow> s1
      | (True, s1) \<Rightarrow> snd (cleanupOne H U E i (oth 9 s1)))"

definition discardFamily :: "'r handler \<Rightarrow> uoa \<Rightarrow> string \<Rightarrow> sso \<Rightarrow> sso" where
  "discardFamily H U refresh s = snd (revoke_family H U refresh s)"

text \<open>\<open>Ec\<close> is the environment of the cleanup, which has a deadline of its own.\<close>

definition admitFreshFamily :: "'r handler \<Rightarrow> uoa \<Rightarrow> env \<Rightarrow> env \<Rightarrow> others \<Rightarrow> UOAClaims \<Rightarrow> sso \<Rightarrow>
    (string \<times> bool \<times> string) option \<times> sso" where
  "admitFreshFamily H U E Ec oth claims s =
     (case stage H U E claims s of
        (None, s1) \<Rightarrow> (None, discardFamily H U (uc_RefreshToken claims) (oth 0 s1))
      | (Some i, s1) \<Rightarrow>
          let s2 = oth 0 s1 in
          (case currentUOAProfile H U (uc_Subject claims) of
             None \<Rightarrow> (None, cleanupStaged H U Ec oth i s2)
           | Some profile \<Rightarrow>
               (case upsertUser E 1 (uc_Subject claims) (so_db s2) of
                  None \<Rightarrow> (None, cleanupStaged H U Ec oth i s2)
                | Some ((userID, isSuper), d) \<Rightarrow>
                    (case admit E 5 i userID (uc_Subject claims) (oth 1 (s2\<lparr>so_db := d\<rparr>)) of
                       (False, s3) \<Rightarrow> (None, cleanupStaged H U Ec oth i (oth 2 s3))
                     | (True, s3) \<Rightarrow> (Some (userID, isSuper, i), s3)))))"

section \<open>A provider and a state for the witnesses\<close>

definition sample_uoa :: uoa where
  "sample_uoa = \<lparr>url_host = Some, url_ok = (\<lambda>s. True),
     post_token = (\<lambda>b p. Some (200, Some \<lparr>tx_AccessToken = ''at'', tx_RefreshToken = ''rt2'', tx_ExpiresIn = 60,
       tx_RefreshTokenExpiresIn = 3600\<rparr>)),
     get_users = (\<lambda>b d i. Some (200, Some [\<lparr>uu_ID = i, uu_Email = ''e'', uu_Name = ''n'', uu_AvatarURL = ''a''\<rparr>])),
     post_validate = (\<lambda>b c. Some (200, Some \<lparr>bv_Sub = ''x1'', bv_ExpiresAt = 60 * Second, bv_OrgID = [], bv_TeamID = []\<rparr>)),
     post_revoke = (\<lambda>b t. Some (200, Some ())), post_debug_issue = (\<lambda>b p. None), post_debug_redeem = (\<lambda>b p. None),
     jwt_unverified = (\<lambda>t. Some (no_claims\<lparr>uc_Subject := ''x1'', uc_ExpiresAt := Some (60 * Second)\<rparr>)),
     gcm_seal = (\<lambda>k n p a. p), gcm_open = (\<lambda>k n c a. Some c), map_pick = hd\<rparr>"

definition sso_handler :: "redis_store handler" where
  "sso_handler = sample_handler\<lparr>h_cfg := sample_cfg\<lparr>UOADomain := ''uoa''\<rparr>\<rparr>"

definition sample_sealed :: string where
  "sample_sealed = replicate 12 CHR 0x00 @ ''rt1''"

definition sample_uoa_session :: uoa_session where
  "sample_uoa_session = \<lparr>us_id = ''s1'', us_user_id = Some ''u1'', us_subject = ''x1'', us_organization_id = None,
     us_team_id = None, us_sealed = sample_sealed, us_kind = ''refresh'', us_expires_at = 90 * Second,
     us_closing = False, us_cleanup_after = 0, us_created_at = 0\<rparr>"

definition sample_sso :: sso where
  "sample_sso = \<lparr>so_db = empty_db\<lparr>users := [(mk_user ''u1'')\<lparr>u_external_id := ''x1''\<rparr>], uoa_sessions := [sample_uoa_session]\<rparr>,
     so_cache = \<lparr>entries = [], flights = []\<rparr>, so_revoked = []\<rparr>"

end
