(* ===== verification/Login.thy ===== *)
theory Login
  imports Uoa_Sessions
begin

text \<open>
  The login routes of \<open>internal/auth\<close> (\<open>callback.go\<close>, \<open>configjwt.go\<close>, \<open>login_http.go\<close>,
  \<open>internal_session.go\<close>, \<open>rafiki_session.go\<close>, \<open>debug_login.go\<close>, \<open>devlogin.go\<close>, \<open>profile.go\<close>,
  \<open>uoa_session_logout.go\<close>): the browser and phone logins, the one-time handoff code, the brokers for
  other services, and logout. \<open>config.Load()\<close> reads the environment the handler was configured
  from, so its result is the handler's configuration.
\<close>

section \<open>State\<close>

record userProfile =
  up_Email :: string
  up_Picture :: string
  up_DisplayName :: string

text \<open>The state of the server with that of the session manager and the cache of profiles.\<close>

record 'r portal =
  p_world :: "'r world"
  p_cache :: sessionCache
  p_revoked :: "string list"
  p_profiles :: "(string \<times> userProfile \<times> time) list"

definition sso_of :: "'r portal \<Rightarrow> sso" where
  "sso_of P = \<lparr>so_db = w_db (p_world P), so_cache = p_cache P, so_revoked = p_revoked P\<rparr>"

definition put_sso :: "sso \<Rightarrow> 'r portal \<Rightarrow> 'r portal" where
  "put_sso s P = P\<lparr>p_world := (p_world P)\<lparr>w_db := so_db s\<rparr>, p_cache := so_cache s, p_revoked := so_revoked s\<rparr>"

section \<open>PKCE and URLs\<close>

definition RawURL :: "nat list \<Rightarrow> string" where
  "RawURL bs = filter (\<lambda>c. c \<noteq> CHR ''='') (b64_encode b64_url bs)"

definition newPKCE :: "crypto \<Rightarrow> (string \<times> string) option" where
  "newPKCE C = (case rand_bytes C 0 of None \<Rightarrow> None
     | Some bs \<Rightarrow> let verifier = RawURL (take 32 bs) in Some (verifier, RawURL (str_bytes (sha256 C verifier))))"

definition unreserved :: "char \<Rightarrow> bool" where
  "unreserved c \<longleftrightarrow> is_word c \<or> c \<in> {CHR ''-'', CHR ''.'', CHR ''~''}"

definition hex_upper :: "nat \<Rightarrow> char" where
  "hex_upper n = ''0123456789ABCDEF'' ! n"

definition QueryEscape :: "string \<Rightarrow> string" where
  "QueryEscape s = concat (map (\<lambda>c. if unreserved c then [c] else if c = CHR '' '' then ''+''
     else let n = of_char c :: nat in [CHR ''%'', hex_upper (n div 16), hex_upper (n mod 16)]) s)"

text \<open>\<open>Values.Encode\<close> writes the keys in order, which is the order of this list.\<close>

definition encode_query :: "(string \<times> string) list \<Rightarrow> string" where
  "encode_query kvs = Join (map (\<lambda>(k, v). QueryEscape k @ ''='' @ QueryEscape v) kvs) ''&''"

definition buildUOAAuthURL :: "string \<Rightarrow> string \<Rightarrow> string \<Rightarrow> string \<Rightarrow> string" where
  "buildUOAAuthURL baseURL configURL redirectURL codeChallenge =
     (let base = TrimRightSlash (TrimSpace baseURL); challenge = TrimSpace codeChallenge;
          config = TrimSpace configURL; redirect = TrimSpace redirectURL;
          encoded = encode_query
            ((if challenge \<noteq> [] then [(''code_challenge'', challenge), (''code_challenge_method'', ''S256'')] else []) @
             (if config \<noteq> [] then [(''config_url'', config)] else []) @
             (if redirect \<noteq> [] then [(''redirect_url'', redirect)] else [])) in
      if encoded \<noteq> [] then base @ ''/auth?'' @ encoded else base @ ''/auth'')"

definition BuildAuthURL :: "Config \<Rightarrow> string \<Rightarrow> string" where
  "BuildAuthURL cfg codeChallenge = buildUOAAuthURL (UOABaseURL cfg) (UOAConfigURL cfg) (UOARedirectURL cfg) codeChallenge"

text \<open>\<open>ServeLogin\<close>: the cookie with the verifier and where the browser is sent.\<close>

definition ServeLogin :: "'r handler \<Rightarrow> (string \<times> string) response" where
  "ServeLogin H = (case newPKCE (h_crypto H) of None \<Rightarrow> Error 500 ''internal error''
     | Some (verifier, challenge) \<Rightarrow> Reply 302 (verifier, BuildAuthURL (h_cfg H) challenge))"

definition pkceVerifierFromCookie :: "string option \<Rightarrow> string" where
  "pkceVerifierFromCookie cookie = (case cookie of None \<Rightarrow> [] | Some v \<Rightarrow> TrimSpace v)"

section \<open>The callback\<close>

datatype login_error = MissingCode | AuthFailed | InternalError

fun writeExchangeError :: "login_error \<Rightarrow> 'a response" where
  "writeExchangeError MissingCode = Error 400 ''missing code''"
| "writeExchangeError AuthFailed = Error 401 ''auth failed''"
| "writeExchangeError InternalError = Error 500 ''internal error''"

definition exchangeAndUpsertUser :: "'r handler \<Rightarrow> uoa \<Rightarrow> env \<Rightarrow> env \<Rightarrow> others \<Rightarrow> string \<Rightarrow> string \<Rightarrow> string \<Rightarrow> sso \<Rightarrow>
    (login_error + string \<times> bool \<times> string) \<times> sso" where
  "exchangeAndUpsertUser H U E Ec oth code redirectURL codeVerifier s =
     (if TrimSpace code = [] then (Inl MissingCode, s)
      else (case ExchangeCode H U (clock E) code redirectURL codeVerifier of None \<Rightarrow> (Inl AuthFailed, s)
            | Some claims \<Rightarrow>
                (case admitFreshFamily H U E Ec oth claims s of
                   (None, s') \<Rightarrow> (Inl InternalError, s')
                 | (Some (userID, isSuper, i), s') \<Rightarrow> (Inr (userID, isSuper, i), s'))))"

definition auditLogin :: "'r handler \<Rightarrow> env \<Rightarrow> nat \<Rightarrow> http_req \<Rightarrow> string \<Rightarrow> 'r portal \<Rightarrow> 'r portal" where
  "auditLogin H E n r userID P =
     P\<lparr>p_world := log_event H E n (user_event H r userID ''user.login'' ''users'' (Some userID)) (p_world P)\<rparr>"

definition ServeCallback :: "'r handler \<Rightarrow> uoa \<Rightarrow> env \<Rightarrow> env \<Rightarrow> others \<Rightarrow> http_req \<Rightarrow> string option \<Rightarrow> string \<Rightarrow>
    'r portal \<Rightarrow> string response \<times> 'r portal" where
  "ServeCallback H U E Ec oth r cookie code P =
     (let verifier = pkceVerifierFromCookie cookie in
      if verifier = [] then (Error 400 ''missing or expired login session'', P)
      else (case exchangeAndUpsertUser H U E Ec oth code (UOARedirectURL (h_cfg H)) verifier (sso_of P) of
              (Inl e, s) \<Rightarrow> (writeExchangeError e, put_sso s P)
            | (Inr (userID, isSuper, i), s) \<Rightarrow>
                let P1 = auditLogin H E 6 r userID (put_sso s P) in
                (case mintSessionToken H (clock E) userID isSuper i [AudienceAdmin] of
                   None \<Rightarrow> (Error 500 ''token error'', P1)
                 | Some token \<Rightarrow> (Reply 302 (''/admin#token='' @ token), P1))))"

section \<open>Handoff to the phone\<close>

definition mobileHandoffTTL :: duration where "mobileHandoffTTL = 60 * Second"
definition mobileHandoffExchangeLimit :: int where "mobileHandoffExchangeLimit = 10"
definition mobileHandoffFailureLimit :: int where "mobileHandoffFailureLimit = 10"
definition mobileHandoffFailureWindow :: duration where "mobileHandoffFailureWindow = Minute"

definition handoff_alphabet :: string where
  "handoff_alphabet = ''ABCDEFGHIJKLMNOPQRSTUVWXYZabcdefghijklmnopqrstuvwxyz0123456789''"

fun randomMobileHandoffCode :: "crypto \<Rightarrow> nat \<Rightarrow> nat \<Rightarrow> string option" where
  "randomMobileHandoffCode C j 0 = Some []"
| "randomMobileHandoffCode C j (Suc n) =
     (case rand_int C j of None \<Rightarrow> None
      | Some k \<Rightarrow> map_option (\<lambda>s. handoff_alphabet ! k # s) (randomMobileHandoffCode C (j + 1) n))"

definition handoff_row :: "env \<Rightarrow> string \<Rightarrow> string \<Rightarrow> string \<Rightarrow> handoff_code" where
  "handoff_row E hash user session = \<lparr>hc_code_hash = hash, hc_user_id = user, hc_session_id = Some session,
     hc_expires_at = clock E + mobileHandoffTTL, hc_consumed_at = None, hc_created_at = clock E\<rparr>"

text \<open>The five tries of \<open>createMobileHandoffCode\<close>; \<open>n\<close> are left.\<close>

fun handoff_tries :: "'r handler \<Rightarrow> env \<Rightarrow> string \<Rightarrow> string \<Rightarrow> nat \<Rightarrow> db \<Rightarrow> string option \<times> db" where
  "handoff_tries H E userID sessionID 0 d = (None, d)"
| "handoff_tries H E userID sessionID (Suc n) d =
     (case randomMobileHandoffCode (h_crypto H) (32 * (4 - n)) 32 of None \<Rightarrow> (None, d)
      | Some code \<Rightarrow>
          (case (bytea_in E code, uuid_in E userID, uuid_in E sessionID) of
             (Some b, Some u, Some i) \<Rightarrow>
               (case statement (fails E (11 - n)) (d\<lparr>handoff_codes := handoff_codes d @
                    [handoff_row E (sha256 (h_crypto H) b) u i]\<rparr>) of
                  Some d' \<Rightarrow> (Some code, d')
                | None \<Rightarrow> handoff_tries H E userID sessionID n d)
           | _ \<Rightarrow> handoff_tries H E userID sessionID n d))"

definition createMobileHandoffCode :: "'r handler \<Rightarrow> env \<Rightarrow> string \<Rightarrow> string \<Rightarrow> db \<Rightarrow> string option \<times> db" where
  "createMobileHandoffCode H E userID sessionID d = handoff_tries H E userID sessionID 5 d"

text \<open>\<open>set_query\<close> parses a URL and sets its query parameter \<open>handoff_code\<close>.\<close>

definition mobileRedirectURL :: "(string \<Rightarrow> string \<Rightarrow> string option) \<Rightarrow> string \<Rightarrow> string \<Rightarrow> string option" where
  "mobileRedirectURL set_query baseURL handoffCode =
     (if TrimSpace baseURL = [] then None else set_query baseURL handoffCode)"

definition ServeMobileCallback :: "'r handler \<Rightarrow> uoa \<Rightarrow> env \<Rightarrow> env \<Rightarrow> others \<Rightarrow> (string \<Rightarrow> string \<Rightarrow> string option) \<Rightarrow>
    http_req \<Rightarrow> string option \<Rightarrow> string \<Rightarrow> 'r portal \<Rightarrow> string response \<times> 'r portal" where
  "ServeMobileCallback H U E Ec oth set_query r cookie code P =
     (let verifier = pkceVerifierFromCookie cookie in
      if verifier = [] then (Error 400 ''missing or expired login session'', P)
      else (case exchangeAndUpsertUser H U E Ec oth code (UOAMobileRedirectURL (h_cfg H)) verifier (sso_of P) of
              (Inl e, s) \<Rightarrow> (writeExchangeError e, put_sso s P)
            | (Inr (userID, isSuper, i), s) \<Rightarrow>
                let P1 = auditLogin H E 6 r userID (put_sso s P) in
                (case createMobileHandoffCode H E userID i (w_db (p_world P1)) of
                   (None, d) \<Rightarrow> (Error 500 ''internal error'', P1\<lparr>p_world := (p_world P1)\<lparr>w_db := d\<rparr>\<rparr>)
                 | (Some handoffCode, d) \<Rightarrow>
                     let P2 = P1\<lparr>p_world := (p_world P1)\<lparr>w_db := d\<rparr>\<rparr> in
                     (case mobileRedirectURL set_query (MobileRedirectURL (h_cfg H)) handoffCode of
                        None \<Rightarrow> (Error 500 ''mobile redirect is misconfigured'', P2)
                      | Some url \<Rightarrow> (Reply 302 url, P2)))))"

definition checkRateLimit :: "'r handler \<Rightarrow> env \<Rightarrow> nat \<Rightarrow> string \<Rightarrow> int \<Rightarrow> duration \<Rightarrow> 'r world \<Rightarrow>
    (limit_error + decision) \<times> 'r world" where
  "checkRateLimit H E n key limit window w =
     (case limiter_Allow (h_redis H) (fails E n) key limit window (clock E) (w_limiter w) of
        (res, l) \<Rightarrow> (res, w\<lparr>w_limiter := l\<rparr>))"

definition recordMobileHandoffFailure :: "'r handler \<Rightarrow> env \<Rightarrow> nat \<Rightarrow> string \<Rightarrow> string \<Rightarrow> 'r world \<Rightarrow> bool option \<times> 'r world" where
  "recordMobileHandoffFailure H E n sourceIP handoffCode w =
     (case checkRateLimit H E n (Key [''mobile'', ''handoff'', ''failure'', ''ip'', RateLimitIP sourceIP])
         mobileHandoffFailureLimit mobileHandoffFailureWindow w of
        (Inl e, w1) \<Rightarrow> (None, w1)
      | (Inr d, w1) \<Rightarrow>
          if \<not> Allowed d then (Some False, w1)
          else (case checkRateLimit H E (n + 1) (Key [''mobile'', ''handoff'', ''failure'', ''code'', HashToken (h_crypto H) handoffCode])
                  mobileHandoffFailureLimit mobileHandoffFailureWindow w1 of
                  (Inl e, w2) \<Rightarrow> (None, w2)
                | (Inr d2, w2) \<Rightarrow> (Some (Allowed d2), w2)))"

definition handleInvalidMobileHandoff :: "'r handler \<Rightarrow> env \<Rightarrow> nat \<Rightarrow> string \<Rightarrow> string \<Rightarrow> 'r world \<Rightarrow> 'a response \<times> 'r world" where
  "handleInvalidMobileHandoff H E n sourceIP handoffCode w =
     (case recordMobileHandoffFailure H E n sourceIP handoffCode w of
        (None, w') \<Rightarrow> (Error 503 ''rate limiting unavailable'', w')
      | (Some False, w') \<Rightarrow> (RateLimited (retry_seconds mobileHandoffFailureWindow), w')
      | (Some True, w') \<Rightarrow> (Error 401 ''invalid mobile handoff code'', w'))"

text \<open>The rows the consuming update matches, and the update.\<close>

definition redeemable :: "crypto \<Rightarrow> env \<Rightarrow> string \<Rightarrow> db \<Rightarrow> handoff_code \<Rightarrow> bool" where
  "redeemable C E b d h \<longleftrightarrow> hc_code_hash h = sha256 C b \<and> list_ex (\<lambda>u. u_id u = hc_user_id h) (users d) \<and>
     hc_consumed_at h = None \<and> clock E < hc_expires_at h"

definition consume_handoff :: "crypto \<Rightarrow> env \<Rightarrow> string \<Rightarrow> db \<Rightarrow> db" where
  "consume_handoff C E b d =
     d\<lparr>handoff_codes := sql_update (redeemable C E b d) (\<lambda>h. h\<lparr>hc_consumed_at := Some (clock E)\<rparr>) (handoff_codes d)\<rparr>"

definition ServeMobileHandoffExchange :: "'r handler \<Rightarrow> env \<Rightarrow> http_req \<Rightarrow> string option \<Rightarrow> 'r world \<Rightarrow>
    (string \<times> int) response \<times> 'r world" where
  "ServeMobileHandoffExchange H E r body w =
     (case body of None \<Rightarrow> (Error 400 ''invalid request body'', w)
      | Some raw \<Rightarrow>
          let handoffCode = TrimSpace raw in
          if handoffCode = [] then (Error 400 ''handoff_code is required'', w)
          else let sourceIP = client_ip H r in
            (case rate_limit H E 0 (Key [''mobile'', ''handoff'', ''exchange'', RateLimitIP sourceIP])
                mobileHandoffExchangeLimit Minute w of
               (Some res, w1) \<Rightarrow> (res, w1)
             | (None, w1) \<Rightarrow>
                 if fails E 1 then (Error 500 ''failed to start handoff exchange'', w1)
                 else (case bytea_in E handoffCode of None \<Rightarrow> (Error 500 ''failed to exchange mobile handoff code'', w1)
                   | Some b \<Rightarrow>
                       (case statement (fails E 2) (consume_handoff (h_crypto H) E b (w_db w1)) of
                          None \<Rightarrow> (Error 500 ''failed to exchange mobile handoff code'', w1)
                        | Some d \<Rightarrow>
                            (case List.find (redeemable (h_crypto H) E b (w_db w1)) (handoff_codes (w_db w1)) of
                               None \<Rightarrow> handleInvalidMobileHandoff H E 4 sourceIP handoffCode w1
                             | Some h \<Rightarrow>
                                 (case hc_session_id h of None \<Rightarrow> (Error 500 ''failed to exchange mobile handoff code'', w1)
                                  | Some sessionID \<Rightarrow>
                                      if fails E 3 then (Error 500 ''failed to finalize mobile handoff exchange'', w1)
                                      else let w2 = w1\<lparr>w_db := d\<rparr> in
                                        (case mintSessionToken H (clock E) (hc_user_id h) (super_user (hc_user_id h) (w_db w1))
                                            sessionID [AudienceMobile] of
                                           None \<Rightarrow> (Error 500 ''failed to mint session token'', w2)
                                         | Some token \<Rightarrow> (Reply 200 (token, sessionTokenTTL div Second), w2))))))))"

section \<open>Brokers for other services\<close>

definition internalMintSessionLimit :: int where "internalMintSessionLimit = 60"

definition validInternalServiceKey :: "string \<Rightarrow> string \<Rightarrow> bool" where
  "validInternalServiceKey header serviceKey =
     (let auth = TrimSpace header in
      if auth = [] then False
      else let provided = TrimSpace (TrimPrefix auth ''Bearer '') in
        if provided = auth \<or> provided = [] then False else provided = serviceKey)"

record internalMintSessionRequest =
  im_UOASub :: string
  im_Capability :: string

definition auditInternalMintSession :: "'r handler \<Rightarrow> env \<Rightarrow> nat \<Rightarrow> http_req \<Rightarrow> string \<Rightarrow> 'r portal \<Rightarrow> 'r portal" where
  "auditInternalMintSession H E n r userID P =
     P\<lparr>p_world := log_event H E n (user_event H r userID ''internal.mint_session'' ''users'' (Some userID)) (p_world P)\<rparr>"

definition on_world :: "('a response option \<times> 'r world) \<Rightarrow> 'r portal \<Rightarrow> 'a response option \<times> 'r portal" where
  "on_world x P = (case x of (res, w) \<Rightarrow> (res, P\<lparr>p_world := w\<rparr>))"

definition ServeInternalMintSession :: "'r handler \<Rightarrow> uoa \<Rightarrow> env \<Rightarrow> http_req \<Rightarrow> internalMintSessionRequest option \<Rightarrow>
    'r portal \<Rightarrow> (string \<times> time) response \<times> 'r portal" where
  "ServeInternalMintSession H U E r body P =
     (let serviceKey = TrimSpace (InternalServiceKey (h_cfg H)) in
      if serviceKey = [] then (Error 503 ''internal session broker not configured'', P)
      else if \<not> validInternalServiceKey (authorization r) serviceKey then (Error 401 ''unauthorized'', P)
      else (case on_world (rate_limit H E 0 (Key [''internal'', ''mint-session'', ''ip'', RateLimitIP (client_ip H r)])
              internalMintSessionLimit Minute (p_world P)) P of
              (Some res, P1) \<Rightarrow> (res, P1)
            | (None, P1) \<Rightarrow>
                (case body of None \<Rightarrow> (Error 400 ''invalid request body'', P1)
                 | Some req \<Rightarrow>
                     let uoaSub = TrimSpace (im_UOASub req) in
                     if uoaSub = [] \<or> TrimSpace (im_Capability req) = []
                     then (Error 400 ''uoaSub and capability are required'', P1)
                     else (case validateBrokerCapability H U (clock E) (im_Capability req) of
                       Inl UOARefused \<Rightarrow> (Error 401 ''unauthorized'', P1)
                     | Inl UOAUnavailable \<Rightarrow> (Error 503 ''broker authority temporarily unavailable'', P1)
                     | Inr v \<Rightarrow>
                         if bv_Sub v \<noteq> uoaSub then (Error 401 ''unauthorized'', P1)
                         else (case currentUOAProfile H U (bv_Sub v) of
                           None \<Rightarrow> (Error 503 ''profile temporarily unavailable'', P1)
                         | Some profile \<Rightarrow>
                             (case upsertUser E 1 (uc_Subject profile) (w_db (p_world P1)) of
                                None \<Rightarrow> (Error 503 ''failed to provision user'', P1)
                              | Some ((userID, isSuper), d) \<Rightarrow>
                                  let s = (sso_of P1)\<lparr>so_db := d\<rparr> in
                                  (case createBroker H U E 5 userID (im_Capability req) v s of
                                     (None, s') \<Rightarrow> (Error 503 ''failed to create broker session'', put_sso s' P1)
                                   | (Some sessionID, s') \<Rightarrow>
                                       (case mintSessionTokenUntil H (clock E) userID isSuper sessionID [AudienceMobile]
                                           (bv_ExpiresAt v) of
                                          None \<Rightarrow> (Error 500 ''failed to mint session token'', put_sso s' P1)
                                        | Some token \<Rightarrow>
                                            (Reply 200 (token, bv_ExpiresAt v),
                                             auditInternalMintSession H E 6 r userID (put_sso s' P1))))))))))"

record rafikiSessionRequest =
  rq_UOASub :: string
  rq_AuthorizationExpiresAt :: string
  rq_HomeDeviceID :: string

text \<open>\<open>rfc3339\<close> parses a time.\<close>

definition ServeRafikiSession :: "'r handler \<Rightarrow> env \<Rightarrow> (string \<Rightarrow> time option) \<Rightarrow> http_req \<Rightarrow> rafikiSessionRequest option \<Rightarrow>
    'r portal \<Rightarrow> (string \<times> time) response \<times> 'r portal" where
  "ServeRafikiSession H E rfc3339 r body P =
     (let key = TrimSpace (RafikiServiceKey (h_cfg H)) in
      if key = [] \<or> RafikiHomeDeviceID (h_cfg H) = [] then (Error 503 ''Rafiki connector not configured'', P)
      else if \<not> validInternalServiceKey (authorization r) key then (Error 401 ''unauthorized'', P)
      else (case on_world (rate_limit H E 0 (Key [''internal'', ''rafiki-session'']) internalMintSessionLimit Minute (p_world P)) P of
              (Some res, P1) \<Rightarrow> (res, P1)
            | (None, P1) \<Rightarrow>
                (case body of None \<Rightarrow> (Error 400 ''UOA subject and home device required'', P1)
                 | Some req \<Rightarrow>
                     if TrimSpace (rq_UOASub req) = [] \<or> TrimSpace (rq_HomeDeviceID req) = []
                     then (Error 400 ''UOA subject and home device required'', P1)
                     else if rq_HomeDeviceID req \<noteq> RafikiHomeDeviceID (h_cfg H)
                     then (Error 403 ''home device outside connector scope'', P1)
                     else if fails E 5 \<or> (case uuid_in E (rq_HomeDeviceID req) of None \<Rightarrow> True
                       | Some i \<Rightarrow> \<not> list_ex (\<lambda>x. d_id x = i \<and> d_status x = ''active'' \<and> d_direct_home_port x \<noteq> None)
                           (devices (w_db (p_world P1))))
                     then (Error 404 ''home device unavailable'', P1)
                     else (case upsertUser E 1 (TrimSpace (rq_UOASub req)) (w_db (p_world P1)) of
                       None \<Rightarrow> (Error 503 ''UOA reference unavailable'', P1)
                     | Some ((userID, isSuper), d) \<Rightarrow>
                         let P2 = P1\<lparr>p_world := (p_world P1)\<lparr>w_db := d\<rparr>\<rparr> in
                         (case rfc3339 (rq_AuthorizationExpiresAt req) of
                            None \<Rightarrow> (Error 400 ''current authorization expiry required'', P2)
                          | Some exp \<Rightarrow>
                              if \<not> clock E < exp then (Error 400 ''current authorization expiry required'', P2)
                              else let expiresAt = min exp (clock E + 5 * Minute) in
                                (case jwt_sign (h_crypto H) (InternalSessionSecret (h_cfg H))
                                    \<lparr>sc_capability_kind = RafikiDirectCapability, sc_direct_home_id = rq_HomeDeviceID req,
                                     sc_is_super = False, sc_issuer = Issuer, sc_subject = userID, sc_id = [],
                                     sc_audience = [AudienceMobile], sc_issued_at = Some (NumericDate (clock E)),
                                     sc_expires_at = NumericDate expiresAt\<rparr> of
                                   None \<Rightarrow> (Error 503 ''session unavailable'', P2)
                                 | Some token \<Rightarrow> (Reply 200 (token, expiresAt),
                                     auditInternalMintSession H E 6 r userID P2)))))))"

section \<open>Sessions of the browser\<close>

definition sessionAuth :: "'r handler \<Rightarrow> env \<Rightarrow> http_req \<Rightarrow> Claims option" where
  "sessionAuth H E r =
     (case authenticateBearer (h_crypto H) (clock E) (authorization r) (InternalSessionSecret (h_cfg H)) of
        Inl reason \<Rightarrow> None | Inr claims \<Rightarrow> if SessionID claims = [] then None else Some claims)"

record sessionView =
  vw_sub :: string
  vw_session_id :: string
  vw_email :: string
  vw_display_name :: string
  vw_picture :: string
  vw_is_super :: bool

definition ServeSession :: "'r handler \<Rightarrow> uoa \<Rightarrow> env \<Rightarrow> others \<Rightarrow> http_req \<Rightarrow> 'r portal \<Rightarrow> sessionView response \<times> 'r portal" where
  "ServeSession H U E oth r P =
     (case sessionAuth H E r of None \<Rightarrow> (Error 401 ''unauthorized'', P)
      | Some claims \<Rightarrow>
          (case resolve H U E oth (SessionID claims) (Sub claims) (sso_of P) of
             (Inl SessionClosing, s) \<Rightarrow> (Error 503 ''logout confirmation pending'', put_sso s P)
           | (Inl SessionExpired, s) \<Rightarrow> (Error 401 ''unauthorized'', put_sso s P)
           | (Inl SessionUnavailable, s) \<Rightarrow> (Error 503 ''session temporarily unavailable'', put_sso s P)
           | (Inr (profile, isSuper), s) \<Rightarrow>
               (Reply 200 \<lparr>vw_sub = Sub claims, vw_session_id = SessionID claims, vw_email = uc_Email profile,
                  vw_display_name = uc_DisplayName profile, vw_picture = uc_Picture profile, vw_is_super = isSuper\<rparr>,
                put_sso s P)))"

definition ServeLogout :: "'r handler \<Rightarrow> uoa \<Rightarrow> env \<Rightarrow> others \<Rightarrow> http_req \<Rightarrow> 'r portal \<Rightarrow> unit response \<times> 'r portal" where
  "ServeLogout H U E oth r P =
     (case on_world (rate_limit H E 5 (Key [''auth'', ''logout'', ''ip'', RateLimitIP (client_ip H r)]) 20 Minute (p_world P)) P of
        (Some res, P1) \<Rightarrow> (res, P1)
      | (None, P1) \<Rightarrow>
          (case sessionAuth H E r of None \<Rightarrow> (Error 401 ''unauthorized'', P1)
           | Some claims \<Rightarrow>
               (case sm_logout H U E oth (SessionID claims) (Sub claims) (sso_of P1) of
                  (False, s) \<Rightarrow> (Error 503 ''logout temporarily unavailable; retry'', put_sso s P1)
                | (True, s) \<Rightarrow> (Reply 204 (), put_sso s P1))))"

definition ServeReferenceSession :: "'r handler \<Rightarrow> env \<Rightarrow> Claims \<Rightarrow> string response" where
  "ServeReferenceSession H E claims =
     (case jwt_sign (h_crypto H) (InternalSessionSecret (h_cfg H))
         \<lparr>sc_capability_kind = [], sc_direct_home_id = [], sc_is_super = IsSuper claims, sc_issuer = Issuer,
          sc_subject = Sub claims, sc_id = SessionID claims, sc_audience = Audience claims,
          sc_issued_at = Some (NumericDate (clock E)), sc_expires_at = NumericDate (ExpiresAt claims)\<rparr> of
        None \<Rightarrow> Error 503 ''session unavailable'' | Some token \<Rightarrow> Reply 200 token)"

section \<open>Profiles\<close>

definition profileTTL :: duration where "profileTTL = 30 * Second"

text \<open>\<open>url_parts\<close> parses a URL: scheme, host and whether it names a user.\<close>

definition fetchProfile :: "'r handler \<Rightarrow> uoa \<Rightarrow> (string \<Rightarrow> (string \<times> string \<times> bool) option) \<Rightarrow> string \<Rightarrow> userProfile option" where
  "fetchProfile H U url_parts reference =
     (let cfg = h_cfg H in
      case (uoaConfigDomain U cfg, url_parts (TrimRightSlash (UOABaseURL cfg) @ ''/domain/users'')) of
        (Some domain, Some (scheme, host, user)) \<Rightarrow>
          if host = [] \<or> user \<or> (scheme \<noteq> ''https'' \<and> \<not> DevMode cfg) \<or> UOASharedSecret cfg = [] then None
          else (case get_users U (''Bearer '' @ uoaAuthorizationToken (h_crypto H) domain (UOASharedSecret cfg)) domain reference of
                  Some (status, Some [u]) \<Rightarrow>
                    if status \<noteq> 200 \<or> uu_ID u \<noteq> reference then None
                    else Some \<lparr>up_Email = uu_Email u, up_Picture = uu_AvatarURL u, up_DisplayName = uu_Name u\<rparr>
                | _ \<Rightarrow> None)
      | _ \<Rightarrow> None)"

definition profile :: "'r handler \<Rightarrow> uoa \<Rightarrow> (string \<Rightarrow> (string \<times> string \<times> bool) option) \<Rightarrow> time \<Rightarrow> string \<Rightarrow>
    (string \<times> userProfile \<times> time) list \<Rightarrow> userProfile option \<times> (string \<times> userProfile \<times> time) list" where
  "profile H U url_parts now reference values =
     (case map_of values reference of
        Some (v, exp) \<Rightarrow>
          if now < exp then (Some v, values)
          else (case fetchProfile H U url_parts reference of
                  None \<Rightarrow> (None, AList.delete reference values)
                | Some v' \<Rightarrow>
                    let kept = filter (\<lambda>(k, v, e). now < e) (AList.delete reference values);
                        room = (if 256 \<le> length kept then [] else kept) in
                    (Some v', AList.update reference (v', now + profileTTL) room))
      | None \<Rightarrow>
          (case fetchProfile H U url_parts reference of
             None \<Rightarrow> (None, values)
           | Some v' \<Rightarrow>
               let kept = filter (\<lambda>(k, v, e). now < e) values;
                   room = (if 256 \<le> length kept then [] else kept) in
               (Some v', AList.update reference (v', now + profileTTL) room)))"

definition ServeProfile :: "'r handler \<Rightarrow> uoa \<Rightarrow> env \<Rightarrow> (string \<Rightarrow> (string \<times> string \<times> bool) option) \<Rightarrow> Claims \<Rightarrow> 'r portal \<Rightarrow>
    userProfile response \<times> 'r portal" where
  "ServeProfile H U E url_parts claims P =
     (case (if fails E 0 then None else Option.bind (uuid_in E (Sub claims))
              (\<lambda>u. List.find (\<lambda>x. u_id x = u \<and> u_status x = ''active'') (users (w_db (p_world P))))) of
        None \<Rightarrow> (Error 404 ''UOA reference unavailable'', P)
      | Some x \<Rightarrow>
          (case profile H U url_parts (clock E) (u_external_id x) (p_profiles P) of
             (None, vs) \<Rightarrow> (Error 503 ''UOA profile unavailable'', P\<lparr>p_profiles := vs\<rparr>)
           | (Some v, vs) \<Rightarrow> (Reply 200 v, P\<lparr>p_profiles := vs\<rparr>)))"

section \<open>Development and debug logins\<close>

definition ServeDevStatus :: "'r handler \<Rightarrow> bool" where
  "ServeDevStatus H \<longleftrightarrow> DevMode (h_cfg H) \<and> UOAConfigURL (h_cfg H) = []"

definition ServeDevLogin :: "'r handler \<Rightarrow> uoa \<Rightarrow> env \<Rightarrow> http_req \<Rightarrow> 'r portal \<Rightarrow> string response \<times> 'r portal" where
  "ServeDevLogin H U E r P =
     (if \<not> DevMode (h_cfg H) \<or> UOAConfigURL (h_cfg H) \<noteq> [] then (Error 404 ''404 page not found'', P)
      else (case upsertUser E 1 DevUserExternalID (w_db (p_world P)) of
              None \<Rightarrow> (Error 500 ''internal error'', P)
            | Some ((userID, isSuper), d) \<Rightarrow>
                let P1 = auditLogin H E 6 r userID (P\<lparr>p_world := (p_world P)\<lparr>w_db := d\<rparr>\<rparr>) in
                (case createDevelopment H U E 7 userID (sso_of P1) of
                   (None, s) \<Rightarrow> (Error 500 ''session error'', put_sso s P1)
                 | (Some sessionID, s) \<Rightarrow>
                     (case mintSessionToken H (clock E) userID isSuper sessionID [AudienceAdmin, AudienceMobile] of
                        None \<Rightarrow> (Error 500 ''token error'', put_sso s P1)
                      | Some token \<Rightarrow> (Reply 302 (''/admin#token='' @ token), put_sso s P1)))))"

definition debugCodePattern :: "string \<Rightarrow> bool" where
  "debugCodePattern t \<longleftrightarrow> length t = 43 \<and> list_all (\<lambda>c. is_word c \<or> c = CHR ''-'') t"

definition validPreviousDebugCode :: "string \<Rightarrow> bool" where
  "validPreviousDebugCode token \<longleftrightarrow> token = [] \<or> debugCodePattern token"

definition limitDebug :: "'r handler \<Rightarrow> env \<Rightarrow> http_req \<Rightarrow> 'r portal \<Rightarrow> 'a response option \<times> 'r portal" where
  "limitDebug H E r P =
     on_world (rate_limit H E 5 (Key [''auth'', ''debug-login'', ''ip'', RateLimitIP (client_ip H r)]) 20 Minute (p_world P)) P"

definition debugOrigin :: "'r handler \<Rightarrow> (string \<Rightarrow> (string \<times> string \<times> bool) option) \<Rightarrow> string option" where
  "debugOrigin H url_parts = (case url_parts (UOARedirectURL (h_cfg H)) of None \<Rightarrow> None
     | Some (scheme, host, user) \<Rightarrow>
         if host = [] \<or> user \<or> (scheme \<noteq> ''https'' \<and> scheme \<noteq> ''http'') then None
         else Some (scheme @ ''://'' @ host @ ''/''))"

definition ServeDebugIssue :: "'r handler \<Rightarrow> uoa \<Rightarrow> env \<Rightarrow> env \<Rightarrow> others \<Rightarrow> (string \<Rightarrow> (string \<times> string \<times> bool) option) \<Rightarrow> http_req \<Rightarrow>
    string option \<Rightarrow> 'r portal \<Rightarrow> (string \<times> string) response \<times> 'r portal" where
  "ServeDebugIssue H U E E2 oth url_parts r body P =
     (case limitDebug H E r P of (Some res, P1) \<Rightarrow> (res, P1)
      | (None, P1) \<Rightarrow>
          (case body of None \<Rightarrow> (Error 400 ''invalid login code request'', P1)
           | Some prev \<Rightarrow>
               if \<not> validPreviousDebugCode prev then (Error 400 ''invalid login code request'', P1)
               else (case sessionAuth H E r of None \<Rightarrow> (Error 401 ''unauthorized'', P1)
                 | Some claims \<Rightarrow>
                     if \<not> HasAudience claims AudienceAdmin then (Error 403 ''admin session required'', P1)
                     else (case resolve H U E oth (SessionID claims) (Sub claims) (sso_of P1) of
                       (Inl e, s) \<Rightarrow> (Error 503 ''session temporarily unavailable'', put_sso s P1)
                     | (Inr x, s) \<Rightarrow>
                         let P2 = put_sso (oth 1 s) P1 in
                         if fails E2 0 then (Error 503 ''login code temporarily unavailable'', P2)
                         else (case (if fails E2 1 then None else session_by (\<lambda>q. us_id q = SessionID claims \<and>
                                 us_user_id q = Some (Sub claims) \<and> \<not> us_closing q \<and> clock E2 < us_expires_at q \<and>
                                 us_kind q = capabilityRefresh) (w_db (p_world P2))) of
                           None \<Rightarrow> (Error 401 ''unauthorized'', P2)
                         | Some q \<Rightarrow>
                             (case unseal H U (us_sealed q) of None \<Rightarrow> (Error 503 ''login code temporarily unavailable'', P2)
                              | Some refresh \<Rightarrow>
                                  (case uoaRequest H U ''/auth/debug-login/issue'' (\<lambda>b. post_debug_issue U b
                                      ((''refresh_token'', refresh) # (if prev \<noteq> [] then [(''previous_token'', prev)] else []))) of
                                     Inl e \<Rightarrow> (Error 503 ''login code temporarily unavailable'', P2)
                                   | Inr (tok, expiresIn) \<Rightarrow>
                                       if \<not> debugCodePattern tok \<or> expiresIn \<noteq> 1800
                                       then (Error 503 ''login code temporarily unavailable'', P2)
                                       else (case debugOrigin H url_parts of
                                         None \<Rightarrow> (Error 503 ''login URL unavailable'', P2)
                                       | Some origin \<Rightarrow> (Reply 200 (origin, tok), P2)))))))))"

definition ServeDebugRedeem :: "'r handler \<Rightarrow> uoa \<Rightarrow> env \<Rightarrow> env \<Rightarrow> others \<Rightarrow> http_req \<Rightarrow> string option \<Rightarrow> 'r portal \<Rightarrow>
    string response \<times> 'r portal" where
  "ServeDebugRedeem H U E Ec oth r body P =
     (case limitDebug H E r P of (Some res, P1) \<Rightarrow> (res, P1)
      | (None, P1) \<Rightarrow>
          (case body of None \<Rightarrow> (Error 400 ''paste a valid login code'', P1)
           | Some tok \<Rightarrow>
               if \<not> debugCodePattern tok then (Error 400 ''paste a valid login code'', P1)
               else (case uoaRequest H U ''/auth/debug-login/redeem'' (\<lambda>b. post_debug_redeem U b tok) of
                 Inl UOARefused \<Rightarrow> (Error 401 ''login code expired or already used'', P1)
               | Inl UOAUnavailable \<Rightarrow> (Error 503 ''login temporarily unavailable; retry'', P1)
               | Inr tokens \<Rightarrow>
                   (case decodeUOAToken U (clock E) (tx_AccessToken tokens) of
                      None \<Rightarrow> (Error 503 ''invalid UOA session response'', P1)
                    | Some c \<Rightarrow>
                        if tx_RefreshToken tokens = [] \<or> tx_RefreshTokenExpiresIn tokens \<le> 0
                        then (Error 503 ''invalid UOA session response'', P1)
                        else (case admitFreshFamily H U E Ec oth (c\<lparr>uc_RefreshToken := tx_RefreshToken tokens,
                                uc_RefreshExpiresIn := tx_RefreshTokenExpiresIn tokens\<rparr>) (sso_of P1) of
                          (None, s) \<Rightarrow> (Error 503 ''session temporarily unavailable'', put_sso s P1)
                        | (Some (userID, isSuper, sessionID), s) \<Rightarrow>
                            (case mintSessionToken H (clock E) userID isSuper sessionID [AudienceAdmin] of
                               None \<Rightarrow> (Error 503 ''session temporarily unavailable'', put_sso s P1)
                             | Some token \<Rightarrow> (Reply 200 token, put_sso s P1)))))))"

end
