(* ===== verification/Login_Safety.thy ===== *)
theory Login_Safety
  imports Login
begin

text \<open>
  What the login routes guarantee: a handoff code works once and for a minute, only the first user
  of an installation becomes super, a brokered session cannot outlive the capability it stands for,
  and the machine grant of the connector is accepted exactly as it was issued.
\<close>

section \<open>Handoff codes\<close>

text \<open>
  The requests that touch handoff codes. A new code is not the code with the digest \<open>N\<close>; sessions
  may be deleted at any time, which deletes their codes; \<open>elsewhere\<close> is the rest of the server.
\<close>

inductive handoff_step :: "'r handler \<Rightarrow> string \<Rightarrow> 'r world \<Rightarrow> 'r world \<Rightarrow> bool" for H N where
  exchange: "ServeMobileHandoffExchange H E r body w = (res, w') \<Longrightarrow> handoff_step H N w w'"
| create: "createMobileHandoffCode H E user session (w_db w) = (code, d) \<Longrightarrow>
    (\<And>c b. code = Some c \<Longrightarrow> bytea_in E c = Some b \<Longrightarrow> sha256 (h_crypto H) b \<noteq> N) \<Longrightarrow>
    handoff_step H N w (w\<lparr>w_db := d\<rparr>)"
| delete_session: "handoff_step H N w (w\<lparr>w_db := delete_sessions p (w_db w)\<rparr>)"
| elsewhere: "handoff_codes d = handoff_codes (w_db w) \<Longrightarrow> handoff_step H N w (w'\<lparr>w_db := d\<rparr>)"

definition redeemed :: "string \<Rightarrow> 'r world \<Rightarrow> bool" where
  "redeemed N w \<longleftrightarrow> (\<forall>h \<in> set (handoff_codes (w_db w)). hc_code_hash h = N \<longrightarrow> hc_consumed_at h \<noteq> None)"

lemma handleInvalidMobileHandoff_db:
  "handleInvalidMobileHandoff H E n ip code w = (res, w') \<Longrightarrow> w_db w' = w_db w \<and> (\<forall>x. res \<noteq> Reply 200 x)"
  by (auto simp: handleInvalidMobileHandoff_def recordMobileHandoffFailure_def checkRateLimit_def
      split: prod.splits sum.splits if_splits option.splits bool.splits)

lemma exchange_effect:
  assumes "ServeMobileHandoffExchange H E r body w = (res, w')"
  shows "w_db w' = w_db w \<and> (\<forall>x. res \<noteq> Reply 200 x) \<or>
    (\<exists>raw b h i. body = Some raw \<and> bytea_in E (TrimSpace raw) = Some b \<and> h \<in> set (handoff_codes (w_db w)) \<and>
       redeemable (h_crypto H) E b (w_db w) h \<and> hc_session_id h = Some i \<and>
       w_db w' = consume_handoff (h_crypto H) E b (w_db w) \<and> db_ok (w_db w') \<and>
       (\<forall>t n. res = Reply 200 (t, n) \<longrightarrow> mintSessionToken H (clock E) (hc_user_id h) (super_user (hc_user_id h) (w_db w)) i
          [AudienceMobile] = Some t))"
proof (cases body)
  case None
  then show ?thesis using assms by (auto simp: ServeMobileHandoffExchange_def)
next
  case (Some raw)
  obtain x v where p: "rate_limit H E 0 (Key [''mobile'', ''handoff'', ''exchange'', RateLimitIP (client_ip H r)])
      mobileHandoffExchangeLimit Minute w = (x :: (string \<times> int) response option, v)" by (rule prod.exhaust)
  note R = rate_limit_result [OF p]
  show ?thesis
  proof (cases "TrimSpace raw = [] \<or> x \<noteq> None \<or> fails E 1 \<or> bytea_in E (TrimSpace raw) = None")
    case True
    then show ?thesis
      using assms Some p R by (auto simp: ServeMobileHandoffExchange_def Let_def split: if_splits)
  next
    case False
    then obtain b where b: "bytea_in E (TrimSpace raw) = Some b" and ne: "TrimSpace raw \<noteq> []" "x = None" "\<not> fails E 1" by auto
    show ?thesis
    proof (cases "List.find (redeemable (h_crypto H) E b (w_db v)) (handoff_codes (w_db v))")
      case None
      then show ?thesis
        using assms Some p R(1) b ne handleInvalidMobileHandoff_db [of H E 4 "client_ip H r" "TrimSpace raw" v res w']
        by (auto simp: ServeMobileHandoffExchange_def Let_def split: option.splits)
    next
      case (Some h)
      then have h: "h \<in> set (handoff_codes (w_db w))" "redeemable (h_crypto H) E b (w_db w) h"
        using R(1) by (auto simp: find_Some_iff)
      show ?thesis
        using assms \<open>body = Some raw\<close> Some p R(1) b ne h
        by (auto simp: ServeMobileHandoffExchange_def Let_def split: option.splits if_splits)
    qed
  qed
qed

lemma handoff_tries_effect:
  assumes "handoff_tries H E user session n d = (code, d')"
  shows "d' = d \<and> code = None \<or> (\<exists>c b u i. code = Some c \<and> bytea_in E c = Some b \<and> uuid_in E user = Some u \<and>
    uuid_in E session = Some i \<and> db_ok d' \<and>
    d' = d\<lparr>handoff_codes := handoff_codes d @ [handoff_row E (sha256 (h_crypto H) b) u i]\<rparr>)"
  using assms
proof (induction n)
  case (Suc n)
  show ?case
  proof (cases "randomMobileHandoffCode (h_crypto H) (32 * (4 - n)) 32")
    case None
    then show ?thesis using Suc.prems by simp
  next
    case (Some c)
    show ?thesis
      using Suc.IH Suc.prems [unfolded handoff_tries.simps Some option.case] by (auto split: option.splits)
  qed
qed simp

lemma redeemed_step:
  assumes "redeemed N w" "handoff_step H N w w'"
  shows "redeemed N w'"
  using assms(2)
proof cases
  case (exchange E r body res)
  from exchange_effect [OF this] show ?thesis
  proof (elim disjE exE conjE)
    fix raw b h i assume "w_db w' = consume_handoff (h_crypto H) E b (w_db w)"
    then show ?thesis using assms(1) by (auto simp: redeemed_def consume_handoff_def dest!: sql_update_in split: if_splits)
  qed (use assms(1) in \<open>simp add: redeemed_def\<close>)
next
  case (create E user session code d)
  from handoff_tries_effect [of H E user session 5 "w_db w" code d] create assms(1) show ?thesis
    by (fastforce simp: createMobileHandoffCode_def redeemed_def handoff_row_def)
next
  case (delete_session p)
  then show ?thesis using assms(1) by (auto simp: redeemed_def delete_sessions_def)
next
  case (elsewhere d)
  then show ?thesis using assms(1) by (simp add: redeemed_def)
qed

interpretation handoffs: invariant_system "handoff_step H N" "redeemed N" for H N
  by unfold_locales (rule redeemed_step)

text \<open>
  C11. A handoff code is good for one login, for the user and session it was made for, and only
  before it expires: the exchange that succeeds found such a code, and after it no sequence of
  requests makes an exchange of the same code succeed again.
\<close>

theorem handoff_single_use:
  assumes "ServeMobileHandoffExchange H E r (Some raw) w = (Reply 200 (t, n), w1)"
    and "bytea_in E (TrimSpace raw) = Some b" "bytea_in E' (TrimSpace raw') = Some b"
    and "reach w1 (handoff_step H (sha256 (h_crypto H) b)) w2"
  shows "(\<exists>h i. h \<in> set (handoff_codes (w_db w)) \<and> hc_code_hash h = sha256 (h_crypto H) b \<and> clock E < hc_expires_at h \<and>
      hc_consumed_at h = None \<and> hc_session_id h = Some i \<and>
      mintSessionToken H (clock E) (hc_user_id h) (super_user (hc_user_id h) (w_db w)) i [AudienceMobile] = Some t) \<and>
    fst (ServeMobileHandoffExchange H E' r' (Some raw') w2) \<noteq> Reply 200 x"
proof -
  from exchange_effect [OF assms(1)] assms(2) obtain h i where h: "h \<in> set (handoff_codes (w_db w))"
    "redeemable (h_crypto H) E b (w_db w) h" "hc_session_id h = Some i"
    "w_db w1 = consume_handoff (h_crypto H) E b (w_db w)" "db_ok (w_db w1)"
    "mintSessionToken H (clock E) (hc_user_id h) (super_user (hc_user_id h) (w_db w)) i [AudienceMobile] = Some t" by auto
  have "distinct (map hc_code_hash (handoff_codes (w_db w1)))"
    using h(5) by (simp add: db_ok_def handoff_codes_ok_def pk_distinct)
  moreover have "map hc_code_hash (handoff_codes (w_db w1)) = map hc_code_hash (handoff_codes (w_db w))"
    unfolding h(4) consume_handoff_def by (simp add: map_sql_update)
  ultimately have "distinct (map hc_code_hash (handoff_codes (w_db w)))" by (simp only:)
  then have u: "q = h" if "q \<in> set (handoff_codes (w_db w))" "hc_code_hash q = sha256 (h_crypto H) b" for q
    using that h(1,2) by (auto simp: redeemable_def distinct_map inj_on_def)
  have "redeemed (sha256 (h_crypto H) b) w1"
    using u h(2,4) by (auto simp: redeemed_def consume_handoff_def dest!: sql_update_in split: if_splits)
  from handoffs.reach_inv [OF assms(4) this] have s: "redeemed (sha256 (h_crypto H) b) w2" .
  have "fst (ServeMobileHandoffExchange H E' r' (Some raw') w2) \<noteq> Reply 200 x"
  proof
    assume "fst (ServeMobileHandoffExchange H E' r' (Some raw') w2) = Reply 200 x"
    then obtain w3 where "ServeMobileHandoffExchange H E' r' (Some raw') w2 = (Reply 200 x, w3)" by (metis prod.collapse)
    from exchange_effect [OF this] assms(3) s show False by (auto simp: redeemable_def redeemed_def)
  qed
  with h show ?thesis by (auto simp: redeemable_def)
qed

text \<open>A token library that signs one set of claims.\<close>

definition token_for :: "sessionClaims \<Rightarrow> crypto" where
  "token_for c = sample_crypto\<lparr>jwt_sign := (\<lambda>k x. if x = c then Some ''token'' else None),
     jwt_parse := (\<lambda>k now t. if t = ''token'' \<and> now < sc_expires_at c + JWTLeeway then Some c else None)\<rparr>"

lemma token_for_laws: "sc_issuer c = Issuer \<Longrightarrow> jwt_laws (token_for c)"
  by (auto simp: jwt_laws_def token_for_def plain_word_def plain_char_def space1_def less_char_def less_eq_char_def
      split: if_splits)

definition phone_claims :: sessionClaims where
  "phone_claims = sample_claims\<lparr>sc_audience := [''mobile''], sc_expires_at := 24 * Hour\<rparr>"

definition handoff_world :: "redis_store world" where
  "handoff_world = sample_world ((so_db sample_sso)\<lparr>handoff_codes := [handoff_row (calm 5 []) (sha256 sample_crypto ''CODE'') ''u1'' ''s1'']\<rparr>)"

theorem handoff_single_use_witness:
  "\<exists>w1. ServeMobileHandoffExchange (sso_handler\<lparr>h_crypto := token_for phone_claims\<rparr>) (calm 9 []) sample_req (Some ''CODE'') handoff_world =
       (Reply 200 (''token'', 86400), w1) \<and>
     (\<forall>x. fst (ServeMobileHandoffExchange (sso_handler\<lparr>h_crypto := token_for phone_claims\<rparr>) (calm 10 []) sample_req (Some '' CODE '') w1)
        \<noteq> Reply 200 x)"
proof -
  let ?H = "sso_handler\<lparr>h_crypto := token_for phone_claims\<rparr>"
  let ?run = "ServeMobileHandoffExchange ?H (calm 9 []) sample_req (Some ''CODE'') handoff_world"
  have f: "fst ?run = Reply 200 (''token'', 86400)" "TrimSpace ''CODE'' = ''CODE''" "TrimSpace '' CODE '' = ''CODE''" by code_simp+
  from f(1) obtain w1 where r: "?run = (Reply 200 (''token'', 86400), w1)" by (metis prod.collapse)
  have "fst (ServeMobileHandoffExchange ?H (calm 10 []) sample_req (Some '' CODE '') w1) \<noteq> Reply 200 x" for x
    using handoff_single_use [OF r, of "''CODE''" "calm 10 []" "'' CODE ''" w1 sample_req x] f(2,3) by (simp add: reach_start)
  with r show ?thesis by blast
qed

section \<open>Users\<close>

text \<open>
  Only the first user of an installation becomes super: a login adds at most one user, super
  exactly when there was none before, and neither it nor any later login changes whether an
  existing user is super, active, or which subject it stands for.
\<close>

theorem only_first_user_super:
  assumes "upsertUser E n subject d = Some ((user, super), d')"
  shows "(users d = [] \<longrightarrow> super) \<and>
    (\<exists>u \<in> set (users d'). u_id u = user \<and> u_external_id u = subject \<and> (u_is_super u \<longleftrightarrow> super)) \<and>
    map (\<lambda>u. (u_id u, u_external_id u, u_is_super u, u_status u)) (users d') =
      map (\<lambda>u. (u_id u, u_external_id u, u_is_super u, u_status u)) (users d) @
      (if \<exists>u \<in> set (users d). u_external_id u = subject then []
       else [(user, subject, users d = [], ''active'')])"
proof (cases "List.find (\<lambda>u. u_external_id u = subject) (users d)")
  case None
  then have "\<not> (\<exists>u \<in> set (users d). u_external_id u = subject)" by (auto simp: find_None_iff)
  with None assms show ?thesis
    by (auto simp: upsertUser_def Let_def new_user_def split: if_splits)
next
  case (Some u)
  then have u: "u \<in> set (users d)" "u_external_id u = subject" by (auto simp: find_Some_iff)
  let ?f = "\<lambda>x. x\<lparr>u_last_login_at := Some (clock E), u_updated_at := clock E\<rparr>"
  have d': "d' = d\<lparr>users := sql_update (\<lambda>x. u_external_id x = subject) ?f (users d)\<rparr>" "user = u_id u" "super \<longleftrightarrow> u_is_super u"
    using assms Some u by (auto simp: upsertUser_def Let_def split: if_splits)
  moreover have "\<exists>x \<in> set (users d'). u_id x = u_id u \<and> u_external_id x = subject \<and> u_is_super x = u_is_super u"
    by (rule bexI [of _ "?f u"]) (use u d'(1) in \<open>auto simp: set_sql_update\<close>)
  moreover have "map (\<lambda>u. (u_id u, u_external_id u, u_is_super u, u_status u)) (users d') =
      map (\<lambda>u. (u_id u, u_external_id u, u_is_super u, u_status u)) (users d)"
    unfolding d'(1) by (simp add: map_sql_update)
  moreover have "users d \<noteq> []" using u(1) by auto
  moreover have "\<exists>u \<in> set (users d). u_external_id u = subject" using u by blast
  ultimately show ?thesis by (simp only: if_True append_Nil2) blast
qed

theorem only_first_user_super_witness:
  "\<exists>d'. upsertUser (calm 9 [''s1'', ''u1'']) 1 ''x1'' empty_db = Some ((''u1'', True), d') \<and>
     map u_is_super (users d') = [True]"
proof -
  have "map_option fst (upsertUser (calm 9 [''s1'', ''u1'']) 1 ''x1'' empty_db) = Some (''u1'', True)" by code_simp
  then obtain d' where d': "upsertUser (calm 9 [''s1'', ''u1'']) 1 ''x1'' empty_db = Some ((''u1'', True), d')" by auto
  have "map u_is_super (users d') = map (\<lambda>(i, x, b, t). b) (map (\<lambda>u. (u_id u, u_external_id u, u_is_super u, u_status u)) (users d'))"
    by simp
  also have "\<dots> = [True]" using only_first_user_super [OF d'] by (simp add: empty_db_def)
  finally have "map u_is_super (users d') = [True]" .
  with d' show ?thesis by (intro exI [of _ d'] conjI)
qed

section \<open>Sessions for other services\<close>

lemma NumericDate_le: "NumericDate t \<le> t"
  using div_mult_mod_eq [of t Second] pos_mod_sign [of Second t] by (simp add: NumericDate_def Second_def)

lemma valid_key_bearer:
  "validInternalServiceKey header key \<Longrightarrow> TrimSpace (TrimPrefix (TrimSpace header) ''Bearer '') = key \<and> key \<noteq> []"
  by (auto simp: validInternalServiceKey_def Let_def split: if_splits)


definition broker_claims :: sessionClaims where
  "broker_claims = sample_claims\<lparr>sc_audience := [''mobile''], sc_id := ''s9''\<rparr>"

definition broker_handler :: "redis_store handler" where
  "broker_handler = sso_handler\<lparr>h_cfg := (h_cfg sso_handler)\<lparr>InternalServiceKey := ''key''\<rparr>, h_crypto := token_for broker_claims\<rparr>"

definition sample_portal :: "db \<Rightarrow> redis_store portal" where
  "sample_portal d = \<lparr>p_world = sample_world d, p_cache = \<lparr>entries = [], flights = []\<rparr>, p_revoked = [], p_profiles = []\<rparr>"


text \<open>
  The machine grant of the connector is accepted as it was issued, and no longer: a token the
  connector obtained authenticates, until the second it expires, as the user of the subject it
  asked for, bound to the configured home and within five minutes, as long as user and home are
  active.
\<close>

theorem rafiki_session_roundtrip:
  assumes "jwt_laws (h_crypto H)" "ServeRafikiSession H E rfc r (Some req) P = (Reply 200 (t, exp), P')"
    and "clock E \<le> now" "now < NumericDate exp" "gen_uuid E 1 \<noteq> []"
    and "\<forall>u \<in> set (users (w_db (p_world P))). u_id u \<noteq> []"
  shows "\<exists>user n super d d' claims. upsertUser E n (TrimSpace (rq_UOASub req)) d = Some ((user, super), d') \<and>
    authenticateBearer (h_crypto H) now (''Bearer '' @ t) (InternalSessionSecret (h_cfg H)) = Inr claims \<and>
    Sub claims = user \<and> SessionID claims = [] \<and> \<not> IsSuper claims \<and> Audience claims = [AudienceMobile] \<and>
    exp \<le> clock E + 5 * Minute \<and> validRafikiDirect (h_cfg H) claims now"
proof -
  obtain x w1 where p: "rate_limit H E 0 (Key [''internal'', ''rafiki-session'']) internalMintSessionLimit Minute (p_world P) =
      (x :: (string \<times> time) response option, w1)" by (rule prod.exhaust)
  have x: "x = None"
    using assms(2) p rate_limit_result(3) [OF p] by (auto simp: ServeRafikiSession_def Let_def on_world_def split: if_splits)
  have cfg: "TrimSpace (RafikiServiceKey (h_cfg H)) \<noteq> []" "RafikiHomeDeviceID (h_cfg H) \<noteq> []"
    using assms(2) by (auto simp: ServeRafikiSession_def Let_def split: if_splits)
  have home: "rq_HomeDeviceID req = RafikiHomeDeviceID (h_cfg H)"
    using assms(2) p x by (auto simp: ServeRafikiSession_def Let_def on_world_def split: if_splits)
  obtain user super d where up: "upsertUser E 1 (TrimSpace (rq_UOASub req)) (w_db w1) = Some ((user, super), d)"
    using assms(2) p x by (auto simp: ServeRafikiSession_def Let_def on_world_def split: if_splits option.splits)
  let ?c = "\<lparr>sc_capability_kind = RafikiDirectCapability, sc_direct_home_id = rq_HomeDeviceID req,
     sc_is_super = False, sc_issuer = Issuer, sc_subject = user, sc_id = [],
     sc_audience = [AudienceMobile], sc_issued_at = Some (NumericDate (clock E)), sc_expires_at = NumericDate exp\<rparr>"
  have t: "jwt_sign (h_crypto H) (InternalSessionSecret (h_cfg H)) ?c = Some t" "exp \<le> clock E + 5 * Minute"
    using assms(2) p x up by (auto simp: ServeRafikiSession_def Let_def on_world_def split: if_splits option.splits)
  have user: "user \<noteq> []"
    using up assms(5,6) rate_limit_result(1) [OF p]
    by (auto simp: upsertUser_def Let_def find_Some_iff split: if_splits option.splits)
  have "now < NumericDate exp + JWTLeeway" using assms(4) by (simp add: JWTLeeway_def Second_def)
  then have pa: "jwt_parse (h_crypto H) (InternalSessionSecret (h_cfg H)) now t = Some ?c" "plain_word t"
    using assms(1) t(1) unfolding jwt_laws_def by auto
  have iat: "\<not> now + jwtIATSkew < NumericDate (clock E)"
    using NumericDate_le [of "clock E"] assms(3) by (simp add: jwtIATSkew_def JWTLeeway_def Second_def)
  let ?claims = "\<lparr>CapabilityKind = RafikiDirectCapability, SessionID = [], Sub = user, IsSuper = False,
    Audience = [AudienceMobile], ExpiresAt = NumericDate exp, DirectHomeID = RafikiHomeDeviceID (h_cfg H)\<rparr>"
  have "authenticateBearer (h_crypto H) now (''Bearer '' @ t) (InternalSessionSecret (h_cfg H)) = Inr ?claims"
    using pa user iat home bearer_token [OF pa(2)]
    by (auto simp: authenticateBearer_def Let_def HasAudience_def plain_word_def)
  moreover have "validRafikiDirect (h_cfg H) ?claims now"
    using cfg user assms(3,4) t(2) NumericDate_le [of exp] by (auto simp: validRafikiDirect_def HasAudience_def)
  ultimately show ?thesis using up t(2) by (intro exI conjI) auto
qed

definition rafiki_claims :: sessionClaims where
  "rafiki_claims = sample_claims\<lparr>sc_capability_kind := RafikiDirectCapability, sc_direct_home_id := ''h1'', sc_id := [],
     sc_audience := [''mobile'']\<rparr>"

definition rafiki_handler :: "redis_store handler" where
  "rafiki_handler = sso_handler\<lparr>h_crypto := token_for rafiki_claims\<rparr>"

theorem rafiki_session_roundtrip_witness:
  "\<exists>t exp P' claims. ServeRafikiSession rafiki_handler (calm 9 [''n'', ''n'']) (\<lambda>s. Some (60 * Second))
       (sample_req\<lparr>authorization := ''Bearer r''\<rparr>)
       (Some \<lparr>rq_UOASub = '' x1'', rq_AuthorizationExpiresAt = ''soon'', rq_HomeDeviceID = ''h1''\<rparr>)
       (sample_portal ((so_db sample_sso)\<lparr>devices := [(mk_device ''h1'' ''u1'' ''linux'')\<lparr>d_direct_home_port := Some 51820\<rparr>]\<rparr>)) =
       (Reply 200 (t, exp), P') \<and>
     authenticateBearer (h_crypto rafiki_handler) (30 * Second) (''Bearer '' @ t) (InternalSessionSecret (h_cfg rafiki_handler)) = Inr claims \<and>
     validRafikiDirect (h_cfg rafiki_handler) claims (30 * Second)"
proof -
  let ?P = "sample_portal ((so_db sample_sso)\<lparr>devices := [(mk_device ''h1'' ''u1'' ''linux'')\<lparr>d_direct_home_port := Some 51820\<rparr>]\<rparr>)"
  let ?run = "ServeRafikiSession rafiki_handler (calm 9 [''n'', ''n'']) (\<lambda>s. Some (60 * Second))
       (sample_req\<lparr>authorization := ''Bearer r''\<rparr>)
       (Some \<lparr>rq_UOASub = '' x1'', rq_AuthorizationExpiresAt = ''soon'', rq_HomeDeviceID = ''h1''\<rparr>) ?P"
  have f: "fst ?run = Reply 200 (''token'', 60 * Second)" "list_all (\<lambda>u. u_id u \<noteq> []) (users (w_db (p_world ?P)))"
    "sc_issuer rafiki_claims = Issuer" "h_crypto rafiki_handler = token_for rafiki_claims" "30 * Second < NumericDate (60 * Second)"
    "clock (calm 9 [''n'', ''n'']) \<le> 30 * Second" "gen_uuid (calm 9 [''n'', ''n'']) 1 \<noteq> []"
    by (code_simp, code_simp, code_simp, simp add: rafiki_handler_def, code_simp+)
  from f(1) obtain P' where r: "?run = (Reply 200 (''token'', 60 * Second), P')" by (metis prod.collapse)
  have l: "jwt_laws (h_crypto rafiki_handler)" unfolding f(4) by (rule token_for_laws [OF f(3)])
  have u: "\<forall>u \<in> set (users (w_db (p_world ?P))). u_id u \<noteq> []" using f(2) by (simp add: list_all_iff)
  from rafiki_session_roundtrip [OF l r f(6,5,7) u] r show ?thesis by blast
qed

section \<open>Profiles\<close>

lemma length_update_le: "length (AList.update k v xs) \<le> Suc (length xs)"
  by (induction xs) auto

lemma length_delete_le: "length (AList.delete k xs) \<le> length xs"
  by (induction xs) auto

lemma profile_cache_bounded:
  assumes "profile H U url_parts now reference vs = (res, vs')" "length vs \<le> 256"
  shows "length vs' \<le> 256"
proof -
  have room: "\<not> 256 \<le> length ks \<Longrightarrow> length (AList.update k v ks) \<le> 256" for k ks and v :: "userProfile \<times> time"
    using length_update_le [of k v ks] by simp
  show ?thesis
    using assms length_delete_le [of reference vs]
    by (auto simp: profile_def Let_def split: option.splits if_splits intro: room)
qed

end
