(* ===== verification/Direct.thy ===== *)
theory Direct
  imports Mobile "HOL-Library.List_Lexorder"
begin

text \<open>
  Direct peers (\<open>internal/direct\<close>): a phone and a home machine learn each other's WireGuard key and
  address from the control plane and then talk without it. The handlers register the endpoint of a
  home machine, compute which peers a device may see (\<open>snapshot\<close>, with the leases of
  \<open>direct_home_grants\<close>), and stream that view for as long as the caller's authorization lasts.
\<close>

section \<open>Configuration of a peer\<close>

record Peer =
  pe_ValidUntil :: "time option"
  pe_DeviceID :: string
  pe_PublicKey :: string
  pe_OverlayIP :: string
  pe_Endpoint :: string
  pe_ServicePort :: int

text \<open>Times are kept as such where the code prints them; a zero \<open>NextExpiry\<close> is \<^const>\<open>None\<close>.\<close>

record Snapshot =
  sn_AuthorizationExpiresAt :: time
  sn_NextExpiry :: "time option"
  sn_OverlayIP :: string
  sn_Peers :: "Peer list"
  sn_WGConfig :: string

definition ValidateEndpoint :: "string \<Rightarrow> bool" where
  "ValidateEndpoint endpoint =
     (case SplitHostPort endpoint of None \<Rightarrow> False
      | Some (host, port) \<Rightarrow>
          (case (ParseAddr host, Atoi port) of
             (Some ip, Some n) \<Rightarrow> \<not> (n < 1 \<or> n > 65535 \<or> \<not> IsGlobalUnicast ip \<or> IsLoopback ip)
           | _ \<Rightarrow> False))"

text \<open>\<open>base64.StdEncoding.DecodeString\<close> skips line breaks.\<close>

definition DecodeString :: "string \<Rightarrow> nat list option" where
  "DecodeString s = b64_decode (filter (\<lambda>c. c \<noteq> CHR 0x0D \<and> c \<noteq> CHR 0x0A) s)"

definition nl :: string where "nl = [CHR 0x0A]"

definition peer_section :: "Peer \<Rightarrow> addr \<Rightarrow> string" where
  "peer_section p route =
     nl @ ''[Peer]'' @ nl @ ''PublicKey = '' @ pe_PublicKey p @ nl @ ''AllowedIPs = '' @ addr_string route @ ''/32'' @ nl @
     (if pe_Endpoint p \<noteq> [] then ''Endpoint = '' @ pe_Endpoint p @ nl @ ''PersistentKeepalive = 25'' @ nl else [])"

fun render_peers :: "addr \<Rightarrow> string \<Rightarrow> string list \<Rightarrow> Peer list \<Rightarrow> string option" where
  "render_peers addr hubKey seen [] = Some []"
| "render_peers addr hubKey seen (p # ps) =
     (case (DecodeString (pe_PublicKey p), ParseAddr (pe_OverlayIP p)) of
        (Some key, Some route) \<Rightarrow>
          if length key \<noteq> 32 \<or> pe_PublicKey p = hubKey \<or> \<not> Is4 route \<or> route = addr \<or> pe_OverlayIP p \<in> set seen then None
          else if pe_Endpoint p \<noteq> [] \<and> \<not> ValidateEndpoint (pe_Endpoint p) then None
          else map_option (\<lambda>out. peer_section p route @ out) (render_peers addr hubKey (pe_OverlayIP p # seen) ps)
      | _ \<Rightarrow> None)"

definition Render :: "string \<Rightarrow> Peer list \<Rightarrow> string \<Rightarrow> string option" where
  "Render ip peers hubKey =
     (case ParseAddr ip of None \<Rightarrow> None
      | Some addr \<Rightarrow>
          if \<not> Is4 addr then None
          else map_option (\<lambda>out. ''[Interface]'' @ nl @ ''Address = '' @ addr_string addr @ ''/32'' @ nl @ ''MTU = 1280'' @ nl @ out)
                 (render_peers addr hubKey [] peers))"

section \<open>Registration of a home machine\<close>

record registerRequest =
  rg_Endpoint :: string
  rg_ServicePort :: int

definition registrable :: "string \<Rightarrow> string \<Rightarrow> device \<Rightarrow> bool" where
  "registrable dev owner x \<longleftrightarrow> d_id x = dev \<and> d_owner_user_id x = owner \<and> d_status x = ''active'' \<and> \<not> is_mobile x"

definition registered_row :: "env \<Rightarrow> string \<Rightarrow> int \<Rightarrow> int \<Rightarrow> device \<Rightarrow> device" where
  "registered_row E host n servicePort x = x\<lparr>d_external_endpoint_host := Some host, d_external_endpoint_port := Some n,
     d_direct_home_port := Some servicePort, d_updated_at := clock E, d_last_seen_at := Some (clock E)\<rparr>"

definition register :: "'r handler \<Rightarrow> env \<Rightarrow> nat \<Rightarrow> string \<Rightarrow> Claims \<Rightarrow> registerRequest option \<Rightarrow> 'r world \<Rightarrow>
    unit response \<times> 'r world" where
  "register H E i dev claims body w =
     (case body of None \<Rightarrow> (Error 400 ''invalid direct endpoint or service port'', w)
      | Some req \<Rightarrow>
          if \<not> ValidateEndpoint (rg_Endpoint req) \<or> rg_ServicePort req < 1 \<or> rg_ServicePort req > 65535
          then (Error 400 ''invalid direct endpoint or service port'', w)
          else (case SplitHostPort (rg_Endpoint req) of None \<Rightarrow> (Error 400 ''invalid endpoint'', w)
            | Some (host, port) \<Rightarrow>
                (case Atoi port of None \<Rightarrow> (Error 400 ''invalid port'', w)
                 | Some n \<Rightarrow>
                     (case (uuid_in E dev, uuid_in E (Sub claims)) of
                        (Some d, Some u) \<Rightarrow>
                          let p = registrable d u in
                          (case statement (fails E i) ((w_db w)\<lparr>devices := sql_update p (registered_row E host n (rg_ServicePort req))
                              (devices (w_db w))\<rparr>) of
                             None \<Rightarrow> (Error 503 ''registration unavailable'', w)
                           | Some db \<Rightarrow>
                               if sql_count p (devices (w_db w)) \<noteq> 1 then (Error 404 ''device unavailable'', w\<lparr>w_db := db\<rparr>)
                               else (Reply 204 (), w\<lparr>w_db := db\<rparr>))
                      | _ \<Rightarrow> (Error 503 ''registration unavailable'', w)))))"

section \<open>The peers a device may see\<close>

text \<open>A lease between the caller's device \<open>self\<close> and another device.\<close>

definition lease_between :: "bool \<Rightarrow> string \<Rightarrow> string \<Rightarrow> home_grant \<Rightarrow> bool" where
  "lease_between mobile self other g \<longleftrightarrow>
     (if mobile then hg_mobile g = self \<and> hg_home g = other else hg_home g = self \<and> hg_mobile g = other)"

definition live_leases :: "env \<Rightarrow> bool \<Rightarrow> string \<Rightarrow> string \<Rightarrow> db \<Rightarrow> time list" where
  "live_leases E mobile self other d =
     map hg_expires_at (filter (\<lambda>g. clock E < hg_expires_at g \<and> lease_between mobile self other g) (home_grants d))"

text \<open>\<open>min\<close> of SQL: NULL on no rows.\<close>

definition sql_min :: "time list \<Rightarrow> time option" where
  "sql_min ts = (case ts of [] \<Rightarrow> None | t # r \<Rightarrow> Some (fold min r t))"

definition own_device :: "string \<Rightarrow> device \<Rightarrow> bool" where
  "own_device sub x \<longleftrightarrow> d_owner_user_id x = sub \<and> \<not> d_direct_scoped x"

text \<open>Neither end is the home machine of the connector (\<open>rafiki\<close>, when one is configured).\<close>

definition off_rafiki :: "string option \<Rightarrow> string \<Rightarrow> string \<Rightarrow> bool" where
  "off_rafiki rafiki self other = (case rafiki of None \<Rightarrow> True | Some h \<Rightarrow> other \<noteq> h \<and> self \<noteq> h)"

definition peer_visible :: "env \<Rightarrow> string \<Rightarrow> string \<Rightarrow> bool \<Rightarrow> string \<Rightarrow> string option \<Rightarrow> bool \<Rightarrow> db \<Rightarrow> device \<Rightarrow> bool" where
  "peer_visible E sub self mobile directHome rafiki scoped d x \<longleftrightarrow>
     d_status x = ''active'' \<and> d_id x \<noteq> self \<and> d_overlay_ip x \<noteq> None \<and>
     (own_device sub x \<or> live_leases E mobile self (d_id x) d \<noteq> []) \<and>
     (\<not> mobile \<or> directHome = [] \<or> d_id x = directHome) \<and>
     (off_rafiki rafiki self (d_id x) \<or>
      mobile \<and> scoped \<and> rafiki = Some (d_id x) \<and> live_leases E True self (d_id x) d \<noteq> [] \<or>
      \<not> mobile \<and> rafiki = Some self \<and> d_direct_scoped x \<and> live_leases E False self (d_id x) d \<noteq> []) \<and>
     (mobile \<and> d_direct_home_port x \<noteq> None \<or> \<not> mobile \<and> is_mobile x)"

definition lease_end :: "env \<Rightarrow> string \<Rightarrow> string \<Rightarrow> bool \<Rightarrow> string option \<Rightarrow> db \<Rightarrow> device \<Rightarrow> time option" where
  "lease_end E sub self mobile rafiki d x =
     (if own_device sub x \<and> off_rafiki rafiki self (d_id x) then None
      else sql_min (live_leases E mobile self (d_id x) d))"

definition direct_rows :: "env \<Rightarrow> string \<Rightarrow> string \<Rightarrow> bool \<Rightarrow> string \<Rightarrow> string option \<Rightarrow> bool \<Rightarrow> db \<Rightarrow>
    (device \<times> device_key) list" where
  "direct_rows E sub self mobile directHome rafiki scoped d =
     sort_key (\<lambda>(x, k). d_id x)
       [(x, k). x \<leftarrow> devices d, k \<leftarrow> device_keys d, k_device_id k = d_id x \<and> k_state k = ''active'' \<and>
          peer_visible E sub self mobile directHome rafiki scoped d x]"

definition host_text :: "device \<Rightarrow> string" where
  "host_text x = (case d_overlay_ip x of None \<Rightarrow> [] | Some a \<Rightarrow> addr_string a)"

definition row_peer :: "env \<Rightarrow> string \<Rightarrow> string \<Rightarrow> bool \<Rightarrow> string option \<Rightarrow> db \<Rightarrow> device \<times> device_key \<Rightarrow> Peer" where
  "row_peer E sub self mobile rafiki d r = (case r of (x, k) \<Rightarrow>
     \<lparr>pe_ValidUntil = lease_end E sub self mobile rafiki d x, pe_DeviceID = d_id x, pe_PublicKey = k_wg_public_key k,
      pe_OverlayIP = host_text x,
      pe_Endpoint = (if mobile then JoinHostPort (case d_external_endpoint_host x of None \<Rightarrow> [] | Some h \<Rightarrow> h)
                       (Itoa (case d_external_endpoint_port x of None \<Rightarrow> 0 | Some p \<Rightarrow> p)) else []),
      pe_ServicePort = (case d_direct_home_port x of None \<Rightarrow> 0 | Some p \<Rightarrow> p)\<rparr>)"

text \<open>The row of the caller's own device, or of a scoped one when the token is a direct-home capability.\<close>

definition self_row :: "string \<Rightarrow> string \<Rightarrow> string \<Rightarrow> db \<Rightarrow> device option" where
  "self_row self sub directHome d =
     List.find (\<lambda>x. d_id x = self \<and> d_owner_user_id x = sub \<and> d_status x = ''active'' \<and> d_overlay_ip x \<noteq> None \<and>
       (directHome = [] \<or> d_direct_scoped x) \<and>
       list_ex (\<lambda>k. k_device_id k = d_id x \<and> k_state k = ''active'') (device_keys d)) (devices d)"

definition next_expiry :: "Peer list \<Rightarrow> time option" where
  "next_expiry ps = sql_min (List.map_filter pe_ValidUntil ps)"

text \<open>The home machine of the connector, which the query casts to a UUID.\<close>

definition rafiki_home :: "Config \<Rightarrow> env \<Rightarrow> string option option" where
  "rafiki_home cfg E = (if RafikiHomeDeviceID cfg = [] then Some None else map_option Some (uuid_in E (RafikiHomeDeviceID cfg)))"

definition snapshot_peers :: "env \<Rightarrow> Claims \<Rightarrow> string option \<Rightarrow> db \<Rightarrow> device \<Rightarrow> Peer list" where
  "snapshot_peers E claims rafiki d me =
     filter (\<lambda>p. is_mobile me \<longrightarrow> ValidateEndpoint (pe_Endpoint p))
       (map (row_peer E (d_owner_user_id me) (d_id me) (is_mobile me) rafiki d)
         (direct_rows E (d_owner_user_id me) (d_id me) (is_mobile me) (DirectHomeID claims) rafiki (d_direct_scoped me) d))"

definition snapshot :: "'r handler \<Rightarrow> env \<Rightarrow> nat \<Rightarrow> string \<Rightarrow> Claims \<Rightarrow> db \<Rightarrow> Snapshot option" where
  "snapshot H E i dev claims d =
     (case (uuid_in E dev, uuid_in E (Sub claims)) of
        (Some self, Some sub) \<Rightarrow>
          (case (if fails E i then None else self_row self sub (DirectHomeID claims) d) of None \<Rightarrow> None
           | Some me \<Rightarrow>
               if HasAudience claims AudienceMobile \<and> \<not> HasAudience claims AudienceAdmin \<and> \<not> is_mobile me then None
               else if \<not> is_mobile me \<and> d_direct_home_port me = None then None
               else (case (if fails E (i + 1) then None else rafiki_home (h_cfg H) E) of None \<Rightarrow> None
                 | Some rafiki \<Rightarrow>
                     let peers = snapshot_peers E claims rafiki d me in
                     map_option (\<lambda>cfg. \<lparr>sn_AuthorizationExpiresAt = ExpiresAt claims, sn_NextExpiry = next_expiry peers,
                         sn_OverlayIP = host_text me, sn_Peers = peers, sn_WGConfig = cfg\<rparr>)
                       (Render (host_text me) peers (WGServerPublicKey (h_cfg H)))))
      | _ \<Rightarrow> None)"

section \<open>The stream\<close>

definition direct_slots :: nat where "direct_slots = 32"

text \<open>\<open>INSERT \<dots> ON CONFLICT (mobile_device_id, home_device_id) DO UPDATE\<close>.\<close>

definition upsert_grant :: "string \<Rightarrow> string \<Rightarrow> time \<Rightarrow> db \<Rightarrow> db" where
  "upsert_grant m h t d = d\<lparr>home_grants :=
     (if list_ex (\<lambda>g. hg_mobile g = m \<and> hg_home g = h) (home_grants d)
      then sql_update (\<lambda>g. hg_mobile g = m \<and> hg_home g = h) (\<lambda>g. g\<lparr>hg_expires_at := t\<rparr>) (home_grants d)
      else home_grants d @ [\<lparr>hg_mobile = m, hg_home = h, hg_expires_at = t\<rparr>])\<rparr>"

text \<open>What is sent is the snapshot without \<open>NextExpiry\<close>, which has no JSON name.\<close>

definition json_view :: "Snapshot \<Rightarrow> Snapshot" where
  "json_view s = s\<lparr>sn_NextExpiry := None\<rparr>"

text \<open>
  A wake-up of the loop: a notification of the database, the deadline, or the end of the
  connection; with the database and the environment at that moment.
\<close>

datatype wake = Notification | DeadlineExceeded | Disconnected

record tick =
  tk_wake :: wake
  tk_env :: env
  tk_db :: db

text \<open>
  The loop from a snapshot taken in \<open>E\<close>: the messages written, each with its time. Writing is call
  20 of an environment; the loop ends when it fails, with the connection, at the end of the
  authorization and when the device has no snapshot any more. No tick left: it is still waiting.
\<close>

definition stream_news :: "Snapshot option \<Rightarrow> env \<Rightarrow> Snapshot \<Rightarrow> (time \<times> Snapshot) list" where
  "stream_news prev E snap = (if Some (json_view snap) \<noteq> prev then [(clock E, json_view snap)] else [])"

fun stream_loop :: "'r handler \<Rightarrow> string \<Rightarrow> Claims \<Rightarrow> Snapshot option \<Rightarrow> env \<Rightarrow> Snapshot \<Rightarrow> tick list \<Rightarrow> (time \<times> Snapshot) list" where
  "stream_loop H dev claims prev E snap [] =
     (if stream_news prev E snap \<noteq> [] \<and> fails E 20 then [] else stream_news prev E snap)"
| "stream_loop H dev claims prev E snap (t # rest) =
     (if stream_news prev E snap \<noteq> [] \<and> fails E 20 then []
      else stream_news prev E snap @
        (if tk_wake t = Disconnected \<or> ExpiresAt claims \<le> clock (tk_env t) then []
         else (case snapshot H (tk_env t) 0 dev claims (tk_db t) of None \<Rightarrow> []
               | Some s \<Rightarrow> stream_loop H dev claims (Some (json_view snap)) (tk_env t) s rest)))"

text \<open>
  \<open>stream\<close> with \<open>used\<close> of the slots taken: an answer, or the messages of the socket. The deadline of
  the context is the end of the authorization, so opening the listener fails past it.
\<close>

definition stream_admit :: "'r handler \<Rightarrow> env \<Rightarrow> nat \<Rightarrow> string \<Rightarrow> Claims \<Rightarrow> db \<Rightarrow> ((nat \<times> string) + Snapshot) \<times> db" where
  "stream_admit H E used dev claims d =
     (if direct_slots \<le> used then (Inl (503, ''too many connections''), d)
      else if ExpiresAt claims \<le> clock E \<or> fails E 10 \<or> fails E 11 then (Inl (503, ''events unavailable''), d)
      else (case snapshot H E 12 dev claims d of None \<Rightarrow> (Inl (404, ''device unavailable''), d)
        | Some s \<Rightarrow>
            if DirectHomeID claims = [] then (Inr s, d)
            else (case (uuid_in E dev, uuid_in E (DirectHomeID claims)) of
                (Some m, Some h) \<Rightarrow>
                  (case statement (fails E 14) (upsert_grant m h (ExpiresAt claims) d) of
                     None \<Rightarrow> (Inl (503, ''direct grant unavailable''), d)
                   | Some d' \<Rightarrow>
                       (case snapshot H E 15 dev claims d' of None \<Rightarrow> (Inl (404, ''device unavailable''), d')
                        | Some s' \<Rightarrow> (Inr s', d')))
              | _ \<Rightarrow> (Inl (503, ''direct grant unavailable''), d))))"

definition stream :: "'r handler \<Rightarrow> env \<Rightarrow> nat \<Rightarrow> string \<Rightarrow> Claims \<Rightarrow> tick list \<Rightarrow> 'r world \<Rightarrow>
    (time \<times> Snapshot) list response \<times> 'r world" where
  "stream H E used dev claims ticks w =
     (case stream_admit H E used dev claims (w_db w) of
        (Inl (code, msg), d) \<Rightarrow> (Error code msg, w\<lparr>w_db := d\<rparr>)
      | (Inr s, d) \<Rightarrow> (Reply 101 (if fails E 17 then [] else stream_loop H dev claims None E s ticks), w\<lparr>w_db := d\<rparr>))"

section \<open>Authentication of a home machine\<close>

definition device_auth_limit :: int where "device_auth_limit = 20"

definition device_claims :: "env \<Rightarrow> string \<Rightarrow> Claims" where
  "device_claims E owner = \<lparr>CapabilityKind = [], SessionID = [], Sub = owner, IsSuper = False,
     Audience = [AudienceAdmin], ExpiresAt = clock E + 24 * Hour, DirectHomeID = []\<rparr>"

definition deviceAuthenticated :: "'r handler \<Rightarrow> env \<Rightarrow> string \<Rightarrow> (Claims \<Rightarrow> 'r world \<Rightarrow> 'a response \<times> 'r world) \<Rightarrow>
    http_req \<Rightarrow> 'r world \<Rightarrow> 'a response \<times> 'r world" where
  "deviceAuthenticated H E dev nxt r w =
     (if (case w_limiter w of NilLimiter \<Rightarrow> True | _ \<Rightarrow> False) then (Error 503 ''authentication unavailable'', w)
      else case limiter_Allow (h_redis H) (fails E 0) (Key [''direct'', ''device-auth'', RateLimitIP (client_ip H r)])
         device_auth_limit Minute (clock E) (w_limiter w) of
        (Inl e, l) \<Rightarrow> (Error 429 ''authentication rate limited'', w\<lparr>w_limiter := l\<rparr>)
      | (Inr dec, l) \<Rightarrow>
          let w1 = w\<lparr>w_limiter := l\<rparr>; provided = TrimPrefix (authorization r) ''Bearer '' in
          if \<not> Allowed dec then (Error 429 ''authentication rate limited'', w1)
          else if provided = authorization r \<or> length provided > 128 then (Error 401 ''unauthorized'', w1)
          else (case (if fails E 1 then None else Option.bind (uuid_in E dev)
                   (\<lambda>i. List.find (\<lambda>x. d_id x = i \<and> d_status x = ''active'' \<and> \<not> is_mobile x) (devices (w_db w1)))) of
                  None \<Rightarrow> (Error 401 ''unauthorized'', w1)
                | Some x \<Rightarrow>
                    if \<not> bcrypt_ok (h_crypto H) (d_credential_hash x) provided then (Error 401 ''unauthorized'', w1)
                    else nxt (device_claims E (d_owner_user_id x)) w1))"

end
