(* ===== verification/Direct_Safety.thy ===== *)
theory Direct_Safety
  imports Direct
begin

text \<open>
  What the direct peers guarantee: a device sees only its owner's devices and those it holds a
  running lease with, a stream says nothing past the caller's authorization, a lease is written
  only for the caller's own scoped device, and a rendered configuration routes one address per
  peer, as long as no endpoint carries a line break, which the check of endpoints lets through.
\<close>

section \<open>Routes of a configuration\<close>

text \<open>The values of the \<open>AllowedIPs\<close> lines, as WireGuard reads the text.\<close>

definition allowed_routes :: "string \<Rightarrow> string list" where
  "allowed_routes cfg = map (drop 13) (filter (\<lambda>l. take 13 l = ''AllowedIPs = '') (Split cfg (CHR 0x0A)))"

definition one_line :: "string \<Rightarrow> bool" where
  "one_line s \<longleftrightarrow> CHR 0x0A \<notin> set s"

lemma routes_line:
  "one_line a \<Longrightarrow> allowed_routes (a @ nl @ b) =
     (if take 13 a = ''AllowedIPs = '' then [drop 13 a] else []) @ allowed_routes b"
  by (simp add: allowed_routes_def one_line_def nl_def Split_append)

lemma one_line_simps [simp]:
  "one_line []" "one_line (c # s) \<longleftrightarrow> c \<noteq> CHR 0x0A \<and> one_line s" "one_line (s @ t) \<longleftrightarrow> one_line s \<and> one_line t"
  by (auto simp: one_line_def)

lemma one_line_digits: "list_all is_digit s \<Longrightarrow> one_line s"
  by (auto simp: one_line_def list_all_iff is_digit_code)

lemma one_line_v4 [simp]: "one_line (v4_string w)"
  using one_line_digits [OF dec_nat_digits] by (simp add: v4_string_def v4_bytes_def)

lemma routes_section:
  assumes "one_line (pe_PublicKey p)" "one_line (pe_Endpoint p)"
  shows "allowed_routes (peer_section p (IPv4 w) @ out) = (v4_string w @ ''/32'') # allowed_routes out"
proof -
  have "allowed_routes (nl @ b) = allowed_routes b" for b using routes_line [of "[]" b] by simp
  moreover have "allowed_routes (''[Peer]'' @ nl @ b) = allowed_routes b" for b
    using routes_line [of "''[Peer]''" b] by simp
  moreover have "allowed_routes ((''PublicKey = '' @ pe_PublicKey p) @ nl @ b) = allowed_routes b" for b
    using routes_line [of "''PublicKey = '' @ pe_PublicKey p" b] assms by simp
  moreover have "allowed_routes ((''AllowedIPs = '' @ v4_string w @ ''/32'') @ nl @ b) = (v4_string w @ ''/32'') # allowed_routes b" for b
    using routes_line [of "''AllowedIPs = '' @ v4_string w @ ''/32''" b] by simp
  moreover have "allowed_routes ((''Endpoint = '' @ pe_Endpoint p) @ nl @ b) = allowed_routes b" for b
    using routes_line [of "''Endpoint = '' @ pe_Endpoint p" b] assms by simp
  moreover have "allowed_routes (''PersistentKeepalive = 25'' @ nl @ b) = allowed_routes b" for b
    using routes_line [of "''PersistentKeepalive = 25''" b] by simp
  ultimately show ?thesis unfolding peer_section_def by (simp only: append_assoc append.simps addr_string.simps if_distribR split: if_splits) simp
qed

lemma render_peers_routes:
  assumes "render_peers addr hub seen ps = Some out" "\<forall>p \<in> set ps. one_line (pe_PublicKey p) \<and> one_line (pe_Endpoint p)"
  shows "\<exists>ws. allowed_routes out = map (\<lambda>w. v4_string w @ ''/32'') ws \<and> map (\<lambda>p. ParseAddr (pe_OverlayIP p)) ps = map (Some \<circ> IPv4) ws \<and>
    distinct (map pe_OverlayIP ps) \<and> set seen \<inter> set (map pe_OverlayIP ps) = {} \<and> addr \<notin> IPv4 ` set ws \<and>
    hub \<notin> set (map pe_PublicKey ps)"
  using assms
proof (induction ps arbitrary: seen out)
  case Nil
  then show ?case by (simp add: allowed_routes_def)
next
  case (Cons p ps)
  from Cons.prems(1) obtain key route out' where o: "DecodeString (pe_PublicKey p) = Some key" "ParseAddr (pe_OverlayIP p) = Some route"
    "pe_PublicKey p \<noteq> hub" "Is4 route" "route \<noteq> addr" "pe_OverlayIP p \<notin> set seen"
    "render_peers addr hub (pe_OverlayIP p # seen) ps = Some out'" "out = peer_section p route @ out'"
    by (auto split: option.splits if_splits)
  then obtain w where w: "route = IPv4 w" by (cases route) auto
  from Cons.IH [OF o(7)] Cons.prems(2) obtain ws where
    ws: "allowed_routes out' = map (\<lambda>w. v4_string w @ ''/32'') ws" "map (\<lambda>p. ParseAddr (pe_OverlayIP p)) ps = map (Some \<circ> IPv4) ws"
    "distinct (map pe_OverlayIP ps)" "set (pe_OverlayIP p # seen) \<inter> set (map pe_OverlayIP ps) = {}" "addr \<notin> IPv4 ` set ws"
    "hub \<notin> set (map pe_PublicKey ps)" by auto
  have "allowed_routes out = map (\<lambda>w. v4_string w @ ''/32'') (w # ws)"
    using routes_section [of p w out'] Cons.prems(2) o(8) w ws(1) by simp
  with ws o w show ?case by (intro exI [of _ "w # ws"]) auto
qed


section \<open>Who sees whom\<close>

text \<open>The caller's device of a snapshot, and that a listed peer may be seen by it.\<close>

definition caller_device :: "env \<Rightarrow> string \<Rightarrow> Claims \<Rightarrow> db \<Rightarrow> device \<Rightarrow> bool" where
  "caller_device E dev claims d me \<longleftrightarrow> me \<in> set (devices d) \<and> uuid_in E dev = Some (d_id me) \<and>
     uuid_in E (Sub claims) = Some (d_owner_user_id me) \<and> d_status me = ''active'' \<and>
     (DirectHomeID claims = [] \<or> d_direct_scoped me)"

definition running_lease :: "env \<Rightarrow> db \<Rightarrow> device \<Rightarrow> device \<Rightarrow> time \<Rightarrow> bool" where
  "running_lease E d me x t \<longleftrightarrow> clock E < t \<and>
     (\<exists>g \<in> set (home_grants d). hg_expires_at g = t \<and>
        (if is_mobile me then hg_mobile g = d_id me \<and> hg_home g = d_id x else hg_home g = d_id me \<and> hg_mobile g = d_id x))"

definition authorized_peer :: "Config \<Rightarrow> env \<Rightarrow> Claims \<Rightarrow> db \<Rightarrow> device \<Rightarrow> Peer \<Rightarrow> bool" where
  "authorized_peer cfg E claims d me p \<longleftrightarrow>
     (\<exists>x \<in> set (devices d). \<exists>k \<in> set (device_keys d).
        pe_DeviceID p = d_id x \<and> pe_PublicKey p = k_wg_public_key k \<and> k_device_id k = d_id x \<and> k_state k = ''active'' \<and>
        d_status x = ''active'' \<and> d_id x \<noteq> d_id me \<and>
        (is_mobile me \<longrightarrow> d_direct_home_port x \<noteq> None \<and> ValidateEndpoint (pe_Endpoint p) \<and>
           (DirectHomeID claims = [] \<or> d_id x = DirectHomeID claims)) \<and>
        (\<not> is_mobile me \<longrightarrow> is_mobile x \<and> d_direct_home_port me \<noteq> None) \<and>
        (case pe_ValidUntil p of
           None \<Rightarrow> d_owner_user_id x = d_owner_user_id me \<and> \<not> d_direct_scoped x \<and>
             (\<forall>h. uuid_in E (RafikiHomeDeviceID cfg) = Some h \<and> RafikiHomeDeviceID cfg \<noteq> [] \<longrightarrow> d_id x \<noteq> h \<and> d_id me \<noteq> h)
         | Some t \<Rightarrow> running_lease E d me x t \<and>
             (\<forall>h. uuid_in E (RafikiHomeDeviceID cfg) = Some h \<and> RafikiHomeDeviceID cfg \<noteq> [] \<longrightarrow>
                (d_id x = h \<longrightarrow> is_mobile me \<and> d_direct_scoped me) \<and> (d_id me = h \<longrightarrow> d_direct_scoped x))))"

lemma sql_min_Some: "sql_min ts = Some t \<Longrightarrow> ts \<noteq> [] \<and> t = Min (set ts)"
  by (auto simp: sql_min_def Min.set_eq_fold simp del: set_simps split: list.splits)

lemma sql_min_in: "sql_min ts = Some t \<Longrightarrow> t \<in> set ts"
  using Min_in [of "set ts"] by (auto dest: sql_min_Some)

lemma sql_min_None: "sql_min ts = None \<longleftrightarrow> ts = []"
  by (auto simp: sql_min_def split: list.splits)

lemma live_leases_running:
  assumes "t \<in> set (live_leases E (is_mobile me) (d_id me) (d_id x) d)"
  shows "running_lease E d me x t"
  using assms by (auto simp: live_leases_def running_lease_def lease_between_def split: if_splits)

lemma snapshot_SomeD:
  assumes "snapshot H E i dev claims d = Some s"
  obtains me rafiki where "caller_device E dev claims d me" "rafiki_home (h_cfg H) E = Some rafiki"
    "is_mobile me \<or> d_direct_home_port me \<noteq> None" "sn_Peers s = snapshot_peers E claims rafiki d me"
    "sn_NextExpiry s = next_expiry (sn_Peers s)"
    "Render (sn_OverlayIP s) (sn_Peers s) (WGServerPublicKey (h_cfg H)) = Some (sn_WGConfig s)"
proof -
  from assms obtain self sub me rafiki where me: "uuid_in E dev = Some self" "uuid_in E (Sub claims) = Some sub"
    "self_row self sub (DirectHomeID claims) d = Some me" "is_mobile me \<or> d_direct_home_port me \<noteq> None"
    "rafiki_home (h_cfg H) E = Some rafiki"
    by (auto simp: snapshot_def Let_def split: option.splits if_splits)
  then have c: "caller_device E dev claims d me" by (auto simp: self_row_def caller_device_def find_Some_iff)
  from assms me have "sn_Peers s = snapshot_peers E claims rafiki d me" "sn_NextExpiry s = next_expiry (sn_Peers s)"
    "Render (sn_OverlayIP s) (sn_Peers s) (WGServerPublicKey (h_cfg H)) = Some (sn_WGConfig s)"
    by (auto simp: snapshot_def Let_def split: if_splits)
  with that c me(4,5) show thesis by blast
qed

lemma visible_row:
  "(x, k) \<in> set (direct_rows E sub self mobile dh rafiki scoped d) \<longleftrightarrow>
     x \<in> set (devices d) \<and> k \<in> set (device_keys d) \<and> k_device_id k = d_id x \<and> k_state k = ''active'' \<and>
     peer_visible E sub self mobile dh rafiki scoped d x"
  by (auto simp: direct_rows_def)

lemma row_peer_authorized:
  assumes me: "caller_device E dev claims d me" "is_mobile me \<or> d_direct_home_port me \<noteq> None"
    and rafiki: "rafiki_home cfg E = Some rafiki"
    and row: "(x, k) \<in> set (direct_rows E (d_owner_user_id me) (d_id me) (is_mobile me) (DirectHomeID claims) rafiki (d_direct_scoped me) d)"
    and p: "p = row_peer E (d_owner_user_id me) (d_id me) (is_mobile me) rafiki d (x, k)"
    and ep: "is_mobile me \<longrightarrow> ValidateEndpoint (pe_Endpoint p)"
  shows "authorized_peer cfg E claims d me p"
proof -
  note v = row [unfolded visible_row peer_visible_def]
  have u: "pe_ValidUntil p = lease_end E (d_owner_user_id me) (d_id me) (is_mobile me) rafiki d x"
    and pid: "pe_DeviceID p = d_id x" "pe_PublicKey p = k_wg_public_key k" by (simp_all add: p row_peer_def)
  have "case pe_ValidUntil p of
           None \<Rightarrow> d_owner_user_id x = d_owner_user_id me \<and> \<not> d_direct_scoped x \<and>
             (\<forall>h. uuid_in E (RafikiHomeDeviceID cfg) = Some h \<and> RafikiHomeDeviceID cfg \<noteq> [] \<longrightarrow> d_id x \<noteq> h \<and> d_id me \<noteq> h)
         | Some t \<Rightarrow> running_lease E d me x t \<and>
             (\<forall>h. uuid_in E (RafikiHomeDeviceID cfg) = Some h \<and> RafikiHomeDeviceID cfg \<noteq> [] \<longrightarrow>
                (d_id x = h \<longrightarrow> is_mobile me \<and> d_direct_scoped me) \<and> (d_id me = h \<longrightarrow> d_direct_scoped x))"
  proof (cases "own_device (d_owner_user_id me) x \<and> off_rafiki rafiki (d_id me) (d_id x)")
    case True
    then show ?thesis using rafiki by (auto simp: u lease_end_def own_device_def off_rafiki_def rafiki_home_def split: option.splits if_splits)
  next
    case False
    have "live_leases E (is_mobile me) (d_id me) (d_id x) d \<noteq> []" using False v by auto
    then obtain t where t: "sql_min (live_leases E (is_mobile me) (d_id me) (d_id x) d) = Some t"
      using sql_min_None by (metis not_None_eq)
    then have "pe_ValidUntil p = Some t" using False by (auto simp: u lease_end_def)
    moreover have "running_lease E d me x t" using live_leases_running sql_min_in [OF t] by blast
    moreover have "\<forall>h. uuid_in E (RafikiHomeDeviceID cfg) = Some h \<and> RafikiHomeDeviceID cfg \<noteq> [] \<longrightarrow>
        (d_id x = h \<longrightarrow> is_mobile me \<and> d_direct_scoped me) \<and> (d_id me = h \<longrightarrow> d_direct_scoped x)"
      using v rafiki by (auto simp: off_rafiki_def rafiki_home_def split: if_splits)
    ultimately show ?thesis by simp
  qed
  then show ?thesis
    unfolding authorized_peer_def using v me(2) ep by (intro bexI [of _ x] bexI [of _ k]) (auto simp: pid)
qed

lemma snapshot_authorized:
  assumes "snapshot H E i dev claims d = Some s"
  obtains me where "caller_device E dev claims d me" "\<forall>p \<in> set (sn_Peers s). authorized_peer (h_cfg H) E claims d me p"
proof -
  obtain me rafiki where me: "caller_device E dev claims d me" and r: "rafiki_home (h_cfg H) E = Some rafiki"
    and h: "is_mobile me \<or> d_direct_home_port me \<noteq> None" and ps: "sn_Peers s = snapshot_peers E claims rafiki d me"
    by (rule snapshot_SomeD [OF assms])
  have "authorized_peer (h_cfg H) E claims d me p" if "p \<in> set (sn_Peers s)" for p
  proof -
    have ep: "is_mobile me \<longrightarrow> ValidateEndpoint (pe_Endpoint p)"
      and "p \<in> row_peer E (d_owner_user_id me) (d_id me) (is_mobile me) rafiki d `
        set (direct_rows E (d_owner_user_id me) (d_id me) (is_mobile me) (DirectHomeID claims) rafiki (d_direct_scoped me) d)"
      using that unfolding ps snapshot_peers_def by auto
    then obtain x k where "(x, k) \<in> set (direct_rows E (d_owner_user_id me) (d_id me) (is_mobile me) (DirectHomeID claims) rafiki (d_direct_scoped me) d)"
      "p = row_peer E (d_owner_user_id me) (d_id me) (is_mobile me) rafiki d (x, k)" by (metis imageE surj_pair)
    from this ep show ?thesis by (rule row_peer_authorized [OF me h r])
  qed
  with me that show thesis by blast
qed

section \<open>The stream\<close>

lemma stream_loop_sound:
  assumes "snapshot H E i dev claims d = Some snap" "clock E < ExpiresAt claims"
    and "(t, m) \<in> set (stream_loop H dev claims prev E snap ticks)"
  shows "t < ExpiresAt claims \<and>
    (\<exists>E' d' me. (E', d') \<in> insert (E, d) ((\<lambda>k. (tk_env k, tk_db k)) ` set ticks) \<and> clock E' = t \<and>
       caller_device E' dev claims d' me \<and> (\<forall>p \<in> set (sn_Peers m). authorized_peer (h_cfg H) E' claims d' me p))"
  using assms
proof (induction H dev claims prev E snap ticks arbitrary: i d rule: stream_loop.induct)
  case (1 H dev claims prev E snap)
  obtain me where "caller_device E dev claims d me" "\<forall>p \<in> set (sn_Peers snap). authorized_peer (h_cfg H) E claims d me p"
    by (rule snapshot_authorized [OF 1(1)])
  with 1 show ?case by (auto simp: stream_news_def json_view_def split: if_splits)
next
  case (2 H dev claims prev E snap k rest)
  show ?case
  proof (cases "(t, m) \<in> set (stream_news prev E snap)")
    case True
    obtain me where "caller_device E dev claims d me" "\<forall>p \<in> set (sn_Peers snap). authorized_peer (h_cfg H) E claims d me p"
      by (rule snapshot_authorized [OF 2(2)])
    with 2(3) True show ?thesis by (auto simp: stream_news_def json_view_def split: if_splits)
  next
    case False
    with 2(4) have m: "(t, m) \<in> set (if tk_wake k = Disconnected \<or> ExpiresAt claims \<le> clock (tk_env k) then []
         else (case snapshot H (tk_env k) 0 dev claims (tk_db k) of None \<Rightarrow> []
               | Some s \<Rightarrow> stream_loop H dev claims (Some (json_view snap)) (tk_env k) s rest))"
      and w: "\<not> (stream_news prev E snap \<noteq> [] \<and> fails E 20)"
      by (simp_all only: stream_loop.simps set_append Un_iff split: if_splits) simp_all
    then obtain s where s: "\<not> (stream_news prev E snap \<noteq> [] \<and> fails E 20)"
      "\<not> (tk_wake k = Disconnected \<or> ExpiresAt claims \<le> clock (tk_env k))"
      "snapshot H (tk_env k) 0 dev claims (tk_db k) = Some s"
      "(t, m) \<in> set (stream_loop H dev claims (Some (json_view snap)) (tk_env k) s rest)"
      by (cases "snapshot H (tk_env k) 0 dev claims (tk_db k)") (simp_all split: if_splits)
    have "clock (tk_env k) < ExpiresAt claims" using s(2) by simp
    from 2(1) [OF s(1,2,3) s(3) this s(4)] obtain E' d' me where "t < ExpiresAt claims"
      "(E', d') \<in> insert (tk_env k, tk_db k) ((\<lambda>k. (tk_env k, tk_db k)) ` set rest)" "clock E' = t"
      "caller_device E' dev claims d' me" "\<forall>p \<in> set (sn_Peers m). authorized_peer (h_cfg H) E' claims d' me p" by blast
    then show ?thesis by (intro conjI exI [of _ E'] exI [of _ d'] exI [of _ me]) simp_all
  qed
qed

lemma stream_admit_effect:
  assumes "stream_admit H E used dev claims d = (res, d')"
  shows "(d' = d \<or> (\<exists>me h. caller_device E dev claims d me \<and> d_direct_scoped me \<and> uuid_in E (DirectHomeID claims) = Some h \<and>
       clock E < ExpiresAt claims \<and> d' = upsert_grant (d_id me) h (ExpiresAt claims) d \<and> db_ok d')) \<and>
    (\<forall>s. res = Inr s \<longrightarrow> clock E < ExpiresAt claims \<and> (\<exists>i. snapshot H E i dev claims d' = Some s))"
proof (cases "direct_slots \<le> used \<or> ExpiresAt claims \<le> clock E \<or> fails E 10 \<or> fails E 11")
  case True
  then show ?thesis using assms by (auto simp: stream_admit_def split: if_splits)
next
  case False
  show ?thesis
  proof (cases "snapshot H E 12 dev claims d")
    case None
    then show ?thesis using assms False by (auto simp: stream_admit_def)
  next
    case (Some s)
    obtain me where me: "caller_device E dev claims d me" by (rule snapshot_SomeD [OF Some])
    show ?thesis
    proof (cases "DirectHomeID claims = []")
      case True
      then show ?thesis using assms False Some by (auto simp: stream_admit_def)
    next
      case scoped: False
      show ?thesis
        using assms False Some scoped me
        by (auto simp: stream_admit_def caller_device_def split: option.splits)
    qed
  qed
qed

text \<open>
  C9. A device learns about others only what it may: every message of a direct stream is sent before
  the caller's authorization ends; at that moment the caller's device is active and its owner's
  (and scoped, for a direct-home capability), and every peer in it is an active device that is
  either of the same owner, or has a lease with the caller's device that is still running, as its
  \<open>valid_until\<close> says. The home machine of the connector is shown only under a lease to a scoped
  phone, and a direct-home capability shows a phone no other home.
\<close>

theorem stream_within_authorization:
  assumes "stream H E used dev claims ticks w = (Reply 101 msgs, w')" "(t, m) \<in> set msgs"
  shows "t < ExpiresAt claims \<and>
    (\<exists>E' d' me. (E', d') \<in> insert (E, w_db w') ((\<lambda>k. (tk_env k, tk_db k)) ` set ticks) \<and> clock E' = t \<and>
       caller_device E' dev claims d' me \<and> (\<forall>p \<in> set (sn_Peers m). authorized_peer (h_cfg H) E' claims d' me p))"
proof -
  obtain res d' where a: "stream_admit H E used dev claims (w_db w) = (res, d')" by (rule prod.exhaust)
  with assms(1) obtain s where s: "res = Inr s" "w_db w' = d'" "msgs = (if fails E 17 then [] else stream_loop H dev claims None E s ticks)"
    by (auto simp: stream_def split: sum.splits)
  then have m: "(t, m) \<in> set (stream_loop H dev claims None E s ticks)" using assms(2) by (auto split: if_splits)
  from stream_admit_effect [OF a] s(1) obtain i where "clock E < ExpiresAt claims" "snapshot H E i dev claims d' = Some s" by auto
  from stream_loop_sound [OF this(2,1) m] s(2) show ?thesis by simp
qed

text \<open>
  A lease is written for nobody else: opening a stream changes nothing, except that with a
  direct-home capability that has not expired it sets the lease between the caller's own active,
  scoped device and the home the capability names, to end with the capability.
\<close>

theorem lease_own_device:
  assumes "stream H E used dev claims ticks w = (res, w')"
  shows "w' = w \<or> (\<exists>me h. DirectHomeID claims \<noteq> [] \<and> caller_device E dev claims (w_db w) me \<and> d_direct_scoped me \<and>
    uuid_in E (DirectHomeID claims) = Some h \<and> clock E < ExpiresAt claims \<and>
    w' = w\<lparr>w_db := upsert_grant (d_id me) h (ExpiresAt claims) (w_db w)\<rparr> \<and>
    (\<forall>g \<in> set (home_grants (w_db w')). g \<in> set (home_grants (w_db w)) \<or>
       g = \<lparr>hg_mobile = d_id me, hg_home = h, hg_expires_at = ExpiresAt claims\<rparr>))"
proof -
  obtain r d' where a: "stream_admit H E used dev claims (w_db w) = (r, d')" by (rule prod.exhaust)
  have w: "w' = w\<lparr>w_db := d'\<rparr>" using assms a by (auto simp: stream_def split: sum.splits)
  have g: "\<forall>g \<in> set (home_grants (upsert_grant m h t d)). g \<in> set (home_grants d) \<or> g = \<lparr>hg_mobile = m, hg_home = h, hg_expires_at = t\<rparr>"
    for m h t d by (auto simp: upsert_grant_def dest!: sql_update_in split: if_splits)
  have n: "DirectHomeID claims = [] \<Longrightarrow> d' = w_db w"
    using a by (auto simp: stream_admit_def split: if_splits option.splits)
  from stream_admit_effect [OF a] show ?thesis
  proof (elim conjE disjE exE)
    assume "d' = w_db w" then show ?thesis using w by simp
  next
    fix me h
    assume h: "caller_device E dev claims (w_db w) me" "d_direct_scoped me" "uuid_in E (DirectHomeID claims) = Some h"
      "clock E < ExpiresAt claims" "d' = upsert_grant (d_id me) h (ExpiresAt claims) (w_db w)"
    show ?thesis
    proof (cases "DirectHomeID claims = []")
      case True then show ?thesis using n w by simp
    next
      case False
      then show ?thesis using h g w by (intro disjI2 exI [of _ me] exI [of _ h]) simp
    qed
  qed
qed

section \<open>Endpoints with a zone\<close>

lemma parse_zone: "z \<noteq> [] \<Longrightarrow> ParseAddr (''2001:db8::1%'' @ z) = Some (IPv6 0x20010DB8000000000000000000000001 z)"
proof -
  assume "z \<noteq> []"
  moreover have "v6_loop None [] ''2001:db8::1'' = Some (Some 4, [0x20, 0x01, 0x0D, 0xB8, 0, 1], [])" by code_simp
  moreover have "Cut (''2001:db8::1'' @ CHR ''%'' # z) (CHR ''%'') = Some (''2001:db8::1'', z)" by (rule Cut_append) simp
  moreover have "(word_of_bytes (take 4 [0x20, 0x01, 0x0D, 0xB8, 0, 1] @ replicate 10 0 @ drop 4 [0x20, 0x01, 0x0D, 0xB8, 0, 1]) :: 128 word)
      = 0x20010DB8000000000000000000000001" by code_simp
  ultimately show ?thesis by (simp add: ParseAddr_def parse_v6_def)
qed


text \<open>A user with a phone and a home machine, and the phone of a guest with a lease on that machine.\<close>

definition home_key :: "nat \<Rightarrow> string" where
  "home_key n = b64_encode b64_std (replicate 32 n)"

definition direct_db :: db where
  "direct_db = empty_db\<lparr>users := [mk_user ''u1'', mk_user ''u2''],
     devices := [(mk_device ''home'' ''u1'' ''linux'')\<lparr>d_overlay_ip := Some (IPv4 0x0A000003), d_direct_home_port := Some 8790,
         d_external_endpoint_host := Some ''198.51.100.7'', d_external_endpoint_port := Some 51821, d_credential_hash := ''secret''\<rparr>,
       (mk_device ''phone'' ''u1'' ''ios'')\<lparr>d_overlay_ip := Some (IPv4 0x0A000004)\<rparr>,
       (mk_device ''guest'' ''u2'' ''android'')\<lparr>d_overlay_ip := Some (IPv4 0x0A000005), d_direct_scoped := True\<rparr>],
     device_keys := [mk_key ''k1'' ''home'' 1 (home_key 1), mk_key ''k2'' ''phone'' 1 (home_key 2), mk_key ''k3'' ''guest'' 1 (home_key 3)]\<rparr>"

definition owner_claims :: Claims where
  "owner_claims = \<lparr>CapabilityKind = [], SessionID = ''s1'', Sub = ''u1'', IsSuper = False, Audience = [''admin''],
     ExpiresAt = Minute, DirectHomeID = []\<rparr>"

definition guest_claims :: Claims where
  "guest_claims = \<lparr>CapabilityKind = ''rafiki_direct_home'', SessionID = [], Sub = ''u2'', IsSuper = False, Audience = [''mobile''],
     ExpiresAt = Minute, DirectHomeID = ''home''\<rparr>"

definition home_handler :: "redis_store handler" where
  "home_handler = sample_handler\<lparr>h_cfg := sample_cfg\<lparr>RafikiHomeDeviceID := ''home''\<rparr>\<rparr>"

text \<open>
  The consequence: a home machine registers an endpoint whose zone carries two line breaks, and the
  configuration its owner's phone receives sends all traffic to that machine.
\<close>

definition zone_host :: string where
  "zone_host = ''2001:db8::1%'' @ nl @ ''AllowedIPs = 0.0.0.0/0'' @ nl"

definition zone_request :: registerRequest where
  "zone_request = \<lparr>rg_Endpoint = ''[2001:db8::1%'' @ (nl @ ''AllowedIPs = 0.0.0.0/0'' @ nl) @ '']:51821'', rg_ServicePort = 8790\<rparr>"

definition zone_db :: db where
  "zone_db = direct_db\<lparr>devices := sql_update (registrable ''home'' ''u1'') (registered_row (calm 9 []) zone_host 51821 8790) (devices direct_db)\<rparr>"

lemma zone_rows:
  "map (\<lambda>(x, k). (d_id x, k_wg_public_key k, host_text x, d_external_endpoint_host x, d_external_endpoint_port x, d_direct_home_port x))
     (direct_rows (calm 10 []) ''u1'' ''phone'' True [] (Some ''h1'') False zone_db) =
   [(''home'', home_key 1, ''10.0.0.3'', Some zone_host, Some 51821, Some 8790)]"
  by code_simp

lemma zone_self: "map_option (\<lambda>x. (is_mobile x, d_direct_scoped x, host_text x)) (self_row ''phone'' ''u1'' [] zone_db) = Some (True, False, ''10.0.0.4'')"
  by code_simp

lemma zone_registered:
  assumes "ValidateEndpoint (rg_Endpoint zone_request)"
  shows "register sample_handler (calm 9 []) 0 ''home'' owner_claims (Some zone_request) (sample_world direct_db) =
    (Reply 204 (), sample_world zone_db)"
proof -
  have "SplitHostPort (rg_Endpoint zone_request) = Some (zone_host, ''51821'')" "Atoi ''51821'' = Some 51821"
    "db_ok zone_db" "sql_count (registrable ''home'' ''u1'') (devices direct_db) = 1" by code_simp+
  moreover have "Sub owner_claims = ''u1''" by (simp add: owner_claims_def)
  moreover have "rg_ServicePort zone_request = 8790" by (simp add: zone_request_def)
  ultimately show ?thesis using assms by (simp add: register_def sample_world_def statement_def flip: zone_db_def)
qed

definition zone_config :: string where
  "zone_config = ''[Interface]'' @ nl @ ''Address = 10.0.0.4/32'' @ nl @ ''MTU = 1280'' @ nl @ nl @ ''[Peer]'' @ nl @
     ''PublicKey = '' @ home_key 1 @ nl @ ''AllowedIPs = 10.0.0.3/32'' @ nl @ ''Endpoint = '' @ rg_Endpoint zone_request @ nl @
     ''PersistentKeepalive = 25'' @ nl"

lemma zone_rendered:
  assumes "ValidateEndpoint (rg_Endpoint zone_request)" "pe_PublicKey p = home_key 1" "pe_OverlayIP p = ''10.0.0.3''"
    "pe_Endpoint p = rg_Endpoint zone_request"
  shows "Render ''10.0.0.4'' [p] (WGServerPublicKey sample_cfg) = Some zone_config"
proof -
  have "map_option length (DecodeString (home_key 1)) = Some 32" "ParseAddr ''10.0.0.3'' = Some (IPv4 0x0A000003)"
    "ParseAddr ''10.0.0.4'' = Some (IPv4 0x0A000004)" "home_key 1 \<noteq> WGServerPublicKey sample_cfg"
    "v4_string 0x0A000003 = ''10.0.0.3''" "v4_string 0x0A000004 = ''10.0.0.4''" "rg_Endpoint zone_request \<noteq> []" by code_simp+
  with assms show ?thesis by (auto simp: Render_def peer_section_def zone_config_def)
qed

lemma zone_snapshot:
  assumes "ValidateEndpoint (rg_Endpoint zone_request)"
  shows "map_option sn_WGConfig (snapshot sample_handler (calm 10 []) 0 ''phone'' owner_claims zone_db) = Some zone_config"
proof -
  obtain me where me: "self_row ''phone'' ''u1'' [] zone_db = Some me" "is_mobile me" "\<not> d_direct_scoped me" "host_text me = ''10.0.0.4''"
    using zone_self by auto
  obtain x k where x: "direct_rows (calm 10 []) ''u1'' ''phone'' True [] (Some ''h1'') False zone_db = [(x, k)]"
    "d_id x = ''home''" "k_wg_public_key k = home_key 1" "host_text x = ''10.0.0.3''" "d_external_endpoint_host x = Some zone_host"
    "d_external_endpoint_port x = Some 51821" using zone_rows by (auto simp: map_eq_Cons_conv)
  have c: "JoinHostPort zone_host (Itoa 51821) = rg_Endpoint zone_request" "RafikiHomeDeviceID sample_cfg = ''h1''"
    "HasAudience owner_claims AudienceAdmin" by code_simp+
  let ?p = "row_peer (calm 10 []) ''u1'' ''phone'' True (Some ''h1'') zone_db (x, k)"
  have p: "pe_PublicKey ?p = home_key 1" "pe_OverlayIP ?p = ''10.0.0.3''" "pe_Endpoint ?p = rg_Endpoint zone_request"
    using x c by (simp_all add: row_peer_def)
  have ids: "d_id me = ''phone''" "d_owner_user_id me = ''u1''" using me(1) by (auto simp: self_row_def find_Some_iff)
  from zone_rendered [OF assms p] assms me x(1) c p show ?thesis
    by (simp add: snapshot_def snapshot_peers_def rafiki_home_def sample_handler_def owner_claims_def Let_def ids)
qed


section \<open>Examples\<close>

definition home_peer :: Peer where
  "home_peer = \<lparr>pe_ValidUntil = None, pe_DeviceID = ''home'', pe_PublicKey = home_key 1, pe_OverlayIP = ''10.0.0.3'',
     pe_Endpoint = ''198.51.100.7:51821'', pe_ServicePort = 8790\<rparr>"


definition expiry_tick :: tick where
  "expiry_tick = \<lparr>tk_wake = DeadlineExceeded, tk_env = calm Minute [], tk_db = direct_db\<rparr>"

definition guest_run :: "(time \<times> Snapshot) list response \<times> redis_store world" where
  "guest_run = stream home_handler (calm 10 []) 0 ''guest'' guest_claims [expiry_tick] (sample_world direct_db)"

lemma guest_run_messages:
  "(case fst guest_run of Reply n ms \<Rightarrow> map (\<lambda>(t, m). (n, t, map (\<lambda>p. (pe_DeviceID p, pe_ValidUntil p)) (sn_Peers m))) ms | _ \<Rightarrow> []) =
     [(101, 10, [(''home'', Some Minute)])]"
  by code_simp

lemma guest_run_lease: "home_grants (w_db (snd guest_run)) = [\<lparr>hg_mobile = ''guest'', hg_home = ''home'', hg_expires_at = Minute\<rparr>]"
  by code_simp

theorem stream_within_authorization_witness:
  "\<exists>t m w'. guest_run = (Reply 101 [(t, m)], w') \<and> t < Minute \<and> map pe_DeviceID (sn_Peers m) = [''home''] \<and>
     (\<exists>d me. caller_device (calm 10 []) ''guest'' guest_claims d me \<and> (\<forall>p \<in> set (sn_Peers m). authorized_peer (h_cfg home_handler) (calm 10 []) guest_claims d me p))"
proof -
  from guest_run_messages obtain m where m: "fst guest_run = Reply 101 [(10, m)]" "map (\<lambda>p. (pe_DeviceID p, pe_ValidUntil p)) (sn_Peers m) = [(''home'', Some Minute)]"
    by (auto split: response.splits)
  obtain w' where r: "guest_run = (Reply 101 [(10, m)], w')" using m(1) by (metis prod.collapse)
  have e: "ExpiresAt guest_claims = Minute" by (simp add: guest_claims_def)
  have "map pe_DeviceID (sn_Peers m) = [''home'']" using m(2) by (auto simp: map_eq_Cons_conv)
  moreover from stream_within_authorization [OF r [unfolded guest_run_def], of 10 m] obtain E' d me
    where t: "10 < Minute" and k: "(E', d) \<in> {(calm 10 [], w_db w'), (calm Minute [], direct_db)}" "clock E' = 10"
      "caller_device E' ''guest'' guest_claims d me" "\<forall>p \<in> set (sn_Peers m). authorized_peer (h_cfg home_handler) E' guest_claims d me p"
    unfolding e by (auto simp: expiry_tick_def)
  moreover have "E' = calm 10 []" using k(1,2) t by auto
  ultimately show ?thesis using r by (intro exI [of _ 10] exI [of _ m] exI [of _ w'] conjI exI [of _ d] exI [of _ me]) simp_all
qed

theorem lease_own_device_witness:
  "\<exists>me. d_direct_scoped me \<and> caller_device (calm 10 []) ''guest'' guest_claims direct_db me \<and>
     home_grants (w_db (snd guest_run)) = [\<lparr>hg_mobile = d_id me, hg_home = ''home'', hg_expires_at = Minute\<rparr>]"
proof -
  obtain res w' where r: "guest_run = (res, w')" by (rule prod.exhaust)
  have g: "home_grants (w_db w') = [\<lparr>hg_mobile = ''guest'', hg_home = ''home'', hg_expires_at = Minute\<rparr>]"
    using guest_run_lease unfolding r snd_conv .
  then have "w' \<noteq> sample_world direct_db" by (auto simp: sample_world_def direct_db_def empty_db_def)
  with lease_own_device [OF r [unfolded guest_run_def]] obtain me where
    "caller_device (calm 10 []) ''guest'' guest_claims direct_db me" "d_direct_scoped me" by (auto simp: sample_world_def)
  then show ?thesis unfolding r snd_conv g by (intro exI [of _ me]) (auto simp: caller_device_def)
qed

end
