(* ===== verification/Uoa_Safety.thy ===== *)
theory Uoa_Safety
  imports Uoa_Sessions
begin

text \<open>
  What the sessions guarantee under every interleaving: logout is final, no token family is
  dropped without being revoked, and a request only passes with a live session.
\<close>

section \<open>Interleaving\<close>

text \<open>
  The atomic steps of all requests and of the maintenance task. \<open>N\<close> are identifiers that
  \<open>gen_random_uuid()\<close> does not deliver again, and that only their own login admits. The deletion at the end of a logout comes after the
  revocation of the capability the session had when it was closed. \<open>elsewhere\<close> is the rest of the
  server, which never writes the table.
\<close>

inductive sso_step :: "'r handler \<Rightarrow> uoa \<Rightarrow> string set \<Rightarrow> sso \<Rightarrow> sso \<Rightarrow> bool" for H U N where
  created: "gen_uuid E 0 \<notin> N \<Longrightarrow> sm_create H U E user claims s = (res, s') \<Longrightarrow> sso_step H U N s s'"
| staged: "gen_uuid E 0 \<notin> N \<Longrightarrow> stage H U E claims s = (res, s') \<Longrightarrow> sso_step H U N s s'"
| brokered: "gen_uuid E 0 \<notin> N \<Longrightarrow> createBroker H U E n user cap v s = (res, s') \<Longrightarrow> sso_step H U N s s'"
| developed: "gen_uuid E 0 \<notin> N \<Longrightarrow> createDevelopment H U E n user s = (res, s') \<Longrightarrow> sso_step H U N s s'"
| rotated: "r \<in> set (uoa_sessions (so_db s)) \<Longrightarrow> us_id r = i \<Longrightarrow> \<not> us_closing r \<Longrightarrow> us_user_id r \<noteq> None \<Longrightarrow>
    rotate_session H U E i (us_sealed r) (us_subject r) s = (out, s') \<Longrightarrow> sso_step H U N s s'"
| admitted: "(\<And>r. i \<in> N \<Longrightarrow> r \<in> set (uoa_sessions (so_db s)) \<Longrightarrow> us_id r = i \<Longrightarrow> us_user_id r \<noteq> None) \<Longrightarrow>
    admit E n i user subject s = (ok, s') \<Longrightarrow> sso_step H U N s s'"
| scheduled: "schedule E n i t s = (ok, s') \<Longrightarrow> sso_step H U N s s'"
| cleaned: "cleanupOne H U E i s = (ok, s') \<Longrightarrow> sso_step H U N s s'"
| closed: "logout_close H U E i user s = (end, s') \<Longrightarrow> sso_step H U N s s'"
| deleted: "(\<And>r. r \<in> set (uoa_sessions (so_db s)) \<Longrightarrow> us_id r = i \<Longrightarrow> us_user_id r = Some user \<Longrightarrow> us_closing r \<Longrightarrow>
      us_kind r = capabilityRefresh \<Longrightarrow> \<exists>t \<in> set (so_revoked s). unseal H U (us_sealed r) = Some t) \<Longrightarrow>
    logout_delete E i user s = (ok, s') \<Longrightarrow> sso_step H U N s s'"
| revoked: "revoke_family H U t s = (ok, s') \<Longrightarrow> sso_step H U N s s'"
| cached: "sso_step H U N s (s\<lparr>so_cache := c\<rparr>)"
| elsewhere: "uoa_sessions d = uoa_sessions (so_db s) \<Longrightarrow> db_ok d \<Longrightarrow> sso_step H U N s (s\<lparr>so_db := d\<rparr>)"

definition sso_ok :: "sso \<Rightarrow> bool" where
  "sso_ok s \<longleftrightarrow> db_ok (so_db s)"

text \<open>What a step can do to the table: append, change rows, or delete rows.\<close>

lemma insert_session_effect:
  "insert_session E n row d = Some (i, d') \<longleftrightarrow>
     i = us_id row \<and> d' = d\<lparr>uoa_sessions := uoa_sessions d @ [row]\<rparr> \<and> \<not> fails E n \<and> db_ok d'"
  by (auto simp: insert_session_def)

lemma update_sessions_simps [simp]:
  "uoa_sessions (update_sessions p f d) = sql_update p f (uoa_sessions d)"
  by (simp add: update_sessions_def)

lemma delete_sessions_simps [simp]:
  "uoa_sessions (delete_sessions p d) = filter (\<lambda>r. \<not> p r) (uoa_sessions d)"
  by (simp add: delete_sessions_def)

lemma session_by_SomeD: "session_by p d = Some r \<Longrightarrow> r \<in> set (uoa_sessions d) \<and> p r"
  by (auto simp: session_by_def find_Some_iff)

lemma session_by_None: "session_by p d = None \<longleftrightarrow> (\<forall>r \<in> set (uoa_sessions d). \<not> p r)"
  by (auto simp: session_by_def find_None_iff)

lemma session_unique:
  "db_ok d \<Longrightarrow> r \<in> set (uoa_sessions d) \<Longrightarrow> q \<in> set (uoa_sessions d) \<Longrightarrow> us_id r = us_id q \<Longrightarrow> r = q"
  using unique_onD [of "\<lambda>r. Some (us_id r)" "uoa_sessions d" r q]
  by (auto simp: db_ok_def uoa_sessions_ok_def pk_def)

definition creates :: "string set \<Rightarrow> sso \<Rightarrow> sso \<Rightarrow> bool" where
  "creates N s s' \<longleftrightarrow> s' = s \<or> (\<exists>row. us_id row \<notin> N \<and> db_ok (so_db s') \<and> so_revoked s' = so_revoked s \<and>
     uoa_sessions (so_db s') = uoa_sessions (so_db s) @ [row])"

lemma creation:
  assumes "gen_uuid E 0 \<notin> N"
  shows "sm_create H U E user claims s = (res, s') \<Longrightarrow> creates N s s'"
    and "stage H U E claims s = (res, s') \<Longrightarrow> creates N s s'"
    and "createBroker H U E n user cap v s = (res, s') \<Longrightarrow> creates N s s'"
    and "createDevelopment H U E n user s = (res, s') \<Longrightarrow> creates N s s'"
  using assms
  by (auto simp: creates_def sm_create_def stage_def createBroker_def createDevelopment_def insert_session_effect uoa_row_def
      split: if_splits option.splits)

lemma rotate_session_effect:
  assumes "rotate_session H U E i sealed subject s = (out, s')"
  shows "s' = s \<or> (\<exists>f. so_db s' = update_sessions (\<lambda>r. us_id r = i) f (so_db s) \<and> db_ok (so_db s') \<and> so_revoked s' = so_revoked s \<and>
    (\<forall>r. us_id (f r) = us_id r \<and> us_user_id (f r) = us_user_id r \<and> us_closing (f r) = us_closing r \<and>
       us_kind (f r) = us_kind r \<and> us_subject (f r) = us_subject r))"
  using assms unfolding rotate_session_def
  by (auto split: option.splits sum.splits if_splits)

lemma revoke_family_effect:
  "revoke_family H U t s = (ok, s') \<Longrightarrow> so_db s' = so_db s \<and> so_cache s' = so_cache s \<and>
     so_revoked s' = (if ok then t # so_revoked s else so_revoked s)"
  by (auto simp: revoke_family_def split: sum.splits)

lemma cleanupOne_effect:
  assumes "cleanupOne H U E i s = (ok, s')"
  shows "so_db s' = so_db s \<and> set (so_revoked s) \<subseteq> set (so_revoked s') \<or>
    (\<exists>r \<in> set (uoa_sessions (so_db s)). us_id r = i \<and> us_closing r \<and>
       so_db s' = delete_sessions (\<lambda>q. us_id q = i \<and> us_closing q) (so_db s) \<and> db_ok (so_db s') \<and>
       set (so_revoked s) \<subseteq> set (so_revoked s') \<and>
       (us_kind r = capabilityRefresh \<longrightarrow> (\<exists>t \<in> set (so_revoked s'). unseal H U (us_sealed r) = Some t)))"
proof (cases "session_by (\<lambda>r. us_id r = i \<and> us_closing r \<and> us_cleanup_after r \<le> clock E) (so_db s)")
  case None
  then show ?thesis using assms by (auto simp: cleanupOne_def split: if_splits)
next
  case (Some r)
  have r: "r \<in> set (uoa_sessions (so_db s))" "us_id r = i" "us_closing r"
    using session_by_SomeD [OF Some] by auto
  obtain b v where rv: "revoke_family H U (the (unseal H U (us_sealed r))) s = (b, v)" by (rule prod.exhaust)
  show ?thesis
    using assms Some r rv revoke_family_effect [OF rv]
    by (auto simp: cleanupOne_def split: if_splits option.splits bool.splits prod.splits)
qed

lemma logout_close_effect:
  assumes "logout_close H U E i user s = (out, s')"
  shows "s' = s \<and> (\<forall>x. out \<noteq> Inr x) \<and>
      (out = Inl True \<longrightarrow> (\<forall>r \<in> set (uoa_sessions (so_db s)). us_id r = i \<longrightarrow> us_user_id r \<noteq> Some user)) \<or>
    (\<exists>r refresh. r \<in> set (uoa_sessions (so_db s)) \<and> us_id r = i \<and> us_user_id r = Some user \<and>
       unseal H U (us_sealed r) = Some refresh \<and> out = Inr (refresh, us_kind r) \<and> db_ok (so_db s') \<and>
       so_revoked s' = so_revoked s \<and>
       so_db s' = update_sessions (\<lambda>q. us_id q = i) (\<lambda>q. q\<lparr>us_closing := True, us_cleanup_after := clock E\<rparr>) (so_db s))"
proof (cases "session_by (\<lambda>r. us_id r = i \<and> us_user_id r = Some user) (so_db s)")
  case None
  then show ?thesis
    using assms session_by_None [THEN iffD1, OF None] by (auto simp: logout_close_def split: if_splits)
next
  case (Some r)
  note r = session_by_SomeD [OF Some]
  show ?thesis
  proof (cases "unseal H U (us_sealed r)")
    case None
    then show ?thesis using assms Some by (auto simp: logout_close_def split: if_splits)
  next
    case (Some t)
    then show ?thesis
      using assms \<open>session_by _ _ = Some r\<close> r
      by (auto simp: logout_close_def split: if_splits option.splits)
  qed
qed

lemma logout_delete_effect:
  assumes "logout_delete E i user s = (ok, s')"
  shows "s' = s \<and> \<not> ok \<or> ok \<and> so_revoked s' = so_revoked s \<and> db_ok (so_db s') \<and>
    so_db s' = delete_sessions (\<lambda>q. us_id q = i \<and> us_user_id q = Some user \<and> us_closing q) (so_db s)"
  using assms by (auto simp: logout_delete_def split: option.splits)

lemma schedule_effect:
  assumes "schedule E n i t s = (ok, s')"
  shows "s' = s \<or> so_revoked s' = so_revoked s \<and> db_ok (so_db s') \<and>
    so_db s' = update_sessions (\<lambda>r. us_id r = i \<and> us_closing r) (\<lambda>r. r\<lparr>us_cleanup_after := t\<rparr>) (so_db s)"
  using assms by (auto simp: schedule_def split: option.splits)

lemma admit_effect:
  assumes "admit E n i user subject s = (ok, s')"
  shows "s' = s \<and> \<not> ok \<or> so_revoked s' = so_revoked s \<and> db_ok (so_db s') \<and>
    so_db s' = update_sessions (admissible (clock E) i user subject (so_db s))
      (\<lambda>r. r\<lparr>us_user_id := Some user, us_closing := False\<rparr>) (so_db s)"
  using assms by (auto simp: admit_def split: option.splits)

section \<open>A session that is over\<close>

text \<open>
  \<open>over\<close>: the session \<open>i\<close> of the user \<open>u\<close> (\<^const>\<open>None\<close>: never admitted) is gone or closing, with its
  capability \<open>t\<close> of kind \<open>k\<close> untouched; when it is gone, the family of a refresh token was revoked.
\<close>

definition over_row :: "'r handler \<Rightarrow> uoa \<Rightarrow> string \<Rightarrow> string option \<Rightarrow> string \<Rightarrow> string \<Rightarrow> uoa_session \<Rightarrow> bool" where
  "over_row H U i u k t r \<longleftrightarrow> (us_id r = i \<longrightarrow> us_closing r \<and> us_user_id r = u \<and> us_kind r = k \<and>
     unseal H U (us_sealed r) = Some t)"

definition over :: "'r handler \<Rightarrow> uoa \<Rightarrow> string \<Rightarrow> string option \<Rightarrow> string \<Rightarrow> string \<Rightarrow> sso \<Rightarrow> bool" where
  "over H U i u k t s \<longleftrightarrow> db_ok (so_db s) \<and> (\<forall>r \<in> set (uoa_sessions (so_db s)). over_row H U i u k t r) \<and>
     (k = capabilityRefresh \<longrightarrow> t \<in> set (so_revoked s) \<or> i \<in> us_id ` set (uoa_sessions (so_db s)))"

lemma over_update:
  assumes "over H U i u k t s" "so_db s' = update_sessions p f (so_db s)" "db_ok (so_db s')"
    and "so_revoked s' = so_revoked s" "\<And>r. us_id (f r) = us_id r"
    and "\<And>r. r \<in> set (uoa_sessions (so_db s)) \<Longrightarrow> p r \<Longrightarrow> us_id r = i \<Longrightarrow> over_row H U i u k t r \<Longrightarrow> over_row H U i u k t (f r)"
  shows "over H U i u k t s'"
proof -
  have "us_id ` set (sql_update p f (uoa_sessions (so_db s))) = us_id ` set (uoa_sessions (so_db s))"
    using arg_cong [OF map_sql_update [of us_id f p "uoa_sessions (so_db s)"], of set] assms(5) by simp
  moreover have "over_row H U i u k t r'" if r': "r' \<in> set (sql_update p f (uoa_sessions (so_db s)))" for r'
  proof -
    from sql_update_in [OF r'] obtain r where r: "r \<in> set (uoa_sessions (so_db s))" "r' = (if p r then f r else r)" by blast
    then have "over_row H U i u k t r" using assms(1) by (simp add: over_def)
    with r assms(5,6) show ?thesis by (cases "us_id r = i") (auto simp: over_row_def)
  qed
  ultimately show ?thesis using assms by (simp add: over_def)
qed

lemma over_delete:
  assumes "over H U i u k t s" "so_db s' = delete_sessions p (so_db s)" "db_ok (so_db s')"
    and "set (so_revoked s) \<subseteq> set (so_revoked s')"
    and "\<And>r. r \<in> set (uoa_sessions (so_db s)) \<Longrightarrow> p r \<Longrightarrow> us_id r = i \<Longrightarrow> k = capabilityRefresh \<Longrightarrow> t \<in> set (so_revoked s')"
  shows "over H U i u k t s'"
  using assms by (auto simp: over_def)

lemma over_create: "creates N s s' \<Longrightarrow> i \<in> N \<Longrightarrow> over H U i u k t s \<Longrightarrow> over H U i u k t s'"
  by (auto simp: creates_def over_def over_row_def)

lemma over_step:
  assumes "over H U i u k t s" "sso_step H U (insert i M) s s'"
  shows "over H U i u k t s'"
  using assms(2)
proof cases
  case (rotated r j E out)
  with assms(1) have "j \<noteq> i" by (auto simp: over_def over_row_def)
  with rotate_session_effect [OF rotated(5)] assms(1) show ?thesis
    by (elim disjE exE conjE) (simp, erule over_update, assumption, auto)
next
  case (admitted j E n user subject ok)
  have "over_row H U i u k t r \<Longrightarrow> us_id r = i \<Longrightarrow> r \<in> set (uoa_sessions (so_db s)) \<Longrightarrow>
      \<not> admissible (clock E) j user subject (so_db s) r" for r
    using admitted(1) by (auto simp: over_row_def admissible_def)
  with admit_effect [OF admitted(2)] assms(1) show ?thesis
    by (elim disjE exE conjE) (simp, erule over_update, assumption, auto)
next
  case (scheduled E n j tm ok)
  from schedule_effect [OF this] assms(1) show ?thesis
    by (elim disjE exE conjE) (simp, erule over_update, assumption, auto simp: over_row_def)
next
  case (cleaned E j ok)
  from cleanupOne_effect [OF this] show ?thesis
  proof
    assume "so_db s' = so_db s \<and> set (so_revoked s) \<subseteq> set (so_revoked s')"
    then show ?thesis using assms(1) by (auto simp: over_def)
  next
    assume "\<exists>r \<in> set (uoa_sessions (so_db s)). us_id r = j \<and> us_closing r \<and>
       so_db s' = delete_sessions (\<lambda>q. us_id q = j \<and> us_closing q) (so_db s) \<and> db_ok (so_db s') \<and>
       set (so_revoked s) \<subseteq> set (so_revoked s') \<and>
       (us_kind r = capabilityRefresh \<longrightarrow> (\<exists>t \<in> set (so_revoked s'). unseal H U (us_sealed r) = Some t))"
    then obtain r where r: "r \<in> set (uoa_sessions (so_db s))" "us_id r = j" "db_ok (so_db s')"
      "so_db s' = delete_sessions (\<lambda>q. us_id q = j \<and> us_closing q) (so_db s)"
      "set (so_revoked s) \<subseteq> set (so_revoked s')"
      "us_kind r = capabilityRefresh \<longrightarrow> (\<exists>t \<in> set (so_revoked s'). unseal H U (us_sealed r) = Some t)" by blast
    show ?thesis
      by (rule over_delete [OF assms(1) r(4,3,5)]) (use r(1,2,6) assms(1) in \<open>auto simp: over_def over_row_def\<close>)
  qed
next
  case (closed E j user out)
  from logout_close_effect [OF this] assms(1) show ?thesis
    by (elim disjE exE conjE) (simp, erule over_update, assumption, auto simp: over_row_def)
next
  case (deleted j user E ok)
  from logout_delete_effect [OF deleted(2)] show ?thesis
  proof (elim disjE conjE)
    assume d: "so_revoked s' = so_revoked s" "db_ok (so_db s')"
      "so_db s' = delete_sessions (\<lambda>q. us_id q = j \<and> us_user_id q = Some user \<and> us_closing q) (so_db s)"
    show ?thesis
      by (rule over_delete [OF assms(1) d(3,2)]) (use d(1) deleted(1) assms(1) in \<open>auto simp: over_def over_row_def\<close>)
  qed (use assms(1) in simp)
next
  case (revoked tk ok)
  from revoke_family_effect [OF this] assms(1) show ?thesis by (auto simp: over_def)
next
  case (cached c)
  then show ?thesis using assms(1) by (simp add: over_def)
next
  case (elsewhere d)
  then show ?thesis using assms(1) by (simp add: over_def)
next
  case (created E user claims res)
  from over_create [OF creation(1) [OF this] insertI1 assms(1)] show ?thesis .
next
  case (staged E claims res)
  from over_create [OF creation(2) [OF this] insertI1 assms(1)] show ?thesis .
next
  case (brokered E n user cap v res)
  from over_create [OF creation(3) [OF this] insertI1 assms(1)] show ?thesis .
next
  case (developed E n user res)
  from over_create [OF creation(4) [OF this] insertI1 assms(1)] show ?thesis .
qed

interpretation ended: invariant_system "sso_step H U (insert i M)" "over H U i u k t" for H U i M u k t
  by unfold_locales (rule over_step)

lemma creates_revoked: "creates N s s' \<Longrightarrow> so_revoked s' = so_revoked s"
  by (auto simp: creates_def)

lemma revoked_step: "sso_step H U N s s' \<Longrightarrow> t \<in> set (so_revoked s) \<Longrightarrow> t \<in> set (so_revoked s')"
proof (induction rule: sso_step.induct)
  case (created E user claims s res s')
  then show ?case using creates_revoked [OF creation(1)] by metis
next
  case (staged E claims s res s')
  then show ?case using creates_revoked [OF creation(2)] by metis
next
  case (brokered E n user cap v s res s')
  then show ?case using creates_revoked [OF creation(3)] by metis
next
  case (developed E n user s res s')
  then show ?case using creates_revoked [OF creation(4)] by metis
next
  case (rotated r s i E out s')
  from rotate_session_effect [OF rotated(5)] have "so_revoked s' = so_revoked s" by blast
  then show ?case using rotated(6) by simp
next
  case (admitted i s E n user subject ok s')
  then show ?case using admit_effect by metis
next
  case (scheduled E n i t s ok s')
  then show ?case using schedule_effect by metis
next
  case (cleaned E i s ok s')
  then show ?case using cleanupOne_effect [OF cleaned(1)] by blast
next
  case (closed E i user s out s')
  then show ?case using logout_close_effect [OF closed(1)] by auto
next
  case (deleted s i user E ok s')
  then show ?case using logout_delete_effect [OF deleted(2)] by auto
next
  case (revoked tk s ok s')
  then show ?case using revoke_family_effect [OF revoked(1)] by auto
qed simp_all

interpretation revocations: invariant_system "sso_step H U N" "\<lambda>s. t \<in> set (so_revoked s)" for H U N t
  by unfold_locales (rule revoked_step)

text \<open>What the other requests do between two steps of a request is a run of atomic steps.\<close>

definition concurrent :: "'r handler \<Rightarrow> uoa \<Rightarrow> string set \<Rightarrow> others \<Rightarrow> bool" where
  "concurrent H U N oth \<longleftrightarrow> (\<forall>n s. reach s (sso_step H U N) (oth n s))"

lemma concurrentD: "concurrent H U N oth \<Longrightarrow> reach s (sso_step H U N) (oth n s)"
  by (simp add: concurrent_def)

lemma concurrent_idle: "concurrent H U N (\<lambda>n s. s)"
  by (simp add: concurrent_def reach_start)

lemmas over_oth = ended.reach_inv [OF concurrentD]
lemmas revoked_oth = revocations.reach_inv [OF concurrentD]

lemma over_resolve: "over H U i u k t s \<Longrightarrow> fst (resolve H U E oth i user s) \<noteq> Inr x"
proof -
  assume o: "over H U i u k t s"
  have "fst (resolveLocked H U E oth i user (s\<lparr>so_cache := c\<rparr>)) \<noteq> Inr x" for c
  proof (cases "session_by (live_row (clock E) i user (so_db s)) (so_db s)")
    case None
    then show ?thesis by (simp add: resolveLocked_def)
  next
    case (Some r)
    then have "us_closing r"
      using session_by_SomeD [OF Some] o by (auto simp: over_def over_row_def live_row_def)
    with Some show ?thesis by (simp add: resolveLocked_def)
  qed
  then show ?thesis by (simp add: resolve_def split: option.splits prod.splits) (metis fst_conv)
qed

lemma over_validate: "over H U i u k t s \<Longrightarrow> SessionID claims = i \<Longrightarrow> i \<noteq> [] \<Longrightarrow> fst (sm_Validate H U E oth claims s) \<noteq> Inr c"
  using over_resolve [of H U i u k t s E oth "Sub claims"]
  by (cases "resolve H U E oth i (Sub claims) s")
    (fastforce simp: sm_Validate_def validateRafikiDirect_def validRafikiDirect_def split: sum.splits prod.splits if_splits)

lemma logout_over:
  assumes "concurrent H U (insert i M) oth" "db_ok (so_db s)" "r \<in> set (uoa_sessions (so_db s))"
    and "us_id r = i" "us_user_id r = Some u" "sm_logout H U E oth i u s = (True, s')"
  shows "\<exists>t. unseal H U (us_sealed r) = Some t \<and> over H U i (Some u) (us_kind r) t s' \<and>
    i \<notin> us_id ` set (uoa_sessions (so_db s'))"
proof -
  obtain out s1 where c: "logout_close H U E i u s = (out, s1)" by (rule prod.exhaust)
  have "out \<noteq> Inl ok" for ok
    using logout_close_effect [OF c] assms(3-6) c by (auto simp: sm_logout_def)
  then obtain x where "out = Inr x" by (cases out) auto
  with logout_close_effect [OF c] obtain q t where q: "q \<in> set (uoa_sessions (so_db s))" "us_id q = i"
    "unseal H U (us_sealed q) = Some t" "out = Inr (t, us_kind q)" "db_ok (so_db s1)"
    "so_db s1 = update_sessions (\<lambda>q. us_id q = i) (\<lambda>q. q\<lparr>us_closing := True, us_cleanup_after := clock E\<rparr>) (so_db s)"
    by blast
  have "q = r" using session_unique [OF assms(2) q(1) assms(3)] q(2) assms(4) by simp
  note t = q(3-6) [unfolded this]
  have "over_row H U i (Some u) (us_kind r) t x" if x: "x \<in> set (uoa_sessions (so_db s1))" for x
  proof -
    from x have "x \<in> set (sql_update (\<lambda>q. us_id q = i) (\<lambda>q. q\<lparr>us_closing := True, us_cleanup_after := clock E\<rparr>)
      (uoa_sessions (so_db s)))" unfolding t(4) by simp
    from sql_update_in [OF this] obtain q where q: "q \<in> set (uoa_sessions (so_db s))"
      "x = (if us_id q = i then q\<lparr>us_closing := True, us_cleanup_after := clock E\<rparr> else q)" by blast
    then have "us_id q = i \<Longrightarrow> q = r" using session_unique [OF assms(2) q(1) assms(3)] assms(4) by simp
    with q(2) t(1) assms(5) show ?thesis by (auto simp: over_row_def)
  qed
  moreover have "us_id ` set (uoa_sessions (so_db s1)) = us_id ` set (uoa_sessions (so_db s))"
    using arg_cong [OF map_sql_update [of us_id "\<lambda>q. q\<lparr>us_closing := True, us_cleanup_after := clock E\<rparr>" "\<lambda>q. us_id q = i"
      "uoa_sessions (so_db s)"], of set] t(4) by simp
  ultimately have o1: "over H U i (Some u) (us_kind r) t s1"
    using t(3) assms(3,4) by (auto simp: over_def)
  let ?a = "oth 0 s1"
  have oa: "over H U i (Some u) (us_kind r) t ?a" by (rule over_oth [OF assms(1) o1])
  obtain ok b where rv: "(if us_kind r = capabilityRefresh then revoke_family H U t ?a else (True, ?a)) = (ok, b)"
    by (rule prod.exhaust)
  have fin: "ok" "logout_delete E i u (oth 1 b) = (True, s')"
    using assms(6) c t(2) rv by (auto simp: sm_logout_def split: bool.splits)
  have b: "us_kind r = capabilityRefresh \<Longrightarrow> t \<in> set (so_revoked b)" "over H U i (Some u) (us_kind r) t b"
    using rv fin(1) revoke_family_effect [of H U t ?a ok b] oa over_step [OF oa sso_step.revoked, of t ok b]
    by (auto split: if_splits)
  have ob: "over H U i (Some u) (us_kind r) t (oth 1 b)" by (rule over_oth [OF assms(1) b(2)])
  have "sso_step H U (insert i M) (oth 1 b) s'"
    using ob revoked_oth [OF assms(1) b(1), of 1]
    by (intro sso_step.deleted [OF _ fin(2)]) (auto simp: over_def over_row_def)
  then have "over H U i (Some u) (us_kind r) t s'" by (rule over_step [OF ob])
  moreover have "i \<notin> us_id ` set (uoa_sessions (so_db s'))"
    using logout_delete_effect [OF fin(2)] ob by (auto simp: over_def over_row_def)
  ultimately show ?thesis using t(1) by blast
qed

text \<open>
  C2. Logging out is final, under every interleaving with other requests and the maintenance task:
  once a logout of a session was answered, its row is gone and the family of its refresh token was
  revoked at the identity provider, and from then on, whatever anybody does, no token of the session
  is ever accepted again.
\<close>

theorem logout_final:
  assumes "concurrent H U (insert i M) oth" "db_ok (so_db s)" "r \<in> set (uoa_sessions (so_db s))"
    and "us_id r = i" "us_user_id r = Some u" "i \<noteq> []" "sm_logout H U E oth i u s = (True, s')"
    and "reach s' (sso_step H U (insert i M)) s''" "SessionID claims = i"
  shows "i \<notin> us_id ` set (uoa_sessions (so_db s')) \<and>
    (us_kind r = capabilityRefresh \<longrightarrow> (\<exists>t \<in> set (so_revoked s'). unseal H U (us_sealed r) = Some t)) \<and>
    fst (sm_Validate H U E' oth' claims s'') \<noteq> Inr claims'"
proof -
  from logout_over [OF assms(1-5,7)] obtain t where
    t: "unseal H U (us_sealed r) = Some t" "over H U i (Some u) (us_kind r) t s'" "i \<notin> us_id ` set (uoa_sessions (so_db s'))" by blast
  from ended.reach_inv [OF assms(8) t(2)] have "fst (sm_Validate H U E' oth' claims s'') \<noteq> Inr claims'"
    by (rule over_validate [OF _ assms(9,6)])
  with t show ?thesis by (auto simp: over_def)
qed

definition sample_bearer :: Claims where
  "sample_bearer = \<lparr>CapabilityKind = [], SessionID = ''s1'', Sub = ''u1'', IsSuper = False, Audience = [''admin''],
     ExpiresAt = 60 * Second, DirectHomeID = []\<rparr>"

theorem logout_final_witness:
  "\<exists>s'. sm_logout sso_handler sample_uoa (calm 9 []) (\<lambda>n s. s) ''s1'' ''u1'' sample_sso = (True, s') \<and>
     (\<forall>c. fst (sm_Validate sso_handler sample_uoa (calm 10 []) (\<lambda>n s. s) sample_bearer s') \<noteq> Inr c) \<and>
     (\<exists>c. fst (sm_Validate sso_handler sample_uoa (calm 8 []) (\<lambda>n s. s) sample_bearer sample_sso) = Inr c)"
proof -
  let ?run = "sm_logout sso_handler sample_uoa (calm 9 []) (\<lambda>n s. s) ''s1'' ''u1'' sample_sso"
  have f: "db_ok (so_db sample_sso)" "sample_uoa_session \<in> set (uoa_sessions (so_db sample_sso))"
    "us_id sample_uoa_session = ''s1''" "us_user_id sample_uoa_session = Some ''u1''" "''s1'' \<noteq> []" "fst ?run"
    "SessionID sample_bearer = ''s1''" by code_simp+
  have before: "fst (sm_Validate sso_handler sample_uoa (calm 8 []) (\<lambda>n s. s) sample_bearer sample_sso) = Inr sample_bearer"
    by code_simp
  from f(6) obtain s' where r: "?run = (True, s')" by (metis prod.collapse)
  from logout_final [OF concurrent_idle f(1-5) r reach_start f(7)] r before show ?thesis by blast
qed

end
