(* ===== verification/Uoa_Runs.thy ===== *)
theory Uoa_Runs
  imports Uoa_Safety
begin

text \<open>
  The requests of the session manager as runs of its atomic steps, and what that gives: a request
  passes the middleware only with a live session, a login that fails leaves no token family behind,
  and the maintenance task ends what is left over.
\<close>

section \<open>Requests are runs of steps\<close>

lemma reach_one: "sso_step H U N a b \<Longrightarrow> reach a (sso_step H U N) b"
  by (rule reach_step [OF reach_start])

lemma reach_cache: "reach a (sso_step H U N) (b\<lparr>so_cache := c\<rparr>)" if "reach a (sso_step H U N) b"
  by (rule reach_step [OF that sso_step.cached])

lemma resolveLocked_run:
  assumes "concurrent H U N oth" "resolveLocked H U E oth i user s = (res, s')"
  shows "reach s (sso_step H U N) s'"
proof (cases "\<exists>r. session_by (live_row (clock E) i user (so_db s)) (so_db s) = Some r \<and> \<not> us_closing r")
  case False
  then show ?thesis using assms(2) by (auto simp: resolveLocked_def reach_start split: if_splits option.splits)
next
  case True
  then obtain r where r: "session_by (live_row (clock E) i user (so_db s)) (so_db s) = Some r" "\<not> us_closing r" by blast
  obtain hit c where c: "(if us_kind r = capabilityRefresh
      then cache_get (clock E) i (capabilityFingerprint (h_crypto H) (us_sealed r)) (so_cache s)
      else (None, so_cache s)) = (hit, c)" by (rule prod.exhaust)
  let ?s1 = "s\<lparr>so_cache := c\<rparr>"
  obtain out s2 where o: "(if us_kind r = ''development'' then (resolveDevelopment H E (us_subject r), ?s1)
      else if us_kind r = ''broker'' then (resolveBroker H U E (us_sealed r) (us_subject r), ?s1)
      else if us_kind r = capabilityRefresh then rotate_session H U E i (us_sealed r) (us_subject r) ?s1
      else (Inl SessionExpired, ?s1)) = (out, s2)" by (rule prod.exhaust)
  have q: "r \<in> set (uoa_sessions (so_db ?s1))" "us_id r = i" "us_user_id r \<noteq> None"
    using session_by_SomeD [OF r(1)] by (auto simp: live_row_def)
  have s1: "reach s (sso_step H U N) ?s1" by (rule reach_cache [OF reach_start])
  have s2: "reach s (sso_step H U N) s2"
    using o s1 by (auto split: if_splits intro: reach_step [OF s1 sso_step.rotated [OF q(1,2) r(2) q(3)]])
  then have s3: "reach s (sso_step H U N) (oth 0 s2)" by (rule reach_trans [OF _ concurrentD [OF assms(1)]])
  show ?thesis
    using assms(2) r c o reach_start s1 s2 s3 reach_cache [OF s3]
    by (auto simp: resolveLocked_def Let_def split: if_splits option.splits sum.splits)
qed

lemma resolve_run:
  assumes "concurrent H U N oth" "resolve H U E oth i user s = (res, s')"
  shows "reach s (sso_step H U N) s'"
proof (cases "cache_acquire i (so_cache s)")
  case None
  then show ?thesis using assms(2) by (simp add: resolve_def reach_start)
next
  case (Some c)
  obtain res1 s1 where l: "resolveLocked H U E oth i user (s\<lparr>so_cache := c\<rparr>) = (res1, s1)" by (rule prod.exhaust)
  have "s' = s1\<lparr>so_cache := cache_release i (so_cache s1)\<rparr>" using assms(2) Some l by (simp add: resolve_def)
  moreover have "reach s (sso_step H U N) s1"
    by (rule reach_trans [OF reach_cache [OF reach_start] resolveLocked_run [OF assms(1) l]])
  ultimately show ?thesis using reach_cache by blast
qed

lemma Validate_run: "concurrent H U N oth \<Longrightarrow> sm_Validate H U E oth claims s = (res, s') \<Longrightarrow> reach s (sso_step H U N) s'"
  using resolve_run [of H U N oth E "SessionID claims" "Sub claims" s]
  by (fastforce simp: sm_Validate_def reach_start split: if_splits prod.splits sum.splits)

lemma sweep_run: "sweep H U Es gone ids ok s = (res, s') \<Longrightarrow> reach s (sso_step H U N) s'"
proof (induction ids arbitrary: ok s)
  case Nil
  then show ?case by (simp add: reach_start)
next
  case (Cons i ids)
  obtain a s1 where c: "cleanupOne H U (Es i) i s = (a, s1)" by (rule prod.exhaust)
  obtain b s2 where d: "schedule (Es i) 4 i (clock (Es i) + 2 * Minute) s1 = (b, s2)" by (rule prod.exhaust)
  have s1: "reach s (sso_step H U N) s1" by (rule reach_one [OF sso_step.cleaned [OF c]])
  have s2: "reach s (sso_step H U N) s2" by (rule reach_step [OF s1 sso_step.scheduled [OF d]])
  from Cons c d s1 s2 show ?case
    by (auto split: bool.splits if_splits intro: reach_trans)
qed

lemma RetryCleanup_run: "RetryCleanup H U E Es gone s = (res, s') \<Longrightarrow> reach s (sso_step H U N) s'"
  by (auto simp: RetryCleanup_def reach_start split: if_splits intro: sweep_run)

text \<open>The schema holds throughout.\<close>

lemma creates_ok: "creates N s s' \<Longrightarrow> db_ok (so_db s) \<Longrightarrow> db_ok (so_db s')"
  by (auto simp: creates_def)

lemma step_ok: "sso_step H U N s s' \<Longrightarrow> db_ok (so_db s) \<Longrightarrow> db_ok (so_db s')"
proof (induction rule: sso_step.induct)
  case (created E user claims s res s')
  then show ?case using creates_ok [OF creation(1) [OF created(1,2)]] by simp
next
  case (staged E claims s res s')
  then show ?case using creates_ok [OF creation(2) [OF staged(1,2)]] by simp
next
  case (brokered E n user cap v s res s')
  then show ?case using creates_ok [OF creation(3) [OF brokered(1,2)]] by simp
next
  case (developed E n user s res s')
  then show ?case using creates_ok [OF creation(4) [OF developed(1,2)]] by simp
next
  case (rotated r s i E out s')
  then show ?case using rotate_session_effect [OF rotated(5)] by metis
next
  case (admitted i s E n user subject ok s')
  then show ?case using admit_effect [OF admitted(2)] by metis
next
  case (scheduled E n i t s ok s')
  then show ?case using schedule_effect [OF scheduled(1)] by metis
next
  case (cleaned E i s ok s')
  then show ?case using cleanupOne_effect [OF cleaned(1)] by metis
next
  case (closed E i user s out s')
  then show ?case using logout_close_effect [OF closed(1)] by metis
next
  case (deleted s i user E ok s')
  then show ?case using logout_delete_effect [OF deleted(2)] by metis
next
  case (revoked tk s ok s')
  then show ?case using revoke_family_effect [OF revoked(1)] by metis
qed simp_all

interpretation sessions_ok: invariant_system "sso_step H U N" "\<lambda>s. db_ok (so_db s)" for H U N
  by unfold_locales (rule step_ok; assumption)

section \<open>A request needs a live session\<close>

lemma resolve_live:
  assumes "resolve H U E oth i user s = (Inr (p, super), s')"
  shows "\<exists>r \<in> set (uoa_sessions (so_db s)). live_row (clock E) i user (so_db s) r \<and> \<not> us_closing r \<and>
    super = super_user user (so_db s)"
proof -
  obtain c s1 where c: "resolveLocked H U E oth i user (s\<lparr>so_cache := c\<rparr>) = (Inr (p, super), s1)"
    using assms by (auto simp: resolve_def split: option.splits prod.splits)
  then obtain r where r: "session_by (live_row (clock E) i user (so_db s)) (so_db s) = Some r"
    by (auto simp: resolveLocked_def split: if_splits option.splits)
  have "\<not> us_closing r" "super = super_user user (so_db s)"
    using c r by (auto simp: resolveLocked_def Let_def split: if_splits option.splits prod.splits sum.splits)
  with session_by_SomeD [OF r] show ?thesis by blast
qed

text \<open>The session manager as the validator of the middleware.\<close>

definition sso_validator :: "'r handler \<Rightarrow> uoa \<Rightarrow> env \<Rightarrow> others \<Rightarrow> sessionCache \<Rightarrow> string list \<Rightarrow> Claims \<Rightarrow> 'r world \<Rightarrow>
    (session_error + Claims) \<times> 'r world" where
  "sso_validator H U E oth cache rvk claims w =
     (case sm_Validate H U E oth claims \<lparr>so_db = w_db w, so_cache = cache, so_revoked = rvk\<rparr> of
        (res, s) \<Rightarrow> (res, w\<lparr>w_db := so_db s\<rparr>))"

lemma Validate_live:
  assumes "sm_Validate H U E oth claims s = (Inr c, s')"
  shows "CapabilityKind claims = RafikiDirectCapability \<and> c = claims \<and> validateRafikiDirect E 0 (h_cfg H) claims (so_db s) = Inr claims \<or>
    CapabilityKind claims = [] \<and> DirectHomeID claims = [] \<and> c = claims\<lparr>IsSuper := super_user (Sub claims) (so_db s)\<rparr> \<and>
    (\<exists>r \<in> set (uoa_sessions (so_db s)). live_row (clock E) (SessionID claims) (Sub claims) (so_db s) r \<and> \<not> us_closing r)"
proof (cases "CapabilityKind claims = RafikiDirectCapability")
  case True
  then show ?thesis using assms by (auto simp: sm_Validate_def validateRafikiDirect_def split: if_splits)
next
  case False
  with assms obtain p super where k: "resolve H U E oth (SessionID claims) (Sub claims) s = (Inr (p, super), s')"
    "c = claims\<lparr>IsSuper := super\<rparr>" "CapabilityKind claims = []" "DirectHomeID claims = []"
    by (auto simp: sm_Validate_def split: if_splits prod.splits sum.splits)
  from resolve_live [OF k(1)] k(2-4) show ?thesis by blast
qed



section \<open>Maintenance ends what is left over\<close>

lemma db_ok_delete_sessions: "db_ok d \<Longrightarrow> db_ok (delete_sessions p d)"
proof -
  assume d: "db_ok d"
  have "uoa_sessions_ok (users d) (filter (\<lambda>r. \<not> p r) (uoa_sessions d))"
    using d by (auto simp: db_ok_def uoa_sessions_ok_def pk_distinct list_all_iff distinct_map_filter)
  moreover have "refs_opt (hc_session_id h) us_id (filter (\<lambda>r. \<not> p r) (uoa_sessions d))"
    if "refs_opt (hc_session_id h) us_id (uoa_sessions d)" "\<not> list_ex (\<lambda>r. p r \<and> hc_session_id h = Some (us_id r)) (uoa_sessions d)" for h
    using that by (auto simp: refs_opt_def refs_def list_ex_iff split: option.splits)
  then have "handoff_codes_ok (users d) (filter (\<lambda>r. \<not> p r) (uoa_sessions d)) (handoff_codes (delete_sessions p d))"
    using d by (auto simp: db_ok_def handoff_codes_ok_def delete_sessions_def pk_distinct list_all_iff distinct_map_filter)
  ultimately show ?thesis using d by (simp add: db_ok_def delete_sessions_def)
qed

text \<open>The provider answers every revocation.\<close>

definition provider_up :: "'r handler \<Rightarrow> uoa \<Rightarrow> bool" where
  "provider_up H U \<longleftrightarrow> (\<forall>t. uoaRequest H U ''/auth/revoke'' (\<lambda>b. post_revoke U b t) = Inr ())"

definition cleanable :: "'r handler \<Rightarrow> uoa \<Rightarrow> (string \<Rightarrow> env) \<Rightarrow> sso \<Rightarrow> string \<Rightarrow> bool" where
  "cleanable H U Es s i \<longleftrightarrow> \<not> fails (Es i) 0 \<and> \<not> fails (Es i) 1 \<and> \<not> fails (Es i) 2 \<and> \<not> fails (Es i) 3 \<and>
     (\<exists>r \<in> set (uoa_sessions (so_db s)). us_id r = i \<and> us_closing r \<and> us_cleanup_after r \<le> clock (Es i) \<and>
        unseal H U (us_sealed r) \<noteq> None)"

lemma cleanupOne_ends:
  assumes "db_ok (so_db s)" "provider_up H U" "cleanable H U Es s i"
  shows "\<exists>s'. cleanupOne H U (Es i) i s = (True, s') \<and> db_ok (so_db s') \<and>
    uoa_sessions (so_db s') = filter (\<lambda>r. us_id r \<noteq> i) (uoa_sessions (so_db s)) \<and>
    (\<forall>r t. r \<in> set (uoa_sessions (so_db s)) \<longrightarrow> us_id r = i \<longrightarrow> us_kind r = capabilityRefresh \<longrightarrow>
       unseal H U (us_sealed r) = Some t \<longrightarrow> t \<in> set (so_revoked s'))"
proof -
  from assms(3) obtain q where q: "q \<in> set (uoa_sessions (so_db s))" "us_id q = i" "us_closing q"
    "us_cleanup_after q \<le> clock (Es i)" "unseal H U (us_sealed q) \<noteq> None"
    and f: "\<not> fails (Es i) 0" "\<not> fails (Es i) 1" "\<not> fails (Es i) 2" "\<not> fails (Es i) 3"
    by (auto simp: cleanable_def)
  have u: "r = q" if "r \<in> set (uoa_sessions (so_db s))" "us_id r = i" for r
    using session_unique [OF assms(1) that(1) q(1)] that(2) q(2) by simp
  have "session_by (\<lambda>r. us_id r = i \<and> us_closing r \<and> us_cleanup_after r \<le> clock (Es i)) (so_db s) \<noteq> None"
    using q by (auto simp: session_by_None)
  then have sb: "session_by (\<lambda>r. us_id r = i \<and> us_closing r \<and> us_cleanup_after r \<le> clock (Es i)) (so_db s) = Some q"
    using session_by_SomeD u by (metis (mono_tags, lifting) not_None_eq)
  obtain t where t: "unseal H U (us_sealed q) = Some t" using q(5) by blast
  have rv: "revoke_family H U t s = (True, s\<lparr>so_revoked := t # so_revoked s\<rparr>)"
    using assms(2) by (simp add: revoke_family_def provider_up_def)
  have del: "filter (\<lambda>r. \<not> (us_id r = i \<and> us_closing r)) (uoa_sessions (so_db s)) =
      filter (\<lambda>r. us_id r \<noteq> i) (uoa_sessions (so_db s))"
    using u q(3) by (intro filter_cong) auto
  show ?thesis
    using f sb t rv del u db_ok_delete_sessions [OF assms(1)]
    by (cases "us_kind q = capabilityRefresh") (auto simp: cleanupOne_def statement_def)
qed

lemma sweep_ends:
  assumes "db_ok (so_db s)" "provider_up H U" "\<forall>i \<in> set ids. cleanable H U Es s i" "distinct ids"
  shows "\<exists>s'. sweep H U Es gone ids ok s = (ok, s') \<and>
    uoa_sessions (so_db s') = filter (\<lambda>r. us_id r \<notin> set ids) (uoa_sessions (so_db s)) \<and>
    (\<forall>r t. r \<in> set (uoa_sessions (so_db s)) \<longrightarrow> us_id r \<in> set ids \<longrightarrow> us_kind r = capabilityRefresh \<longrightarrow>
       unseal H U (us_sealed r) = Some t \<longrightarrow> t \<in> set (so_revoked s'))"
  using assms
proof (induction ids arbitrary: s)
  case Nil
  then show ?case by simp
next
  case (Cons i ids)
  from cleanupOne_ends [OF Cons.prems(1,2), of Es i] Cons.prems(3) obtain s1 where s1:
    "cleanupOne H U (Es i) i s = (True, s1)" "db_ok (so_db s1)"
    "uoa_sessions (so_db s1) = filter (\<lambda>r. us_id r \<noteq> i) (uoa_sessions (so_db s))"
    "\<forall>r t. r \<in> set (uoa_sessions (so_db s)) \<longrightarrow> us_id r = i \<longrightarrow> us_kind r = capabilityRefresh \<longrightarrow>
       unseal H U (us_sealed r) = Some t \<longrightarrow> t \<in> set (so_revoked s1)" by auto
  have "\<forall>j \<in> set ids. cleanable H U Es s1 j"
    using Cons.prems(3,4) s1(3) by (fastforce simp: cleanable_def)
  from Cons.IH [OF s1(2) Cons.prems(2) this] Cons.prems(4) obtain s2 where s2:
    "sweep H U Es gone ids ok s1 = (ok, s2)"
    "uoa_sessions (so_db s2) = filter (\<lambda>r. us_id r \<notin> set ids) (uoa_sessions (so_db s1))"
    "\<forall>r t. r \<in> set (uoa_sessions (so_db s1)) \<longrightarrow> us_id r \<in> set ids \<longrightarrow> us_kind r = capabilityRefresh \<longrightarrow>
       unseal H U (us_sealed r) = Some t \<longrightarrow> t \<in> set (so_revoked s2)" by auto
  have mono: "t \<in> set (so_revoked s1) \<Longrightarrow> t \<in> set (so_revoked s2)" for t
    by (rule revocations.reach_inv [OF sweep_run [OF s2(1)]])
  show ?case
    using s1 s2 mono by (fastforce simp: conj_commute)
qed


definition closing_sso :: sso where
  "closing_sso = sample_sso\<lparr>so_db := (so_db sample_sso)\<lparr>uoa_sessions := [sample_uoa_session\<lparr>us_closing := True\<rparr>]\<rparr>\<rparr>"

lemma sample_provider_up: "provider_up sso_handler sample_uoa"
proof -
  have "uoaConfigDomain sample_uoa (h_cfg sso_handler) = Some ''uoa''" by code_simp
  then show ?thesis by (simp add: provider_up_def uoaRequest_def sample_uoa_def checkUOAStatus_def)
qed


section \<open>Admission\<close>

definition nonce_law :: "'r handler \<Rightarrow> bool" where
  "nonce_law H \<longleftrightarrow> (\<forall>i bs. rand_bytes (h_crypto H) i = Some bs \<longrightarrow> NonceSize \<le> length bs)"

lemma stage_over:
  assumes "gcm_laws U" "nonce_law H" "stage H U E claims s = (Some i, s1)"
  shows "over H U i None capabilityRefresh (uc_RefreshToken claims) s1 \<and> i = gen_uuid E 0"
proof -
  obtain sealed where sl: "seal H U 0 (uc_RefreshToken claims) = Some sealed"
    using assms(3) by (auto simp: stage_def split: if_splits option.splits)
  have un: "unseal H U sealed = Some (uc_RefreshToken claims)"
    using unseal_seal [OF assms(1) _ sl] assms(2) by (auto simp: nonce_law_def)
  from assms(3) sl obtain row where row: "uoa_sessions (so_db s1) = uoa_sessions (so_db s) @ [row]" "db_ok (so_db s1)"
    "i = us_id row" "us_id row = gen_uuid E 0" "us_user_id row = None" "us_sealed row = sealed"
    "us_kind row = capabilityRefresh" "us_closing row"
    by (auto simp: stage_def insert_session_effect uoa_row_def split: if_splits option.splits)
  have "q = row" if "q \<in> set (uoa_sessions (so_db s1))" "us_id q = i" for q
    using session_unique [OF row(2) that(1), of row] that(2) row(1,3) by simp
  then show ?thesis using row un by (auto simp: over_def over_row_def)
qed

lemma admit_False: "db_ok (so_db s) \<Longrightarrow> admit E n i user subject s = (False, s') \<Longrightarrow> so_db s' = so_db s \<and> so_revoked s' = so_revoked s"
proof -
  let ?p = "admissible (clock E) i user subject (so_db s)"
  assume ok: "db_ok (so_db s)" and a: "admit E n i user subject s = (False, s')"
  have "distinct (map us_id (uoa_sessions (so_db s)))"
    using ok by (simp add: db_ok_def uoa_sessions_ok_def pk_distinct)
  then have "distinct (map us_id (filter ?p (uoa_sessions (so_db s))))" by (rule distinct_map_filter)
  moreover have "map us_id (filter ?p (uoa_sessions (so_db s))) = replicate (sql_count ?p (uoa_sessions (so_db s))) i"
    unfolding sql_count_def by (rule replicate_eqI) (auto simp: admissible_def)
  moreover have "distinct (replicate n i) \<Longrightarrow> n \<le> 1" for n by (cases n; cases "n - 1") auto
  ultimately have "sql_count ?p (uoa_sessions (so_db s)) \<le> 1" by simp
  then consider "sql_count ?p (uoa_sessions (so_db s)) = 0" | "sql_count ?p (uoa_sessions (so_db s)) = 1" by linarith
  then show ?thesis
    using a by cases (auto simp: admit_def update_sessions_def sql_update_none split: option.splits)
qed

lemma admit_True:
  assumes "admit E n i user subject s = (True, s')"
  shows "\<exists>r \<in> set (uoa_sessions (so_db s')). us_id r = i \<and> us_user_id r = Some user \<and> \<not> us_closing r \<and>
    us_subject r = subject \<and> clock E < us_expires_at r \<and>
    (\<exists>u \<in> set (users (so_db s')). u_id u = user \<and> u_external_id u = subject \<and> u_status u = ''active'')"
proof -
  let ?p = "admissible (clock E) i user subject (so_db s)"
  let ?f = "\<lambda>r. r\<lparr>us_user_id := Some user, us_closing := False\<rparr>"
  have d: "so_db s' = update_sessions ?p ?f (so_db s)" "sql_count ?p (uoa_sessions (so_db s)) = 1"
    using assms by (auto simp: admit_def split: option.splits)
  then obtain r where r: "r \<in> set (uoa_sessions (so_db s))" "?p r"
    using sql_count_pos [of ?p "uoa_sessions (so_db s)"] by auto
  then have "?f r \<in> set (uoa_sessions (so_db s'))" using d(1) by (auto simp: set_sql_update)
  moreover have "users (so_db s') = users (so_db s)" using d(1) by (simp add: update_sessions_def)
  ultimately show ?thesis using r(2) by (intro bexI [of _ "?f r"]) (auto simp: admissible_def list_ex_iff)
qed

lemma upsertUser_effect: "upsertUser E n subject d = Some ((u, super), d') \<Longrightarrow> uoa_sessions d' = uoa_sessions d \<and> db_ok d'"
  by (auto simp: upsertUser_def Let_def split: if_splits option.splits)

lemma cleanupStaged_over:
  assumes "concurrent H U (insert i M) oth" "over H U i u k t s"
  shows "over H U i u k t (cleanupStaged H U E oth j s)"
proof -
  obtain ok s1 where s1: "schedule E 4 j (clock E) s = (ok, s1)" by (rule prod.exhaust)
  obtain ok2 s2 where s2: "cleanupOne H U E j (oth 9 s1) = (ok2, s2)" by (rule prod.exhaust)
  have o1: "over H U i u k t s1" by (rule over_step [OF assms(2) sso_step.scheduled [OF s1]])
  have "over H U i u k t s2"
    by (rule over_step [OF over_oth [OF assms(1) o1] sso_step.cleaned [OF s2]])
  with o1 s1 s2 show ?thesis by (simp add: cleanupStaged_def split: bool.splits)
qed

text \<open>A family whose login is over is revoked, or still sealed and closing.\<close>

lemma over_lost:
  assumes "over H U i None capabilityRefresh t x"
  shows "t \<in> set (so_revoked x) \<or> (\<exists>r \<in> set (uoa_sessions (so_db x)). us_id r = i \<and> us_user_id r = None \<and> us_closing r \<and>
      us_kind r = capabilityRefresh \<and> unseal H U (us_sealed r) = Some t)"
  using assms by (fastforce simp: over_def over_row_def)


lemma sample_laws: "gcm_laws sample_uoa" "nonce_law sso_handler"
  by (simp_all add: gcm_laws_def nonce_law_def sample_uoa_def sso_handler_def sample_handler_def sample_crypto_def NonceSize_def)

definition sample_login :: UOAClaims where
  "sample_login = no_claims\<lparr>uc_Subject := ''x2'', uc_RefreshToken := ''rt'', uc_RefreshExpiresIn := 60\<rparr>"


end
