(* ===== verification/Migrations.thy ===== *)
theory Migrations
  imports Prelude "HOL-Library.List_Lexorder"
begin

text \<open>
  Schema migrations (\<open>internal/store/postgres.go\<close>): the SQL files of a directory, applied once each in
  the order of their names and recorded in the table \<open>schema_migrations\<close>. What a file does to the
  database is an argument (\<open>run\<close>), as are the file system and the failures of a run. The whole run
  holds an advisory lock, so runs of several servers come one after the other.
\<close>

section \<open>Paths\<close>

text \<open>\<open>filepath.Clean\<close>: the elements kept so far are in reverse order.\<close>

fun clean_parts :: "bool \<Rightarrow> string list \<Rightarrow> string list \<Rightarrow> string list" where
  "clean_parts rooted out [] = rev out"
| "clean_parts rooted out (p # ps) =
     (if p = [] \<or> p = ''.'' then clean_parts rooted out ps
      else if p \<noteq> ''..'' then clean_parts rooted (p # out) ps
      else (case out of
              [] \<Rightarrow> clean_parts rooted (if rooted then [] else [p]) ps
            | q # qs \<Rightarrow> clean_parts rooted (if q = ''..'' then p # out else qs) ps))"

definition Clean :: "string \<Rightarrow> string" where
  "Clean path =
     (let rooted = (path \<noteq> [] \<and> hd path = CHR ''/'');
          body = Join (clean_parts rooted [] (Split path (CHR ''/''))) ''/''
      in if rooted then CHR ''/'' # body else if body = [] then ''.'' else body)"

text \<open>The file system: which paths are directories, their entries (with whether each is a directory), and files.\<close>

record host_fs =
  is_dir :: "string \<Rightarrow> bool"
  read_dir :: "string \<Rightarrow> (string \<times> bool) list option"
  read_file :: "string \<Rightarrow> string option"

definition resolveMigrationDir :: "host_fs \<Rightarrow> string \<Rightarrow> string option" where
  "resolveMigrationDir fs dir = List.find (is_dir fs)
     ((if dir \<noteq> [] then [Clean dir] else []) @ (if dir \<noteq> ''/migrations'' then [''/migrations''] else []))"

definition sql_files :: "(string \<times> bool) list \<Rightarrow> string list" where
  "sql_files entries = sort (map fst (filter (\<lambda>(name, dir). \<not> (dir \<or> \<not> suffix ''.sql'' name)) entries))"

section \<open>A run\<close>

text \<open>
  The calls of a run. A failure refuses a call; a commit that reports a failure may still have taken
  effect, which \<open>committed\<close> decides.
\<close>

datatype migration_call =
    AcquireConn | EnsureTable | AdvisoryLock
  | CheckApplied string | BeginTx string | ExecFile string | RecordFile string | CommitTx string

record faults =
  refused :: "migration_call \<Rightarrow> bool"
  committed :: "string \<Rightarrow> bool"

datatype migration_error = NoDirectory | CallFailed migration_call | ReadDirFailed | ReadFileFailed string

text \<open>The database: its contents, and the table of applied files if it exists.\<close>

record 's migrated =
  mg_data :: 's
  mg_table :: bool
  mg_applied :: "string list"

definition migrate_file :: "(string \<Rightarrow> 's \<Rightarrow> 's option) \<Rightarrow> host_fs \<Rightarrow> faults \<Rightarrow> string \<Rightarrow> string \<Rightarrow> 's migrated \<Rightarrow>
    migration_error option \<times> 's migrated" where
  "migrate_file run fs f dir name s =
     (if refused f (CheckApplied name) then (Some (CallFailed (CheckApplied name)), s)
      else if name \<in> set (mg_applied s) then (None, s)
      else (case read_file fs (Clean (dir @ ''/'' @ name)) of None \<Rightarrow> (Some (ReadFileFailed name), s)
        | Some contents \<Rightarrow>
            if refused f (BeginTx name) then (Some (CallFailed (BeginTx name)), s)
            else (case (if refused f (ExecFile name) then None else run contents (mg_data s)) of
                    None \<Rightarrow> (Some (CallFailed (ExecFile name)), s)
                  | Some data \<Rightarrow>
                      if refused f (RecordFile name) then (Some (CallFailed (RecordFile name)), s)
                      else let s' = s\<lparr>mg_data := data, mg_applied := mg_applied s @ [name]\<rparr> in
                        if refused f (CommitTx name)
                        then (Some (CallFailed (CommitTx name)), if committed f name then s' else s)
                        else (None, s'))))"

fun migrate_files :: "(string \<Rightarrow> 's \<Rightarrow> 's option) \<Rightarrow> host_fs \<Rightarrow> faults \<Rightarrow> string \<Rightarrow> string list \<Rightarrow> 's migrated \<Rightarrow>
    migration_error option \<times> 's migrated" where
  "migrate_files run fs f dir [] s = (None, s)"
| "migrate_files run fs f dir (name # names) s =
     (case migrate_file run fs f dir name s of
        (None, s') \<Rightarrow> migrate_files run fs f dir names s'
      | (Some e, s') \<Rightarrow> (Some e, s'))"

definition RunMigrations :: "(string \<Rightarrow> 's \<Rightarrow> 's option) \<Rightarrow> host_fs \<Rightarrow> faults \<Rightarrow> string \<Rightarrow> 's migrated \<Rightarrow>
    migration_error option \<times> 's migrated" where
  "RunMigrations run fs f dir s =
     (case resolveMigrationDir fs dir of None \<Rightarrow> (Some NoDirectory, s)
      | Some migrationDir \<Rightarrow>
          if refused f AcquireConn then (Some (CallFailed AcquireConn), s)
          else if refused f EnsureTable then (Some (CallFailed EnsureTable), s)
          else let s1 = s\<lparr>mg_table := True\<rparr> in
            if refused f AdvisoryLock then (Some (CallFailed AdvisoryLock), s1)
            else (case read_dir fs migrationDir of None \<Rightarrow> (Some ReadDirFailed, s1)
              | Some entries \<Rightarrow> migrate_files run fs f migrationDir (sql_files entries) s1))"

section \<open>Runs that fail and runs that do not\<close>

definition no_faults :: faults where
  "no_faults = \<lparr>refused = (\<lambda>_. False), committed = (\<lambda>_. False)\<rparr>"

lemma no_faults_simps [simp]: "\<not> refused no_faults c" "\<not> committed no_faults n"
  by (simp_all add: no_faults_def)

text \<open>A file is applied as without failures, or not at all.\<close>

lemma migrate_file_cases:
  assumes "migrate_file run fs f dir n s = (e, s')"
  shows "migrate_file run fs no_faults dir n s = (None, s') \<and> n \<in> set (mg_applied s') \<and> set (mg_applied s) \<subseteq> set (mg_applied s') \<or>
    e \<noteq> None \<and> s' = s"
  using assms by (auto simp: migrate_file_def Let_def split: if_splits option.splits)

lemma migrate_file_applied: "n \<in> set (mg_applied s) \<Longrightarrow> migrate_file run fs no_faults dir n s = (None, s)"
  by (simp add: migrate_file_def)

lemma migrate_files_append:
  "migrate_files run fs f dir (ms @ ns) s =
     (case migrate_files run fs f dir ms s of
        (None, s') \<Rightarrow> migrate_files run fs f dir ns s' | (Some e, s') \<Rightarrow> (Some e, s'))"
  by (induction ms arbitrary: s) (auto split: prod.splits option.splits)

lemma migrate_files_skip:
  "set ns \<subseteq> set (mg_applied s) \<Longrightarrow> migrate_files run fs no_faults dir ns s = (None, s)"
  by (induction ns) (auto simp: migrate_file_applied)

text \<open>A run gets through a prefix of the files, exactly as a run without failures does.\<close>

lemma migrate_files_prefix:
  assumes "migrate_files run fs f dir ns s = (e, s')"
  shows "\<exists>ps qs. ns = ps @ qs \<and> migrate_files run fs no_faults dir ps s = (None, s') \<and> set ps \<subseteq> set (mg_applied s') \<and>
    set (mg_applied s) \<subseteq> set (mg_applied s') \<and> (e = None \<longrightarrow> qs = [])"
  using assms
proof (induction ns arbitrary: s)
  case (Cons n ns)
  obtain e1 s1 where m: "migrate_file run fs f dir n s = (e1, s1)" by force
  consider "e1 \<noteq> None" "s1 = s" | "e1 \<noteq> None" "migrate_file run fs no_faults dir n s = (None, s1)"
      "n \<in> set (mg_applied s1)" "set (mg_applied s) \<subseteq> set (mg_applied s1)"
    | "e1 = None" "migrate_file run fs no_faults dir n s = (None, s1)" "n \<in> set (mg_applied s1)"
      "set (mg_applied s) \<subseteq> set (mg_applied s1)"
    using migrate_file_cases [OF m] by blast
  then show ?case
  proof cases
    case 1
    then show ?thesis using Cons.prems m by (intro exI [of _ "[]"] exI [of _ "n # ns"]) auto
  next
    case 2
    then show ?thesis using Cons.prems m by (intro exI [of _ "[n]"] exI [of _ ns]) auto
  next
    case 3
    with Cons.prems m have "migrate_files run fs f dir ns s1 = (e, s')" by simp
    from Cons.IH [OF this] obtain ps qs where "ns = ps @ qs" "migrate_files run fs no_faults dir ps s1 = (None, s')"
      "set ps \<subseteq> set (mg_applied s')" "set (mg_applied s1) \<subseteq> set (mg_applied s')" "e = None \<longrightarrow> qs = []" by blast
    with 3 show ?thesis by (intro exI [of _ "n # ps"] exI [of _ qs]) auto
  qed
qed simp

lemma migrate_files_resume:
  assumes "migrate_files run fs f dir ns s = (e, s')"
  shows "migrate_files run fs no_faults dir ns s' = migrate_files run fs no_faults dir ns s"
    and "e = None \<Longrightarrow> migrate_files run fs no_faults dir ns s = (None, s')"
proof -
  from migrate_files_prefix [OF assms] obtain ps qs where p: "ns = ps @ qs"
    "migrate_files run fs no_faults dir ps s = (None, s')" "set ps \<subseteq> set (mg_applied s')" "e = None \<longrightarrow> qs = []" by blast
  then show "migrate_files run fs no_faults dir ns s' = migrate_files run fs no_faults dir ns s"
    using migrate_files_skip [OF p(3)] by (simp add: migrate_files_append)
  show "e = None \<Longrightarrow> migrate_files run fs no_faults dir ns s = (None, s')" using p by simp
qed

lemma migrate_file_table: "migrate_file run fs f dir n s = (e, s') \<Longrightarrow> mg_table s' = mg_table s"
  by (auto simp: migrate_file_def Let_def split: if_splits option.splits)

lemma migrate_files_table: "migrate_files run fs f dir ns s = (e, s') \<Longrightarrow> mg_table s' = mg_table s"
  by (induction ns arbitrary: s) (auto dest: migrate_file_table split: prod.splits option.splits)

lemma RunMigrations_resume:
  assumes "RunMigrations run fs f dir s = (e, s')"
  shows "RunMigrations run fs no_faults dir s' = RunMigrations run fs no_faults dir s"
    and "e = None \<Longrightarrow> RunMigrations run fs no_faults dir s = (None, s')"
proof -
  have "mg_table s' \<and> migrate_files run fs f d ns (s\<lparr>mg_table := True\<rparr>) = (e, s') \<longrightarrow>
    migrate_files run fs no_faults d ns (s'\<lparr>mg_table := True\<rparr>) = migrate_files run fs no_faults d ns (s\<lparr>mg_table := True\<rparr>)" for d ns
    using migrate_files_resume(1) [of run fs f d ns "s\<lparr>mg_table := True\<rparr>" e s'] by (cases s') auto
  moreover have "migrate_files run fs f d ns (s\<lparr>mg_table := True\<rparr>) = (e, s') \<longrightarrow> mg_table s'" for d ns
    using migrate_files_table [of run fs f d ns "s\<lparr>mg_table := True\<rparr>" e s'] by simp
  ultimately show "RunMigrations run fs no_faults dir s' = RunMigrations run fs no_faults dir s"
    using assms by (auto simp: RunMigrations_def Let_def split: if_splits option.splits)
  show "RunMigrations run fs no_faults dir s = (None, s')" if "e = None"
    using assms that migrate_files_resume(2) [of run fs f _ _ "s\<lparr>mg_table := True\<rparr>" e s']
    by (auto simp: RunMigrations_def Let_def split: if_splits option.splits)
qed

text \<open>
  The contract of work that can be resumed: attempts may fail, but what a failed attempt leaves
  behind leads an undisturbed one to the same end, and an attempt that succeeds did what an
  undisturbed one does.
\<close>

locale resumable =
  fixes attempt :: "'f \<Rightarrow> 's \<Rightarrow> 'e option \<times> 's" and undisturbed :: 'f
  assumes resume: "attempt undisturbed (snd (attempt f s)) = attempt undisturbed s"
    and succeeds: "attempt f s = (None, s') \<Longrightarrow> attempt undisturbed s = (None, s')"
begin

lemma resume_all:
  "attempt f (fold (\<lambda>g s. snd (attempt g s)) earlier s) = (None, s') \<Longrightarrow> attempt undisturbed s = (None, s')"
proof (induction earlier arbitrary: s)
  case (Cons g gs)
  then have "attempt undisturbed (snd (attempt g s)) = (None, s')" by simp
  then show ?case by (simp add: resume)
qed (simp add: succeeds)

lemma again: "attempt f s = (None, s') \<Longrightarrow> attempt undisturbed s' = (None, s')"
  by (metis resume snd_conv succeeds)

end

interpretation migrations: resumable "\<lambda>f. RunMigrations run fs f dir" no_faults for run fs dir
proof
  show "RunMigrations run fs no_faults dir (snd (RunMigrations run fs f dir s)) = RunMigrations run fs no_faults dir s" for f s
    using RunMigrations_resume(1) [of run fs f dir s] by (metis prod.collapse)
  show "RunMigrations run fs f dir s = (None, s') \<Longrightarrow> RunMigrations run fs no_faults dir s = (None, s')" for f s s'
    by (rule RunMigrations_resume(2)) simp_all
qed

text \<open>
  C18. Interrupted migrations resume: after any number of runs that failed anywhere, even in a commit
  whose outcome nobody learned, a run that succeeds leaves the database exactly as one undisturbed
  run from the beginning would have left it.
\<close>

theorem migrations_resume:
  assumes "RunMigrations run fs f dir (fold (\<lambda>g s. snd (RunMigrations run fs g dir s)) earlier s) = (None, s')"
  shows "RunMigrations run fs no_faults dir s = (None, s')"
  using assms by (rule migrations.resume_all)

section \<open>Each file once, in order\<close>

text \<open>What the files do one after the other.\<close>

fun run_files :: "(string \<Rightarrow> 's \<Rightarrow> 's option) \<Rightarrow> host_fs \<Rightarrow> string \<Rightarrow> string list \<Rightarrow> 's \<Rightarrow> 's option" where
  "run_files run fs dir [] x = Some x"
| "run_files run fs dir (n # ns) x =
     Option.bind (read_file fs (Clean (dir @ ''/'' @ n))) (\<lambda>c. Option.bind (run c x) (run_files run fs dir ns))"

lemma migrate_files_once:
  assumes "migrate_files run fs no_faults dir ns s = (None, s')" "distinct ns"
  shows "mg_applied s' = mg_applied s @ filter (\<lambda>n. n \<notin> set (mg_applied s)) ns \<and>
    run_files run fs dir (filter (\<lambda>n. n \<notin> set (mg_applied s)) ns) (mg_data s) = Some (mg_data s')"
  using assms
proof (induction ns arbitrary: s)
  case (Cons n ns)
  show ?case
  proof (cases "n \<in> set (mg_applied s)")
    case True
    then show ?thesis using Cons by (simp add: migrate_file_applied)
  next
    case False
    with Cons.prems obtain c data where r: "read_file fs (Clean (dir @ ''/'' @ n)) = Some c" "run c (mg_data s) = Some data"
      "migrate_files run fs no_faults dir ns (s\<lparr>mg_data := data, mg_applied := mg_applied s @ [n]\<rparr>) = (None, s')"
      by (auto simp: migrate_file_def split: option.splits)
    have "filter (\<lambda>m. m \<notin> set (mg_applied s @ [n])) ns = filter (\<lambda>m. m \<notin> set (mg_applied s)) ns"
      using Cons.prems(2) by (auto intro!: filter_cong)
    with Cons.IH [OF r(3)] Cons.prems(2) r False show ?thesis by simp
  qed
qed simp

lemma RunMigrations_done:
  assumes "RunMigrations run fs f dir s = (None, s')"
  obtains d entries where "resolveMigrationDir fs dir = Some d" "read_dir fs d = Some entries"
    "migrate_files run fs no_faults d (sql_files entries) (s\<lparr>mg_table := True\<rparr>) = (None, s')"
  using RunMigrations_resume(2) [OF assms] by (auto simp: RunMigrations_def Let_def split: option.splits)

text \<open>
  A run that succeeds has applied every SQL file of the directory that was not recorded before,
  once, in the order of their names, and recorded it; files recorded before did not run again, and
  a further run changes nothing.
\<close>

theorem migrations_once:
  assumes "RunMigrations run fs f dir s = (None, s')" "\<forall>d entries. read_dir fs d = Some entries \<longrightarrow> distinct (map fst entries)"
  shows "\<exists>d entries. resolveMigrationDir fs dir = Some d \<and> read_dir fs d = Some entries \<and>
    (let pending = filter (\<lambda>n. n \<notin> set (mg_applied s)) (sql_files entries) in
     sorted pending \<and> distinct pending \<and> mg_applied s' = mg_applied s @ pending \<and>
     run_files run fs d pending (mg_data s) = Some (mg_data s')) \<and>
    RunMigrations run fs no_faults dir s' = (None, s')"
proof -
  from RunMigrations_done [OF assms(1)] obtain d entries where d: "resolveMigrationDir fs dir = Some d" "read_dir fs d = Some entries"
    "migrate_files run fs no_faults d (sql_files entries) (s\<lparr>mg_table := True\<rparr>) = (None, s')" .
  have "distinct (sql_files entries)" using assms(2) d(2) by (auto simp: sql_files_def distinct_map_filter)
  moreover from migrate_files_once [OF d(3) this] have
    "mg_applied s' = mg_applied s @ filter (\<lambda>n. n \<notin> set (mg_applied s)) (sql_files entries)"
    "run_files run fs d (filter (\<lambda>n. n \<notin> set (mg_applied s)) (sql_files entries)) (mg_data s) = Some (mg_data s')" by simp_all
  moreover have "sorted (filter (\<lambda>n. n \<notin> set (mg_applied s)) (sql_files entries))" by (simp add: sql_files_def sorted_wrt_filter)
  moreover have "RunMigrations run fs no_faults dir s' = (None, s')"
    using assms(1) by (rule migrations.again)
  ultimately show ?thesis using d(1,2) by (auto simp: Let_def)
qed

section \<open>Examples\<close>

text \<open>A directory of two files; running one appends its text.\<close>

definition two_files :: host_fs where
  "two_files = \<lparr>is_dir = (\<lambda>p. p = ''migrations''),
     read_dir = (\<lambda>p. if p = ''migrations'' then Some [(''002.sql'', False), (''001.sql'', False), (''old'', True)] else None),
     read_file = map_of [(''migrations/001.sql'', ''a''), (''migrations/002.sql'', ''b'')]\<rparr>"

definition append_text :: "string \<Rightarrow> string \<Rightarrow> string option" where
  "append_text c x = Some (x @ c)"

definition lost_commit :: faults where
  "lost_commit = \<lparr>refused = (\<lambda>c. c = CommitTx ''001.sql''), committed = (\<lambda>_. True)\<rparr>"

definition fresh_base :: "string migrated" where
  "fresh_base = \<lparr>mg_data = [], mg_table = False, mg_applied = []\<rparr>"

theorem migrations_resume_witness:
  "RunMigrations append_text two_files no_faults ''migrations'' fresh_base =
     (None, \<lparr>mg_data = ''ab'', mg_table = True, mg_applied = [''001.sql'', ''002.sql'']\<rparr>)"
  by (rule migrations_resume [of _ _ no_faults _ "[lost_commit]"]) code_simp

theorem migrations_once_witness:
  "RunMigrations append_text two_files no_faults ''migrations'' \<lparr>mg_data = ''ab'', mg_table = True, mg_applied = [''001.sql'', ''002.sql'']\<rparr> =
     (None, \<lparr>mg_data = ''ab'', mg_table = True, mg_applied = [''001.sql'', ''002.sql'']\<rparr>)"
proof -
  have "RunMigrations append_text two_files no_faults ''migrations'' fresh_base =
     (None, \<lparr>mg_data = ''ab'', mg_table = True, mg_applied = [''001.sql'', ''002.sql'']\<rparr>)" by code_simp
  moreover have "\<forall>d entries. read_dir two_files d = Some entries \<longrightarrow> distinct (map fst entries)" by (simp add: two_files_def)
  ultimately show ?thesis using migrations_once by blast
qed

end
