(* ===== verification/Operations.thy ===== *)
theory Operations
  imports Uoa_Runs Migrations
begin

text \<open>
  What operators use: the audit trail and the system information of the admin API
  (\<open>internal/admin/handler.go\<close>), and the client of coturn's management console
  (\<open>internal/nat/cli.go\<close>).
\<close>

section \<open>The admin API\<close>

definition serveHTMLFile :: "host_fs \<Rightarrow> string \<Rightarrow> string response" where
  "serveHTMLFile fs path = (case read_file fs path of
     None \<Rightarrow> Error 500 ''Internal Server Error'' | Some body \<Rightarrow> Reply 200 body)"

definition serveSPA :: "host_fs \<Rightarrow> string response" where
  "serveSPA fs = serveHTMLFile fs ''admin-ui/dist/index.html''"

text \<open>The guard both handlers start with.\<close>

definition super_guard :: "Claims option \<Rightarrow> 'a response \<Rightarrow> 'a response" where
  "super_guard claims nxt = (case claims of None \<Rightarrow> Error 401 ''unauthorized''
     | Some c \<Rightarrow>
         if Sub c = [] then Error 401 ''unauthorized''
         else if \<not> IsSuper c then Error 403 ''super-user access required'' else nxt)"

definition audit_limit :: "string \<Rightarrow> int" where
  "audit_limit l = (if l = [] then 50
     else (case Atoi l of None \<Rightarrow> 50 | Some parsed \<Rightarrow> if parsed > 0 \<and> parsed \<le> 200 then parsed else 50))"

definition handleListAuditEvents :: "env \<Rightarrow> Claims option \<Rightarrow> string \<Rightarrow> string \<Rightarrow> db \<Rightarrow> audit_event list response" where
  "handleListAuditEvents E claims l action d = super_guard claims
     (if fails E 10 then Error 500 ''failed to list audit events''
      else Reply 200 (take (nat (audit_limit l)) (sort_key (\<lambda>e. - ae_occurred_at e)
        (if action \<noteq> [] then filter (\<lambda>e. ae_action e = action) (audit_events d) else audit_events d))))"

record system_info =
  si_version :: string
  si_overlay_cidr :: string
  si_turn_configured :: bool
  si_turn_host :: string
  si_turn_port :: int
  si_opa_configured :: bool
  si_redis_configured :: bool
  si_active_devices :: nat
  si_active_sessions :: nat

text \<open>A count that fails is logged and reported as zero.\<close>

definition handleSystemInfo :: "env \<Rightarrow> Config \<Rightarrow> Claims option \<Rightarrow> db \<Rightarrow> system_info response" where
  "handleSystemInfo E cfg claims d = super_guard claims (Reply 200
     \<lparr>si_version = ''0.1.0'', si_overlay_cidr = WGOverlayCIDR cfg, si_turn_configured = (TurnHost cfg \<noteq> []),
      si_turn_host = TurnHost cfg, si_turn_port = TurnPort cfg, si_opa_configured = (OPAEndpoint cfg \<noteq> []),
      si_redis_configured = (RedisURL cfg \<noteq> []),
      si_active_devices = (if fails E 10 then 0 else sql_count (\<lambda>x. d_status x = ''active'') (devices d)),
      si_active_sessions = (if fails E 11 then 0
        else sql_count (\<lambda>c. cs_status c \<notin> {''closed'', ''expired'', ''denied''}) (connect_sessions d))\<rparr>)"

text \<open>The route of the audit trail as \<open>Mount\<close> builds it: middleware, audience, handler.\<close>

definition audit_route :: "'r handler \<Rightarrow> uoa \<Rightarrow> env \<Rightarrow> others \<Rightarrow> sessionCache \<Rightarrow> string list \<Rightarrow> http_req \<Rightarrow> string \<Rightarrow> string \<Rightarrow>
    'r world \<Rightarrow> audit_event list response \<times> 'r world" where
  "audit_route H U E oth cache rvk r l action =
     Middleware.Middleware H E 20 (Some (sso_validator H U E oth cache rvk)) r
       (RequireAudience AudienceAdmin (\<lambda>c w. (handleListAuditEvents E (Some c) l action (w_db w), w)))"

lemma audit_limit_range: "1 \<le> audit_limit l \<and> audit_limit l \<le> 200"
  by (auto simp: audit_limit_def split: option.splits)

lemma list_events_done:
  assumes "handleListAuditEvents E (Some c) l action d = Reply n evs"
  shows "IsSuper c \<and> (\<exists>rest. evs @ rest = sort_key (\<lambda>e. - ae_occurred_at e)
      (if action \<noteq> [] then filter (\<lambda>e. ae_action e = action) (audit_events d) else audit_events d))"
proof -
  let ?sel = "sort_key (\<lambda>e. - ae_occurred_at e)
      (if action \<noteq> [] then filter (\<lambda>e. ae_action e = action) (audit_events d) else audit_events d)"
  have "IsSuper c \<and> evs = take (nat (audit_limit l)) ?sel"
    using assms by (simp add: handleListAuditEvents_def super_guard_def split: if_splits)
  then show ?thesis by (metis append_take_drop_id)
qed

text \<open>
  The audit trail is for super users, and shows its newest part: events are only returned on a
  live session of an active user whom the database lists as super user, whatever the token claims;
  they are at most 200 events of the trail with the requested action, newest first, and an event of
  that action left out is no newer than any of them.
\<close>

theorem audit_trail_super_only:
  assumes "audit_route H U E oth cache rvk r l action w = (Reply n evs, w')"
  shows "(\<exists>claims u. authenticateBearer (h_crypto H) (clock E) (authorization r) (InternalSessionSecret (h_cfg H)) = Inr claims \<and>
      u \<in> set (users (w_db w)) \<and> u_id u = Sub claims \<and> u_is_super u \<and>
      (\<exists>s \<in> set (uoa_sessions (w_db w)). us_id s = SessionID claims \<and> us_user_id s = Some (Sub claims) \<and>
         clock E < us_expires_at s \<and> \<not> us_closing s)) \<and>
    length evs \<le> 200 \<and> sorted_wrt (\<lambda>a b. ae_occurred_at a \<ge> ae_occurred_at b) evs \<and>
    set evs \<subseteq> {e \<in> set (audit_events (w_db w')). action = [] \<or> ae_action e = action} \<and>
    (\<forall>e \<in> set (audit_events (w_db w')). (action = [] \<or> ae_action e = action) \<and> e \<notin> set evs \<longrightarrow>
       (\<forall>a \<in> set evs. ae_occurred_at e \<le> ae_occurred_at a))"
proof -
  let ?sel = "if action \<noteq> [] then filter (\<lambda>e. ae_action e = action) (audit_events (w_db w')) else audit_events (w_db w')"
  from assms obtain claims c where a: "authenticateBearer (h_crypto H) (clock E) (authorization r) (InternalSessionSecret (h_cfg H)) = Inr claims"
    "sso_validator H U E oth cache rvk claims w = (Inr c, w')" "handleListAuditEvents E (Some c) l action (w_db w') = Reply n evs"
    by (auto simp: audit_route_def Middleware_def reject_def RequireAudience_def split: sum.splits prod.splits session_error.splits if_splits)
  from list_events_done [OF a(3)] obtain rest where e: "IsSuper c" "evs @ rest = sort_key (\<lambda>e. - ae_occurred_at e) ?sel" by blast
  from a(2) obtain s where "sm_Validate H U E oth claims \<lparr>so_db = w_db w, so_cache = cache, so_revoked = rvk\<rparr> = (Inr c, s)"
    by (auto simp: sso_validator_def split: prod.splits)
  from Validate_live [OF this] e(1) obtain row where "c = claims\<lparr>IsSuper := super_user (Sub claims) (w_db w)\<rparr>"
    "row \<in> set (uoa_sessions (w_db w))" "live_row (clock E) (SessionID claims) (Sub claims) (w_db w) row" "\<not> us_closing row"
    by (auto simp: validateRafikiDirect_def validRafikiDirect_def split: if_splits)
  then have who: "\<exists>u. u \<in> set (users (w_db w)) \<and> u_id u = Sub claims \<and> u_is_super u"
    "\<exists>s \<in> set (uoa_sessions (w_db w)). us_id s = SessionID claims \<and> us_user_id s = Some (Sub claims) \<and> clock E < us_expires_at s \<and> \<not> us_closing s"
    using e(1) by (auto simp: live_row_def super_user_def list_ex_iff)
  have srt: "sorted (map (\<lambda>e. - ae_occurred_at e) (evs @ rest))" unfolding e(2) by (rule sorted_sort_key)
  have st: "set evs \<union> set rest = set ?sel" using arg_cong [OF e(2), of set] by simp
  have "length evs \<le> 200"
    using a(3) audit_limit_range [of l] by (auto simp: handleListAuditEvents_def super_guard_def split: if_splits)
  moreover have "sorted_wrt (\<lambda>a b. ae_occurred_at a \<ge> ae_occurred_at b) evs"
    using srt by (simp add: sorted_map sorted_wrt_append)
  moreover have "set evs \<subseteq> {e \<in> set (audit_events (w_db w')). action = [] \<or> ae_action e = action}"
    using st by (auto split: if_splits)
  moreover have "\<forall>e \<in> set rest. \<forall>a \<in> set evs. ae_occurred_at e \<le> ae_occurred_at a"
    using srt by (auto simp: sorted_append)
  then have "\<forall>e \<in> set (audit_events (w_db w')). (action = [] \<or> ae_action e = action) \<and> e \<notin> set evs \<longrightarrow>
       (\<forall>a \<in> set evs. ae_occurred_at e \<le> ae_occurred_at a)"
    using st by (auto split: if_splits)
  ultimately show ?thesis using who a(1) by blast
qed

section \<open>The console of coturn\<close>

text \<open>The text after the first \<open>id=\<close>, and the identifier it starts with.\<close>

fun after_id :: "string \<Rightarrow> string option" where
  "after_id [] = None"
| "after_id (c # cs) = (if take 3 (c # cs) = ''id='' then Some (drop 3 (c # cs)) else after_id cs)"

definition id_of :: "string \<Rightarrow> string option" where
  "id_of rest =
     (let word = takeWhile (\<lambda>c. c \<notin> {CHR '','', CHR '' '', CHR 0x09}) rest in
      if word \<noteq> [] \<and> word \<noteq> rest then Some word
      else if rest \<noteq> [] then Some (TrimSpace rest) else None)"

definition parseSessionIDs :: "string \<Rightarrow> string list" where
  "parseSessionIDs output = List.map_filter (\<lambda>line. Option.bind (after_id (TrimSpace line)) id_of) (Split output (CHR 0x0A))"

text \<open>
  The connection: the commands sent and the lines received but not read. The console is an argument:
  the lines it sends in reply to a command, or \<^const>\<open>None\<close> when sending fails. Reading stops at a
  prompt or when nothing more arrives before the deadline; what follows a prompt is read later.
\<close>

type_synonym console = "string list \<Rightarrow> string \<Rightarrow> string list option"

record cli_conn =
  cc_sent :: "string list"
  cc_lines :: "string list"

fun read_response :: "string list \<Rightarrow> string \<times> string list" where
  "read_response [] = ([], [])"
| "read_response (l # ls) = (if Contains l ''> '' then (l, ls) else case read_response ls of (out, rest) \<Rightarrow> (l @ out, rest))"

definition sendCommandRead :: "console \<Rightarrow> string \<Rightarrow> cli_conn \<Rightarrow> string option \<times> cli_conn" where
  "sendCommandRead con cmd c = (case con (cc_sent c) cmd of None \<Rightarrow> (None, c)
     | Some ls \<Rightarrow> (case read_response (cc_lines c @ ls) of
         (out, rest) \<Rightarrow> (Some out, \<lparr>cc_sent = cc_sent c @ [cmd], cc_lines = rest\<rparr>)))"

definition sendCommand :: "console \<Rightarrow> string \<Rightarrow> cli_conn \<Rightarrow> bool \<times> cli_conn" where
  "sendCommand con cmd c = (case sendCommandRead con cmd c of (out, c') \<Rightarrow> (out \<noteq> None, c'))"

datatype cli_error = CliNotConfigured | CliConnect | CliAuthenticate | CliList

fun cancel_sessions :: "console \<Rightarrow> string list \<Rightarrow> cli_conn \<Rightarrow> cli_conn" where
  "cancel_sessions con [] c = c"
| "cancel_sessions con (sid # sids) c = cancel_sessions con sids (snd (sendCommand con (''cs '' @ sid) c))"

definition KillSession :: "console \<Rightarrow> bool \<Rightarrow> string \<Rightarrow> string \<Rightarrow> string \<Rightarrow> cli_error option \<times> string list" where
  "KillSession con dial addr password turnUsername =
     (if addr = [] then (Some CliNotConfigured, [])
      else if \<not> dial then (Some CliConnect, [])
      else (case (if password \<noteq> [] then sendCommand con password \<lparr>cc_sent = [], cc_lines = []\<rparr>
                  else (True, \<lparr>cc_sent = [], cc_lines = []\<rparr>)) of
              (False, c) \<Rightarrow> (Some CliAuthenticate, cc_sent c)
            | (True, c) \<Rightarrow>
                (case sendCommandRead con (''ps '' @ turnUsername) c of
                   (None, c1) \<Rightarrow> (Some CliList, cc_sent c1)
                 | (Some output, c1) \<Rightarrow> (None, cc_sent (cancel_sessions con (parseSessionIDs output) c1)))))"

text \<open>A line of the listing as the comment in the code shows it.\<close>

definition session_line :: "nat \<Rightarrow> string \<Rightarrow> string \<Rightarrow> string" where
  "session_line n sid rest = ''  '' @ dec_nat n @ '') id='' @ sid @ '', '' @ rest"

definition session_word :: "string \<Rightarrow> bool" where
  "session_word s \<longleftrightarrow> s \<noteq> [] \<and> list_all is_word s"

definition listed_rest :: "string \<Rightarrow> bool" where
  "listed_rest s \<longleftrightarrow> s \<noteq> [] \<and> list_all (\<lambda>c. (plain_char c \<or> c = CHR '' '') \<and> c \<noteq> CHR ''>'') s \<and> plain_char (last s)"

lemma after_id_digits: "list_all is_digit ds \<Longrightarrow> after_id (ds @ '') id='' @ s) = Some s"
  by (induction ds) (auto simp: is_digit_code)

lemma id_of_word: "session_word s \<Longrightarrow> id_of (s @ '','' @ r) = Some s"
proof -
  assume s: "session_word s"
  then have "\<forall>c \<in> set s. c \<notin> {CHR '','', CHR '' '', CHR 0x09}"
    by (auto simp: session_word_def list_all_iff is_word_def is_letter_def is_digit_def less_eq_char_def)
  then have "takeWhile (\<lambda>c. c \<notin> {CHR '','', CHR '' '', CHR 0x09}) (s @ '','' @ r) = s" by (simp add: takeWhile_append2)
  with s show ?thesis by (simp add: id_of_def session_word_def Let_def)
qed

lemma trim_left_blank: "trim_left (CHR '' '' # s) = trim_left s"
proof -
  consider "s = []" | a where "s = [a]" | a b r where "s = a # b # r" by (metis list.exhaust)
  then show ?thesis by cases (auto simp: trim_left_def space1_def)
qed

lemma digit_plain: "is_digit c \<Longrightarrow> plain_char c"
  by (auto simp: is_digit_def plain_char_def space1_def less_eq_char_def less_char_def)

lemma TrimSpace_line:
  assumes "listed_rest rest"
  shows "TrimSpace (session_line n sid rest) = dec_nat n @ '') id='' @ sid @ '', '' @ rest"
proof -
  let ?t = "dec_nat n @ '') id='' @ sid @ '', '' @ rest"
  have "plain_char (hd ?t)" using dec_nat_digits [of n] by (cases "dec_nat n") (auto intro: digit_plain)
  moreover have "plain_char (last ?t)" using assms by (simp add: listed_rest_def)
  ultimately have "TrimSpace ?t = ?t" by (intro TrimSpace_plain) simp_all
  then show ?thesis by (simp add: session_line_def TrimSpace_def trim_left_blank)
qed

definition listing :: "(nat \<times> string \<times> string) list \<Rightarrow> string list" where
  "listing es = map (\<lambda>(n, sid, rest). session_line n sid rest @ [CHR 0x0A]) es"

definition listable :: "(nat \<times> string \<times> string) list \<Rightarrow> bool" where
  "listable es \<longleftrightarrow> list_all (\<lambda>(n, sid, rest). session_word sid \<and> listed_rest rest) es"

lemma word_char: "is_word c \<Longrightarrow> c \<noteq> CHR ''>'' \<and> c \<noteq> CHR 0x0A"
  by (auto simp: is_word_def is_letter_def is_digit_def less_eq_char_def)

lemma session_line_chars:
  assumes "session_word sid" "listed_rest rest" "c \<in> set (session_line n sid rest)"
  shows "c \<noteq> CHR ''>'' \<and> c \<noteq> CHR 0x0A"
proof -
  have "c \<in> set (dec_nat n) \<Longrightarrow> is_word c" using dec_nat_digits [of n] by (auto simp: list_all_iff is_word_def)
  moreover have "plain_char c \<Longrightarrow> c \<noteq> CHR 0x0A" by (auto simp: plain_char_def space1_def)
  ultimately show ?thesis
    using assms word_char [of c] by (auto simp: session_line_def session_word_def listed_rest_def list_all_iff)
qed

lemma parse_listing: "listable es \<Longrightarrow> parseSessionIDs (concat (listing es)) = map (\<lambda>(n, sid, rest). sid) es"
proof (induction es)
  case (Cons e es)
  obtain n sid rest where e: "e = (n, sid, rest)" by (metis surj_pair)
  with Cons.prems have w: "session_word sid" "listed_rest rest" by (auto simp: listable_def)
  have "Split (session_line n sid rest @ [CHR 0x0A] @ concat (listing es)) (CHR 0x0A) =
      session_line n sid rest # Split (concat (listing es)) (CHR 0x0A)"
    using session_line_chars [OF w, of "CHR 0x0A" n] Split_append by auto
  moreover have "Option.bind (after_id (TrimSpace (session_line n sid rest))) id_of = Some sid"
    using after_id_digits [OF dec_nat_digits] id_of_word [OF w(1), of "'' '' @ rest"] by (simp add: TrimSpace_line [OF w(2)])
  ultimately show ?case using Cons e by (simp add: parseSessionIDs_def listing_def listable_def List.map_filter_simps)
qed (simp add: parseSessionIDs_def listing_def List.map_filter_simps)

lemma no_prompt: "CHR ''>'' \<notin> set l \<Longrightarrow> \<not> Contains l ''> ''"
  by (induction l) auto

lemma read_silent: "\<forall>l \<in> set ls. \<not> Contains l ''> '' \<Longrightarrow> read_response ls = (concat ls, [])"
  by (induction ls) auto

lemma listing_silent: "listable es \<Longrightarrow> \<forall>l \<in> set (listing es). \<not> Contains l ''> ''"
  by (auto simp: listing_def listable_def list_all_iff dest!: session_line_chars intro!: no_prompt)

lemma cancel_sent:
  assumes "\<forall>sent cmd. con sent cmd \<noteq> None"
  shows "cc_sent (cancel_sessions con sids c) = cc_sent c @ map (\<lambda>sid. ''cs '' @ sid) sids"
proof (induction sids arbitrary: c)
  case (Cons sid sids)
  have "cc_sent (snd (sendCommand con (''cs '' @ sid) c)) = cc_sent c @ [''cs '' @ sid]"
    using assms by (auto simp: sendCommand_def sendCommandRead_def split: option.splits prod.splits)
  with Cons show ?case by simp
qed simp

text \<open>
  Killing a session cancels every session coturn lists for the user, and nothing else: with a
  console that answers, the commands sent are the password if there is one, the query for the user,
  and one cancellation for each listed identifier, in order.
\<close>

theorem kill_cancels_listed:
  assumes "addr \<noteq> []" "\<forall>sent cmd. con sent cmd \<noteq> None"
    and "password \<noteq> [] \<longrightarrow> (\<exists>ls. con [] password = Some ls \<and> (\<forall>l \<in> set ls. \<not> Contains l ''> ''))"
    and "con (if password \<noteq> [] then [password] else []) (''ps '' @ user) = Some (listing es)" "listable es"
  shows "KillSession con True addr password user =
    (None, (if password \<noteq> [] then [password] else []) @ [''ps '' @ user] @ map (\<lambda>(n, sid, rest). ''cs '' @ sid) es)"
proof -
  let ?c = "\<lparr>cc_sent = if password \<noteq> [] then [password] else [], cc_lines = []\<rparr>"
  have "(if password \<noteq> [] then sendCommand con password \<lparr>cc_sent = [], cc_lines = []\<rparr> else (True, \<lparr>cc_sent = [], cc_lines = []\<rparr>)) = (True, ?c)"
    using assms(3) by (auto simp: sendCommand_def sendCommandRead_def read_silent)
  moreover have "sendCommandRead con (''ps '' @ user) ?c =
      (Some (concat (listing es)), \<lparr>cc_sent = cc_sent ?c @ [''ps '' @ user], cc_lines = []\<rparr>)"
    using assms(4) read_silent [OF listing_silent [OF assms(5)]] by (simp add: sendCommandRead_def)
  moreover have "map (\<lambda>sid. ''cs '' @ sid) (map (\<lambda>(n, sid, rest). sid) es) = map (\<lambda>(n, sid, rest). ''cs '' @ sid) es" by auto
  ultimately show ?thesis
    using assms(1) cancel_sent [OF assms(2)] parse_listing [OF assms(5)] by (simp add: KillSession_def split del: if_split)
qed

section \<open>Examples\<close>

definition trail_event :: "time \<Rightarrow> string \<Rightarrow> audit_event" where
  "trail_event t act = \<lparr>ae_actor_user = None, ae_actor_device = None, ae_action = act, ae_outcome = ''success'', ae_target_table = [],
     ae_target_id = None, ae_remote_ip = None, ae_user_agent = [], ae_metadata = [], ae_occurred_at = t\<rparr>"

definition trail_db :: db where
  "trail_db = (so_db sample_sso)\<lparr>users := [(mk_user ''u1'')\<lparr>u_external_id := ''x1'', u_is_super := True\<rparr>],
     audit_events := [trail_event 1 ''a'', trail_event 2 ''b'', trail_event 3 ''a'']\<rparr>"

theorem audit_trail_super_only_witness:
  "\<exists>evs w'. audit_route sso_handler sample_uoa (calm 8 []) (\<lambda>n s. s) \<lparr>entries = [], flights = []\<rparr> [] sample_req [] ''a''
      (sample_world trail_db) = (Reply 200 evs, w') \<and> map ae_occurred_at evs = [3, 1] \<and> length evs \<le> 200"
proof -
  let ?run = "audit_route sso_handler sample_uoa (calm 8 []) (\<lambda>n s. s) \<lparr>entries = [], flights = []\<rparr> [] sample_req [] ''a''
      (sample_world trail_db)"
  let ?s = "\<lparr>so_db = w_db (sample_world trail_db), so_cache = \<lparr>entries = [], flights = []\<rparr>, so_revoked = []\<rparr>"
  let ?v = "sm_Validate sso_handler sample_uoa (calm 8 []) (\<lambda>n s. s) sample_bearer ?s"
  have f: "fst ?v = Inr (sample_bearer\<lparr>IsSuper := True\<rparr>)"
    "authenticateBearer (h_crypto sso_handler) (clock (calm 8 [])) (authorization sample_req)
       (InternalSessionSecret (h_cfg sso_handler)) = Inr sample_bearer"
    "case handleListAuditEvents (calm 8 []) (Some (sample_bearer\<lparr>IsSuper := True\<rparr>)) [] ''a'' (so_db (snd ?v)) of
       Reply n evs \<Rightarrow> n = 200 \<and> map ae_occurred_at evs = [3, 1] | _ \<Rightarrow> False"
    "HasAudience (sample_bearer\<lparr>IsSuper := True\<rparr>) AudienceAdmin"
    by code_simp+
  from f(1) obtain s where s: "?v = (Inr (sample_bearer\<lparr>IsSuper := True\<rparr>), s)" by (metis prod.collapse)
  from f(3) obtain evs where e: "handleListAuditEvents (calm 8 []) (Some (sample_bearer\<lparr>IsSuper := True\<rparr>)) [] ''a'' (so_db s) = Reply 200 evs"
    "map ae_occurred_at evs = [3, 1]" unfolding s snd_conv by (auto split: response.splits)
  have r: "?run = (Reply 200 evs, (sample_world trail_db)\<lparr>w_db := so_db s\<rparr>)"
    using f(2,4) s e(1) by (simp add: audit_route_def Middleware_def sso_validator_def RequireAudience_def)
  have "length evs \<le> 200" using audit_trail_super_only [OF r] by (elim conjE)
  with r e(2) show ?thesis by (intro exI [of _ evs] exI conjI)
qed

definition sample_console :: console where
  "sample_console sent cmd = (if cmd = ''ps u'' then Some (listing [(1, ''001'', ''user u, realm''), (2, ''007'', ''x'')]) else Some [])"

theorem kill_cancels_listed_witness:
  "KillSession sample_console True ''127.0.0.1:5766'' ''pw'' ''u'' = (None, [''pw'', ''ps u'', ''cs 001'', ''cs 007''])"
proof -
  have "listable [(1, ''001'', ''user u, realm''), (2, ''007'', ''x'')]" by code_simp
  moreover have "sample_console [''pw''] ''ps u'' = Some (listing [(1, ''001'', ''user u, realm''), (2, ''007'', ''x'')])"
    "sample_console [] ''pw'' = Some []" by (simp_all add: sample_console_def)
  ultimately show ?thesis
    using kill_cancels_listed [of "''127.0.0.1:5766''" sample_console "''pw''" "''u''" "[(1, ''001'', ''user u, realm''), (2, ''007'', ''x'')]"]
    by (simp add: sample_console_def)
qed

end
