(* ===== verification/Control_Server.thy ===== *)
theory Control_Server
  imports Migrations Server
begin

text \<open>
  The control server as a process (\<open>cmd/control-server/main.go\<close>, \<open>internal/store/redis.go\<close>): what it
  does before it accepts requests, the probes, and how it ends. What the machine, the database
  server, Redis and the network do during the boot is the argument \<open>out\<close>.
\<close>

section \<open>Boot\<close>

datatype boot_error =
    ConfigPanic | InvalidConfig config_error | TelemetryFailed | DatabaseFailed
  | MigrationsFailed migration_error | RedisFailed | OverlayInvalid overlay_error
  | HubInvalid hub_error | HubInitFailed | StatsURLInvalid | ListenFailed

text \<open>
  The surroundings of a boot. \<open>out_redis\<close>: the store behind a Redis URL that parses and answers;
  \<open>out_listen\<close>: the port the listener got; \<open>out_run\<close>: what a migration does to the database.
\<close>

record 'r outside =
  out_url_password :: "string \<Rightarrow> string option option"
  out_telemetry :: bool
  out_database :: "string \<Rightarrow> bool"
  out_fs :: host_fs
  out_run :: "string \<Rightarrow> db \<Rightarrow> db option"
  out_faults :: faults
  out_redis :: "string \<Rightarrow> 'r option"
  out_shell :: shell
  out_keyfile :: "string option"
  out_stats :: "string \<Rightarrow> bool"
  out_listen :: "int \<Rightarrow> int option"

definition NewRedis :: "'r outside \<Rightarrow> Config \<Rightarrow> 'r option option" where
  "NewRedis out cfg = (if RedisURL cfg = [] then Some None else map_option Some (out_redis out (RedisURL cfg)))"

definition choose_limiter :: "Config \<Rightarrow> 'r option \<Rightarrow> 'r limiter" where
  "choose_limiter cfg rdb = (case rdb of Some r \<Rightarrow> OnRedis r
     | None \<Rightarrow> if DevMode cfg then InMemory NewMemoryLimiter else NilLimiter)"

record 'r running =
  rn_cfg :: Config
  rn_limiter :: "'r limiter"
  rn_rdb :: bool
  rn_overlay :: "Allocator option"
  rn_hub :: "Hub option"
  rn_stats :: bool
  rn_port :: int

text \<open>\<open>runServe\<close> up to the listener: the server, with the database and the commands run so far.\<close>

definition runServe_boot :: "'r outside \<Rightarrow> env \<Rightarrow> Config \<Rightarrow> db migrated \<Rightarrow> history \<Rightarrow>
    (boot_error + 'r running) \<times> db migrated \<times> history" where
  "runServe_boot out E cfg s h =
     (if \<not> out_telemetry out then (Inl TelemetryFailed, s, h)
      else if \<not> out_database out (DatabaseURL cfg) then (Inl DatabaseFailed, s, h)
      else (case RunMigrations (out_run out) (out_fs out) (out_faults out) ''migrations'' s of
              (Some e, s1) \<Rightarrow> (Inl (MigrationsFailed e), s1, h)
            | (None, s1) \<Rightarrow>
          (case NewRedis out cfg of None \<Rightarrow> (Inl RedisFailed, s1, h)
           | Some rdb \<Rightarrow>
          (case (if WGOverlayCIDR cfg = [] then Inr None else map_sum id Some (overlay_New True (WGOverlayCIDR cfg))) of
             Inl e \<Rightarrow> (Inl (OverlayInvalid e), s1, h)
           | Inr overlayAlloc \<Rightarrow>
          (case NewHub True cfg of Inl e \<Rightarrow> (Inl (HubInvalid e), s1, h)
           | Inr hub \<Rightarrow>
          (case hub_Init E 0 (out_shell out) (out_keyfile out) hub (WGServerPort cfg) (mg_data s1) h of
             (False, h1) \<Rightarrow> (Inl HubInitFailed, s1, h1)
           | (True, h1) \<Rightarrow>
               if CoturnRedisStatsDB cfg \<noteq> [] \<and> \<not> out_stats out (CoturnRedisStatsDB cfg) then (Inl StatsURLInvalid, s1, h1)
               else (case out_listen out (ServerPort cfg) of None \<Rightarrow> (Inl ListenFailed, s1, h1)
                 | Some port \<Rightarrow>
                     (Inr \<lparr>rn_cfg = cfg, rn_limiter = choose_limiter cfg rdb, rn_rdb = (rdb \<noteq> None), rn_overlay = overlayAlloc,
                        rn_hub = hub, rn_stats = (CoturnRedisStatsDB cfg \<noteq> []), rn_port = port\<rparr>, s1, h1))))))))"

definition main_boot :: "(string \<Rightarrow> string) \<Rightarrow> 'r outside \<Rightarrow> env \<Rightarrow> db migrated \<Rightarrow> history \<Rightarrow>
    (boot_error + 'r running) \<times> db migrated \<times> history" where
  "main_boot V out E s h =
     (case Load V of Inl ws \<Rightarrow> (Inl ConfigPanic, s, h)
      | Inr cfg \<Rightarrow>
          (case Validate (out_url_password out) cfg of Some e \<Rightarrow> (Inl (InvalidConfig e), s, h)
           | None \<Rightarrow> runServe_boot out E cfg s h))"

section \<open>Probes and the end\<close>

text \<open>\<open>/healthz\<close> answers while the process runs; \<open>/readyz\<close> asks the flag, the database and Redis.\<close>

definition healthz :: "string response" where
  "healthz = Reply 200 ''ok''"

definition readyz :: "'r running \<Rightarrow> bool \<Rightarrow> bool \<Rightarrow> bool \<Rightarrow> string response" where
  "readyz srv ready db_up redis_up =
     (if \<not> ready then Error 503 ''shutting down''
      else if \<not> db_up then Error 503 ''db unavailable''
      else if rn_rdb srv \<and> \<not> redis_up then Error 503 ''redis unavailable''
      else Reply 200 ''ready'')"

definition shutdownGrace :: duration where "shutdownGrace = 30 * Second"

datatype exit_reason = CleanExit | PrematureClose | ServeFailed | DrainDeadline | DrainForced | ServeStuck

text \<open>
  What happens to a running server: the signals in order, \<open>Serve\<close> returning before any of them
  (and whether with an error), when the last request in flight is over, and when \<open>Serve\<close> returns
  after \<open>Shutdown\<close> was called. \<^const>\<open>None\<close>: it never happens.
\<close>

record lifetime =
  lt_signals :: "time list"
  lt_serve :: "(time \<times> bool) option"
  lt_drained :: "time option"
  lt_returned :: "time option"

text \<open>The ready flag: set once the listener is bound, cleared by the first signal.\<close>

definition ready_at :: "lifetime \<Rightarrow> time \<Rightarrow> bool" where
  "ready_at l t = (case lt_signals l of [] \<Rightarrow> True | t0 # _ \<Rightarrow> t < t0)"

text \<open>The goroutine of \<open>main\<close>: a second signal within twice the grace period forces the shutdown.\<close>

definition forceShutdown :: "lifetime \<Rightarrow> time option" where
  "forceShutdown l = (case lt_signals l of
     t0 # t1 # _ \<Rightarrow> if t1 < t0 + 2 * shutdownGrace then Some t1 else None | _ \<Rightarrow> None)"

text \<open>From the signal at \<open>t0\<close>: \<open>Shutdown\<close> with its deadline, then the wait for \<open>Serve\<close>.\<close>

definition drain :: "lifetime \<Rightarrow> time \<Rightarrow> time \<times> exit_reason" where
  "drain l t0 =
     (let stop = (case forceShutdown l of
            Some f \<Rightarrow> if f < t0 + shutdownGrace then (f, DrainForced) else (t0 + shutdownGrace, DrainDeadline)
          | None \<Rightarrow> (t0 + shutdownGrace, DrainDeadline)) in
      (case lt_drained l of None \<Rightarrow> stop
       | Some d \<Rightarrow>
           let t1 = max t0 d in
           if fst stop \<le> t1 then stop
           else (case lt_returned l of None \<Rightarrow> (t1 + shutdownGrace, ServeStuck)
             | Some r \<Rightarrow> if max t1 r < t1 + shutdownGrace then (max t1 r, CleanExit) else (t1 + shutdownGrace, ServeStuck))))"

definition runServe_end :: "lifetime \<Rightarrow> (time \<times> exit_reason) option" where
  "runServe_end l =
     (case lt_serve l of
        None \<Rightarrow> (case lt_signals l of [] \<Rightarrow> None | t0 # _ \<Rightarrow> Some (drain l t0))
      | Some (t, err) \<Rightarrow>
          let closed = Some (t, if err then ServeFailed else PrematureClose) in
          (case lt_signals l of [] \<Rightarrow> closed | t0 # _ \<Rightarrow> if t \<le> t0 then closed else Some (drain l t0)))"

section \<open>What a booted server has\<close>

lemma hub_Init_SyncAll:
  assumes "hub_Init E i sh keyFile (Some hub) port d h = (True, h')"
  obtains h1 where "SyncAll E i sh (Some hub) d h1 = (True, h')"
  using assms by (auto simp: hub_Init_def split: prod.splits bool.splits)

lemma NewHub_name: "NewHub pool cfg = Inr (Some hub) \<Longrightarrow> hub_if hub = WGInterfaceName cfg"
  by (auto simp: NewHub_def split: if_splits sum.splits)

lemma runServe_boot_done:
  assumes "runServe_boot out E cfg s h = (Inr srv, s', h')"
  obtains rdb where "RunMigrations (out_run out) (out_fs out) (out_faults out) ''migrations'' s = (None, s')"
    "NewRedis out cfg = Some rdb" "rn_limiter srv = choose_limiter cfg rdb" "NewHub True cfg = Inr (rn_hub srv)"
    "hub_Init E 0 (out_shell out) (out_keyfile out) (rn_hub srv) (WGServerPort cfg) (mg_data s') h = (True, h')"
  using assms by (auto simp: runServe_boot_def split: if_splits prod.splits option.splits sum.splits bool.splits)

lemma main_boot_done:
  assumes "main_boot V out E s h = (Inr srv, s', h')"
  obtains cfg where "Load V = Inr cfg" "Validate (out_url_password out) cfg = None" "runServe_boot out E cfg s h = (Inr srv, s', h')"
  using assms by (auto simp: main_boot_def split: sum.splits option.splits)

lemma validated_redis:
  assumes "Validate up cfg = None" "\<not> DevMode cfg"
  shows "RedisURL cfg \<noteq> []"
  using assms by (auto simp: Validate_def validate_redis_def split: if_splits)

text \<open>
  C14. A server that answers requests has what its handlers rely on: every migration of the directory
  is applied, the rate limiter exists and outside development mode is the shared one in Redis, and
  with a WireGuard hub the interface carries exactly the peers of the migrated database.
\<close>

theorem boot_complete:
  assumes "main_boot V out E s h = (Inr srv, s', h')"
    and "wg_laws (out_shell out) (getenv V ''WG_INTERFACE_NAME'' ''wg0'') view" "db_ok (mg_data s')" "overlay_v4 (mg_data s')"
  shows "(\<exists>d entries. resolveMigrationDir (out_fs out) ''migrations'' = Some d \<and> read_dir (out_fs out) d = Some entries \<and>
      set (sql_files entries) \<subseteq> set (mg_applied s')) \<and>
    rn_limiter srv \<noteq> NilLimiter \<and> (V ''DEV_MODE'' \<noteq> ''true'' \<longrightarrow> (\<exists>r. out_redis out (V ''REDIS_URL'') = Some r \<and> rn_limiter srv = OnRedis r)) \<and>
    (rn_hub srv \<noteq> None \<longrightarrow> dom (view h') = wanted_keys (mg_data s'))"
proof -
  from main_boot_done [OF assms(1)] obtain cfg where c: "Load V = Inr cfg" "Validate (out_url_password out) cfg = None"
    "runServe_boot out E cfg s h = (Inr srv, s', h')" .
  from runServe_boot_done [OF c(3)] obtain rdb where r:
    "RunMigrations (out_run out) (out_fs out) (out_faults out) ''migrations'' s = (None, s')" "NewRedis out cfg = Some rdb"
    "rn_limiter srv = choose_limiter cfg rdb" "NewHub True cfg = Inr (rn_hub srv)"
    "hub_Init E 0 (out_shell out) (out_keyfile out) (rn_hub srv) (WGServerPort cfg) (mg_data s') h = (True, h')" .
  have f: "DevMode cfg \<longleftrightarrow> V ''DEV_MODE'' = ''true''" "RedisURL cfg = V ''REDIS_URL''"
    "WGInterfaceName cfg = getenv V ''WG_INTERFACE_NAME'' ''wg0''"
    using c(1) by (auto simp: Load_def Let_def split: prod.splits if_splits)
  have files: "\<exists>d entries. resolveMigrationDir (out_fs out) ''migrations'' = Some d \<and> read_dir (out_fs out) d = Some entries \<and>
      set (sql_files entries) \<subseteq> set (mg_applied s')"
  proof -
    from RunMigrations_done [OF r(1)] obtain d entries where d: "resolveMigrationDir (out_fs out) ''migrations'' = Some d"
      "read_dir (out_fs out) d = Some entries"
      "migrate_files (out_run out) (out_fs out) no_faults d (sql_files entries) (s\<lparr>mg_table := True\<rparr>) = (None, s')" .
    from migrate_files_prefix [OF d(3)] d(1,2) show ?thesis by auto
  qed
  have "rn_limiter srv \<noteq> NilLimiter \<and> (\<not> DevMode cfg \<longrightarrow> (\<exists>r. out_redis out (RedisURL cfg) = Some r \<and> rn_limiter srv = OnRedis r))"
    using r(2,3) validated_redis [OF c(2)] by (cases rdb) (auto simp: NewRedis_def choose_limiter_def split: if_splits)
  moreover have "dom (view h') = wanted_keys (mg_data s')" if hub: "rn_hub srv = Some hub" for hub
  proof -
    have "hub_if hub = getenv V ''WG_INTERFACE_NAME'' ''wg0''" using NewHub_name r(4) hub f(3) by metis
    with assms(2) have L: "wg_laws (out_shell out) (hub_if hub) view" by simp
    from r(5) hub have "hub_Init E 0 (out_shell out) (out_keyfile out) (Some hub) (WGServerPort cfg) (mg_data s') h = (True, h')" by simp
    from hub_Init_SyncAll [OF this] obtain h1 where "SyncAll E 0 (out_shell out) (Some hub) (mg_data s') h1 = (True, h')" .
    from SyncAll_reconciles(1) [OF L assms(3,4) this] show ?thesis .
  qed
  ultimately show ?thesis using files f by auto
qed

section \<open>The server ends\<close>

lemma drain_bounds:
  assumes "\<forall>t1 rest. lt_signals l = t0 # t1 # rest \<longrightarrow> t0 \<le> t1" "\<exists>rest. lt_signals l = t0 # rest"
  shows "t0 \<le> fst (drain l t0) \<and> fst (drain l t0) \<le> t0 + 2 * shutdownGrace"
  using assms by (auto simp: drain_def forceShutdown_def Let_def shutdownGrace_def Second_def
      split: option.splits list.splits if_splits)


section \<open>Examples\<close>

text \<open>A machine with one migration, which creates a database with one device.\<close>

definition sample_outside :: "redis_store outside" where
  "sample_outside = \<lparr>out_url_password = (\<lambda>_. Some (Some ''pw'')), out_telemetry = True, out_database = (\<lambda>_. True),
     out_fs = two_files, out_run = (\<lambda>c d. Some sample_net), out_faults = no_faults, out_redis = (\<lambda>_. Some Map.empty),
     out_shell = plain_wg ''wg0'', out_keyfile = Some ''key'', out_stats = (\<lambda>_. True), out_listen = Some\<rparr>"

definition hub_vars :: "string \<Rightarrow> string" where
  "hub_vars k = (if k = ''WG_PRIVATE_KEY'' then ''p'' else if k = ''WG_OVERLAY_CIDR'' then ''10.0.0.0/24'' else sample_vars k)"

definition blank_base :: "db migrated" where
  "blank_base = \<lparr>mg_data = empty_db, mg_table = False, mg_applied = []\<rparr>"

theorem boot_complete_witness:
  "\<exists>srv s' h'. main_boot hub_vars sample_outside (calm 7 []) blank_base [] = (Inr srv, s', h') \<and>
     mg_applied s' = [''001.sql'', ''002.sql''] \<and> rn_limiter srv = OnRedis Map.empty \<and>
     dom (plain_view ''wg0'' h') = wanted_keys sample_net"
proof -
  let ?run = "main_boot hub_vars sample_outside (calm 7 []) blank_base []"
  have "case fst ?run of Inl e \<Rightarrow> False | Inr srv \<Rightarrow> rn_hub srv \<noteq> None" by code_simp
  moreover have a: "mg_applied (fst (snd ?run)) = [''001.sql'', ''002.sql'']" by code_simp
  ultimately obtain srv s' h' where r: "?run = (Inr srv, s', h')" "rn_hub srv \<noteq> None" "mg_applied s' = [''001.sql'', ''002.sql'']"
    by (cases ?run) (auto split: sum.splits)
  have m: "RunMigrations (out_run sample_outside) (out_fs sample_outside) (out_faults sample_outside) ''migrations'' blank_base = (None, s')"
  proof -
    from main_boot_done [OF r(1)] obtain cfg where "runServe_boot sample_outside (calm 7 []) cfg blank_base [] = (Inr srv, s', h')" by blast
    from runServe_boot_done [OF this] show ?thesis by blast
  qed
  have d: "mg_data s' = sample_net"
  proof -
    have "mg_data (snd (migrate_files (\<lambda>c d. Some sample_net) two_files no_faults ''migrations'' [''001.sql'', ''002.sql'']
        (blank_base\<lparr>mg_table := True\<rparr>))) = sample_net"
      by (simp add: migrate_file_def two_files_def blank_base_def Clean_def)
    moreover have "resolveMigrationDir two_files ''migrations'' = Some ''migrations''"
      "map_option sql_files (read_dir two_files ''migrations'') = Some [''001.sql'', ''002.sql'']" by code_simp+
    ultimately show ?thesis using m by (auto simp: RunMigrations_def sample_outside_def Let_def)
  qed
  have ok: "db_ok sample_net" "overlay_v4 sample_net" by code_simp+
  have L: "wg_laws (out_shell sample_outside) (getenv hub_vars ''WG_INTERFACE_NAME'' ''wg0'') (plain_view ''wg0'')"
    using plain_wg_laws by (simp add: sample_outside_def getenv_def hub_vars_def sample_vars_def)
  have "hub_vars ''DEV_MODE'' \<noteq> ''true''" by code_simp
  with boot_complete [OF r(1) L] r ok d show ?thesis
    by (intro exI [of _ srv] exI [of _ s'] exI [of _ h']) (auto simp: sample_outside_def)
qed


end
