(* ===== verification/Routes.thy ===== *)
theory Routes
  imports Mobile_Safety Relay_Stats Login_Safety Direct_Safety Operations Control_Server
begin

text \<open>
  The router of the control server: the routes the seven packages mount on it
  (\<open>cmd/control-server/main.go\<close> and the functions \<open>Mount\<close>), the gates in front of each, and a request
  served through them, on the state all components share. What the pages and probes answer is in
  \<open>Login\<close>, \<open>Uoa_Config\<close>, \<open>Operations\<close> and \<open>Control_Server\<close>; they do not touch this state.
\<close>

section \<open>The table of routes\<close>

datatype target =
    T_healthz | T_readyz
  | T_UOAConfig | T_JWKS | T_Login | T_Callback | T_MobileCallback | T_HandoffExchange | T_MintSession
  | T_Session | T_Logout | T_DebugIssue | T_DebugRedeem | T_DevStatus | T_DevLogin | T_ReferenceSession | T_Profile
  | T_Root | T_SPA | T_Static | T_Assets | T_ListAudit | T_SystemInfo
  | T_PairStart | T_PairStatus | T_PairClaim | T_ListDevices | T_GetDevice | T_Heartbeat | T_RotateKey
  | T_PeerConfig | T_DeleteDevice
  | T_Enroll | T_ListServers | T_Disconnect
  | T_UpsertServices | T_ListDeviceServices | T_ListAllServices
  | T_CreateSession | T_Candidates | T_Relay | T_ListSessions | T_Events
  | T_HomeStream | T_HomeRegister | T_Stream | T_Register

text \<open>
  The middleware a route runs before its handler, the outermost first: \<open>auth.Middleware\<close> and
  \<open>auth.RequireAudience\<close>.
\<close>

datatype gate = Session | Audienced string

record route =
  rt_method :: string
  rt_pattern :: string
  rt_gates :: "gate list"
  rt_target :: target

text \<open>The functions of the router: \<open>Get\<close>, \<open>Post\<close>, \<open>Delete\<close> and \<open>Handle\<close> (every method), and \<open>Use\<close> in a \<open>Group\<close> or \<open>With\<close>.\<close>

definition Get :: "string \<Rightarrow> target \<Rightarrow> route" where
  "Get pattern t = \<lparr>rt_method = ''GET'', rt_pattern = pattern, rt_gates = [], rt_target = t\<rparr>"

definition Post :: "string \<Rightarrow> target \<Rightarrow> route" where
  "Post pattern t = \<lparr>rt_method = ''POST'', rt_pattern = pattern, rt_gates = [], rt_target = t\<rparr>"

definition Delete :: "string \<Rightarrow> target \<Rightarrow> route" where
  "Delete pattern t = \<lparr>rt_method = ''DELETE'', rt_pattern = pattern, rt_gates = [], rt_target = t\<rparr>"

definition Handle :: "string \<Rightarrow> target \<Rightarrow> route" where
  "Handle pattern t = \<lparr>rt_method = ''*'', rt_pattern = pattern, rt_gates = [], rt_target = t\<rparr>"

definition With :: "gate list \<Rightarrow> route \<Rightarrow> route" where
  "With gs rt = rt\<lparr>rt_gates := gs @ rt_gates rt\<rparr>"

definition Group :: "gate list \<Rightarrow> route list \<Rightarrow> route list" where
  "Group gs rts = map (With gs) rts"

definition auth_Mount :: "route list" where
  "auth_Mount =
    [Get ''/auth/uoa-config'' T_UOAConfig,
     Get ''/.well-known/jwks.json'' T_JWKS,
     Get ''/auth/login'' T_Login,
     Get ''/auth/callback'' T_Callback,
     Get ''/auth/mobile/callback'' T_MobileCallback,
     Post ''/api/v1/mobile/handoff/exchange'' T_HandoffExchange,
     Post ''/api/v1/internal/mint-session'' T_MintSession,
     Get ''/auth/session'' T_Session,
     Post ''/auth/logout'' T_Logout,
     Post ''/auth/debug-login/issue'' T_DebugIssue,
     Post ''/auth/debug-login/redeem'' T_DebugRedeem,
     Get ''/auth/dev-status'' T_DevStatus,
     Get ''/auth/dev-login'' T_DevLogin,
     With [Session, Audienced AudienceAdmin] (Get ''/api/v1/auth/session'' T_ReferenceSession),
     With [Session, Audienced AudienceAdmin] (Get ''/api/v1/auth/profile'' T_Profile)]"

definition admin_Mount :: "route list" where
  "admin_Mount =
    [Get ''/'' T_Root, Get ''/login'' T_SPA, Get ''/admin'' T_SPA, Get ''/admin/*'' T_SPA,
     Handle ''/static/*'' T_Static, Handle ''/assets/*'' T_Assets] @
    Group [Session, Audienced AudienceAdmin]
      [Get ''/api/v1/audit'' T_ListAudit, Get ''/api/v1/system/info'' T_SystemInfo]"

definition devices_Mount :: "route list" where
  "devices_Mount = Group [Session, Audienced AudienceAdmin]
    [Post ''/api/v1/auth/pair/start'' T_PairStart,
     Get ''/api/v1/auth/pair/status'' T_PairStatus,
     Post ''/api/v1/auth/pair/claim'' T_PairClaim,
     Get ''/api/v1/devices'' T_ListDevices,
     Get ''/api/v1/devices/{id}'' T_GetDevice,
     Post ''/api/v1/devices/{id}/heartbeat'' T_Heartbeat,
     Post ''/api/v1/devices/{id}/rotate-key'' T_RotateKey,
     Get ''/api/v1/devices/{id}/peer-config'' T_PeerConfig,
     Delete ''/api/v1/devices/{id}'' T_DeleteDevice]"

definition mobile_Mount :: "route list" where
  "mobile_Mount = Group [Session, Audienced AudienceMobile]
    [Post ''/api/v1/mobile/enroll'' T_Enroll,
     Get ''/api/v1/mobile/servers'' T_ListServers,
     Post ''/api/v1/mobile/disconnect'' T_Disconnect]"

definition services_Mount :: "route list" where
  "services_Mount = Group [Session, Audienced AudienceAdmin]
    [Post ''/api/v1/devices/{id}/services'' T_UpsertServices,
     Get ''/api/v1/devices/{id}/services'' T_ListDeviceServices,
     Get ''/api/v1/services'' T_ListAllServices]"

definition sessions_Mount :: "route list" where
  "sessions_Mount = Group [Session, Audienced AudienceAdmin]
    [Post ''/api/v1/sessions'' T_CreateSession,
     Post ''/api/v1/sessions/{id}/candidates'' T_Candidates,
     Post ''/api/v1/sessions/{id}/relay'' T_Relay,
     Get ''/api/v1/sessions'' T_ListSessions,
     Get ''/api/v1/devices/{id}/events'' T_Events]"

text \<open>The first two are wrapped in \<open>deviceAuthenticated\<close>, which is part of their handler.\<close>

definition direct_Mount :: "route list" where
  "direct_Mount =
    [Get ''/api/v1/direct/home/{id}/peers'' T_HomeStream,
     Post ''/api/v1/direct/home/{id}/register'' T_HomeRegister] @
    Group [Session]
      [Get ''/api/v1/direct/{id}/peers'' T_Stream,
       With [Audienced AudienceAdmin] (Post ''/api/v1/direct/{id}/home'' T_Register)]"

definition routes :: "route list" where
  "routes = [Get ''/healthz'' T_healthz, Get ''/readyz'' T_readyz] @
     auth_Mount @ admin_Mount @ devices_Mount @ mobile_Mount @ services_Mount @ sessions_Mount @ direct_Mount"

definition gates_of :: "target \<Rightarrow> gate list" where
  "gates_of t = (case List.find (\<lambda>rt. rt_target rt = t) routes of None \<Rightarrow> [] | Some rt \<Rightarrow> rt_gates rt)"

section \<open>Serving a request\<close>

text \<open>What the server is built with, and what comes with a request. \<open>in_gate\<close> is the environment of the middleware, \<open>in_env\<close> that of the handler, \<open>in_late\<close> that of work with a deadline of its own, and \<open>in_others\<close> what other requests do meanwhile.\<close>

record 'r server =
  sv_handler :: "'r handler"
  sv_uoa :: uoa
  sv_policy :: "(string \<times> opa) option"
  sv_url_parts :: "string \<Rightarrow> (string \<times> string \<times> bool) option"
  sv_set_query :: "string \<Rightarrow> string \<Rightarrow> string option"

record incoming =
  in_http :: http_req
  in_gate :: env
  in_env :: env
  in_late :: env
  in_others :: others

text \<open>A request with what its handler reads from path, query, cookie and body.\<close>

datatype call =
    Callback "string option" string | MobileCallback "string option" string | HandoffExchange "string option"
  | MintSession "internalMintSessionRequest option" | BrowserSession | Logout | DebugIssue "string option"
  | DebugRedeem "string option" | DevLogin | ReferenceSession | Profile
  | ListAudit string string | SystemInfo
  | PairStart "pairStartRequest option" | PairStatus string | PairClaim "pairClaimRequest option" | ListDevices
  | GetDevice string | Heartbeat string "heartbeatRequest option" | RotateKey string "string option"
  | PeerConfig string | DeleteDevice string
  | Enroll "enrollRequest option" | ListServers | Disconnect
  | UpsertServices string "serviceEntry list option" | ListDeviceServices string | ListAllServices
  | CreateSession "createSessionRequest option" | Candidates string "candidatesRequest option" | Relay string
  | ListSessions | Events string "string option list"
  | HomeStream nat string "tick list" | HomeRegister string "registerRequest option"
  | Stream nat string "tick list" | Register string "registerRequest option"

primrec target_of :: "call \<Rightarrow> target" where
  "target_of (Callback ck code) = T_Callback" | "target_of (MobileCallback ck code) = T_MobileCallback"
| "target_of (HandoffExchange b) = T_HandoffExchange" | "target_of (MintSession q) = T_MintSession"
| "target_of BrowserSession = T_Session" | "target_of Logout = T_Logout" | "target_of (DebugIssue b) = T_DebugIssue"
| "target_of (DebugRedeem b) = T_DebugRedeem" | "target_of DevLogin = T_DevLogin"
| "target_of ReferenceSession = T_ReferenceSession" | "target_of Profile = T_Profile"
| "target_of (ListAudit l a) = T_ListAudit" | "target_of SystemInfo = T_SystemInfo"
| "target_of (PairStart q) = T_PairStart" | "target_of (PairStatus c) = T_PairStatus" | "target_of (PairClaim q) = T_PairClaim"
| "target_of ListDevices = T_ListDevices" | "target_of (GetDevice i) = T_GetDevice" | "target_of (Heartbeat i q) = T_Heartbeat"
| "target_of (RotateKey i k) = T_RotateKey" | "target_of (PeerConfig i) = T_PeerConfig" | "target_of (DeleteDevice i) = T_DeleteDevice"
| "target_of (Enroll q) = T_Enroll" | "target_of ListServers = T_ListServers" | "target_of Disconnect = T_Disconnect"
| "target_of (UpsertServices i q) = T_UpsertServices" | "target_of (ListDeviceServices i) = T_ListDeviceServices"
| "target_of ListAllServices = T_ListAllServices"
| "target_of (CreateSession q) = T_CreateSession" | "target_of (Candidates i q) = T_Candidates" | "target_of (Relay i) = T_Relay"
| "target_of ListSessions = T_ListSessions" | "target_of (Events i a) = T_Events"
| "target_of (HomeStream n i ts) = T_HomeStream" | "target_of (HomeRegister i q) = T_HomeRegister"
| "target_of (Stream n i ts) = T_Stream" | "target_of (Register i q) = T_Register"

text \<open>The answer without its payload, and a handler of the shared state on the whole state.\<close>

definition answer :: "'a response \<Rightarrow> unit response" where
  "answer = map_response (\<lambda>x. ())"

definition in_world :: "('r world \<Rightarrow> 'a response \<times> 'r world) \<Rightarrow> 'r portal \<Rightarrow> unit response \<times> 'r portal" where
  "in_world f P = (case f (p_world P) of (res, w) \<Rightarrow> (answer res, P\<lparr>p_world := w\<rparr>))"

definition in_portal :: "('r portal \<Rightarrow> 'a response \<times> 'r portal) \<Rightarrow> 'r portal \<Rightarrow> unit response \<times> 'r portal" where
  "in_portal f P = (case f P of (res, P') \<Rightarrow> (answer res, P'))"

definition reads :: "('r world \<Rightarrow> 'a response) \<Rightarrow> 'r portal \<Rightarrow> unit response \<times> 'r portal" where
  "reads f P = (answer (f (p_world P)), P)"

text \<open>
  The handlers behind the gates, which leave the claims of the session in the request. The handlers
  of \<open>direct\<close> and of the profile ignore whether there are any, and would go on with empty claims.
\<close>

definition given :: "Claims option \<Rightarrow> Claims" where
  "given cl = (case cl of Some c \<Rightarrow> c | None \<Rightarrow> \<lparr>CapabilityKind = [], SessionID = [], Sub = [], IsSuper = False,
     Audience = [], ExpiresAt = 0, DirectHomeID = []\<rparr>)"

primrec handle :: "'r server \<Rightarrow> incoming \<Rightarrow> call \<Rightarrow> Claims option \<Rightarrow> 'r portal \<Rightarrow> unit response \<times> 'r portal" where
  "handle S x (Callback ck code) cl = in_portal (ServeCallback (sv_handler S) (sv_uoa S) (in_env x) (in_late x) (in_others x) (in_http x) ck code)"
| "handle S x (MobileCallback ck code) cl = in_portal (ServeMobileCallback (sv_handler S) (sv_uoa S) (in_env x) (in_late x) (in_others x) (sv_set_query S) (in_http x) ck code)"
| "handle S x (HandoffExchange b) cl = in_world (ServeMobileHandoffExchange (sv_handler S) (in_env x) (in_http x) b)"
| "handle S x (MintSession q) cl = in_portal (ServeInternalMintSession (sv_handler S) (sv_uoa S) (in_env x) (in_http x) q)"
| "handle S x BrowserSession cl = in_portal (ServeSession (sv_handler S) (sv_uoa S) (in_env x) (in_others x) (in_http x))"
| "handle S x Logout cl = in_portal (ServeLogout (sv_handler S) (sv_uoa S) (in_env x) (in_others x) (in_http x))"
| "handle S x (DebugIssue b) cl = in_portal (ServeDebugIssue (sv_handler S) (sv_uoa S) (in_env x) (in_late x) (in_others x) (sv_url_parts S) (in_http x) b)"
| "handle S x (DebugRedeem b) cl = in_portal (ServeDebugRedeem (sv_handler S) (sv_uoa S) (in_env x) (in_late x) (in_others x) (in_http x) b)"
| "handle S x DevLogin cl = in_portal (ServeDevLogin (sv_handler S) (sv_uoa S) (in_env x) (in_http x))"
| "handle S x ReferenceSession cl = reads (\<lambda>w. ServeReferenceSession (sv_handler S) (in_env x) (given cl))"
| "handle S x Profile cl = in_portal (ServeProfile (sv_handler S) (sv_uoa S) (in_env x) (sv_url_parts S) (given cl))"
| "handle S x (ListAudit l a) cl = reads (\<lambda>w. handleListAuditEvents (in_env x) cl l a (w_db w))"
| "handle S x SystemInfo cl = reads (\<lambda>w. handleSystemInfo (in_env x) (h_cfg (sv_handler S)) cl (w_db w))"
| "handle S x (PairStart q) cl = in_world (handlePairStart (sv_handler S) (in_env x) cl (in_http x) q)"
| "handle S x (PairStatus c) cl = in_world (handlePairStatus (sv_handler S) (in_env x) c)"
| "handle S x (PairClaim q) cl = in_world (pairClaim (sv_handler S) (in_env x) cl (in_http x) q)"
| "handle S x ListDevices cl = in_world (handleListDevices (in_env x) cl)"
| "handle S x (GetDevice i) cl = in_world (handleGetDevice (in_env x) cl i)"
| "handle S x (Heartbeat i q) cl = in_world (handleHeartbeat (sv_handler S) (in_env x) cl i q)"
| "handle S x (RotateKey i k) cl = in_world (handleRotateKey (sv_handler S) (in_env x) cl (in_http x) i k)"
| "handle S x (PeerConfig i) cl = in_world (handleGetPeerConfig (sv_handler S) (in_env x) cl i)"
| "handle S x (DeleteDevice i) cl = in_world (handleDeleteDevice (sv_handler S) (in_env x) cl (in_http x) i)"
| "handle S x (Enroll q) cl = in_world (handleEnroll (sv_handler S) (in_env x) cl (in_http x) q)"
| "handle S x ListServers cl = in_world (handleListServers (in_env x) cl)"
| "handle S x Disconnect cl = in_world (handleDisconnect (sv_handler S) (in_env x) cl (in_http x))"
| "handle S x (UpsertServices i q) cl = in_world (handleUpsertServices (in_env x) cl i q)"
| "handle S x (ListDeviceServices i) cl = in_world (handleListDeviceServices (in_env x) cl i)"
| "handle S x ListAllServices cl = in_world (handleListAllServices (in_env x) cl)"
| "handle S x (CreateSession q) cl = in_world (handleCreateSession (sv_handler S) (sv_policy S) (in_env x) cl q)"
| "handle S x (Candidates i q) cl = in_world (handleSessionCandidates (in_env x) cl i q)"
| "handle S x (Relay i) cl = in_world (handleRelayCredentials (sv_handler S) (in_env x) cl i)"
| "handle S x ListSessions cl = in_world (handleListSessions (in_env x) cl)"
| "handle S x (Events i a) cl = in_world (handleDeviceEvents (sv_handler S) (in_env x) cl i a)"
| "handle S x (HomeStream n i ts) cl = in_world (deviceAuthenticated (sv_handler S) (in_env x) i
     (\<lambda>c. stream (sv_handler S) (in_env x) n i c ts) (in_http x))"
| "handle S x (HomeRegister i q) cl = in_world (deviceAuthenticated (sv_handler S) (in_env x) i
     (\<lambda>c. register (sv_handler S) (in_env x) 2 i c q) (in_http x))"
| "handle S x (Stream n i ts) cl = in_world (stream (sv_handler S) (in_env x) n i (given cl) ts)"
| "handle S x (Register i q) cl = in_world (register (sv_handler S) (in_env x) 2 i (given cl) q)"

text \<open>\<open>auth.Middleware\<close> on the whole state: its validator is the session manager.\<close>

definition turn_away :: "'r server \<Rightarrow> incoming \<Rightarrow> string \<Rightarrow> 'r portal \<Rightarrow> unit response \<times> 'r portal" where
  "turn_away S x reason P =
     (case reject (sv_handler S) (in_gate x) 20 (in_http x) reason (p_world P) of (res, w) \<Rightarrow> (res, P\<lparr>p_world := w\<rparr>))"

definition session_gate :: "'r server \<Rightarrow> incoming \<Rightarrow> (Claims \<Rightarrow> 'r portal \<Rightarrow> unit response \<times> 'r portal) \<Rightarrow>
    'r portal \<Rightarrow> unit response \<times> 'r portal" where
  "session_gate S x nxt P =
     (let H = sv_handler S; E = in_gate x in
      case authenticateBearer (h_crypto H) (clock E) (authorization (in_http x)) (InternalSessionSecret (h_cfg H)) of
        Inl reason \<Rightarrow> turn_away S x reason P
      | Inr claims \<Rightarrow>
          (case sm_Validate H (sv_uoa S) E (in_others x) claims (sso_of P) of
             (Inl SessionExpired, s) \<Rightarrow> turn_away S x ''expired_session'' (put_sso s P)
           | (Inl e, s) \<Rightarrow> (Error 503 ''session temporarily unavailable'', put_sso s P)
           | (Inr claims', s) \<Rightarrow> nxt claims' (put_sso s P)))"

text \<open>Between the middleware and the handler other requests may run.\<close>

definition interrupt :: "incoming \<Rightarrow> nat \<Rightarrow> 'r portal \<Rightarrow> 'r portal" where
  "interrupt x n P = put_sso (in_others x n (sso_of P)) P"

fun pass :: "'r server \<Rightarrow> incoming \<Rightarrow> gate list \<Rightarrow> (Claims option \<Rightarrow> 'r portal \<Rightarrow> unit response \<times> 'r portal) \<Rightarrow>
    Claims option \<Rightarrow> 'r portal \<Rightarrow> unit response \<times> 'r portal" where
  "pass S x [] k cl P = k cl P"
| "pass S x (Session # gs) k cl P = session_gate S x (\<lambda>c Q. pass S x gs k (Some c) (interrupt x 30 Q)) P"
| "pass S x (Audienced a # gs) k cl P = (case cl of None \<Rightarrow> (Error 401 ''unauthorized'', P)
     | Some c \<Rightarrow> RequireAudience a (\<lambda>c. pass S x gs k (Some c)) c P)"

definition serve :: "'r server \<Rightarrow> incoming \<Rightarrow> call \<Rightarrow> 'r portal \<Rightarrow> unit response \<times> 'r portal" where
  "serve S x c = pass S x (gates_of (target_of c)) (handle S x c) None"

section \<open>What the table guarantees\<close>

text \<open>The gate is the middleware, on the part of the state the middleware has.\<close>

lemma session_gate_Middleware:
  assumes "session_gate S x (\<lambda>c Q. case nxt c (p_world Q) of (res, w) \<Rightarrow> (res, Q\<lparr>p_world := w\<rparr>)) P = (res, P')"
  shows "Middleware.Middleware (sv_handler S) (in_gate x) 20
      (Some (sso_validator (sv_handler S) (sv_uoa S) (in_gate x) (in_others x) (p_cache P) (p_revoked P))) (in_http x) nxt (p_world P)
    = (res, p_world P')"
  using assms
  by (auto simp: session_gate_def Middleware_def sso_validator_def sso_of_def put_sso_def turn_away_def Let_def
      split: sum.splits prod.splits session_error.splits)

definition pages :: "target list" where
  "pages = [T_healthz, T_readyz, T_UOAConfig, T_JWKS, T_Login, T_DevStatus, T_Root, T_SPA, T_Static, T_Assets]"

lemma gates_by_target:
  "map (\<lambda>rt. (rt_target rt, rt_gates rt)) routes =
     map (\<lambda>t. (t, [])) [T_healthz, T_readyz, T_UOAConfig, T_JWKS, T_Login, T_Callback, T_MobileCallback, T_HandoffExchange,
       T_MintSession, T_Session, T_Logout, T_DebugIssue, T_DebugRedeem, T_DevStatus, T_DevLogin] @
     map (\<lambda>t. (t, [Session, Audienced AudienceAdmin])) [T_ReferenceSession, T_Profile] @
     map (\<lambda>t. (t, [])) [T_Root, T_SPA, T_SPA, T_SPA, T_Static, T_Assets] @
     map (\<lambda>t. (t, [Session, Audienced AudienceAdmin])) [T_ListAudit, T_SystemInfo, T_PairStart, T_PairStatus, T_PairClaim,
       T_ListDevices, T_GetDevice, T_Heartbeat, T_RotateKey, T_PeerConfig, T_DeleteDevice] @
     map (\<lambda>t. (t, [Session, Audienced AudienceMobile])) [T_Enroll, T_ListServers, T_Disconnect] @
     map (\<lambda>t. (t, [Session, Audienced AudienceAdmin])) [T_UpsertServices, T_ListDeviceServices, T_ListAllServices,
       T_CreateSession, T_Candidates, T_Relay, T_ListSessions, T_Events] @
     [(T_HomeStream, []), (T_HomeRegister, []), (T_Stream, [Session]), (T_Register, [Session, Audienced AudienceAdmin])]"
  by code_simp

lemma find_map_of: "map_option g (List.find (\<lambda>x. f x = k) xs) = map_of (map (\<lambda>x. (f x, g x)) xs) k"
  by (induction xs) auto

lemma gates_of_lookup:
  "gates_of t = (case map_of (map (\<lambda>rt. (rt_target rt, rt_gates rt)) routes) t of None \<Rightarrow> [] | Some gs \<Rightarrow> gs)"
  by (simp add: gates_of_def find_map_of [symmetric] split: option.split)

lemma gates_table:
  "gates_of (target_of c) = (case c of
     Enroll q \<Rightarrow> [Session, Audienced AudienceMobile] | ListServers \<Rightarrow> [Session, Audienced AudienceMobile]
   | Disconnect \<Rightarrow> [Session, Audienced AudienceMobile] | Stream n i ts \<Rightarrow> [Session]
   | Callback ck code \<Rightarrow> [] | MobileCallback ck code \<Rightarrow> [] | HandoffExchange b \<Rightarrow> [] | MintSession q \<Rightarrow> []
   | BrowserSession \<Rightarrow> [] | Logout \<Rightarrow> [] | DebugIssue b \<Rightarrow> [] | DebugRedeem b \<Rightarrow> [] | DevLogin \<Rightarrow> []
   | HomeStream n i ts \<Rightarrow> [] | HomeRegister i q \<Rightarrow> []
   | _ \<Rightarrow> [Session, Audienced AudienceAdmin])"
  by (cases c) (simp_all add: gates_of_lookup gates_by_target)

lemma target_call: "t \<notin> set pages \<Longrightarrow> \<exists>c. target_of c = t"
  by (cases t) (simp_all add: pages_def, (rule exI, rule target_of.simps)+)


end
