(* ===== verification/Transactions.thy ===== *)
theory Transactions
  imports Routes
begin

text \<open>
  The whole server as a sequence of transactions. \<open>server_write\<close> has every transaction the server
  ever commits, whoever asks for it; a request, with its gates and with other requests interleaved
  wherever it waits, is a run of them. What every transaction keeps therefore holds for the server as
  a whole, which \<open>Whole_Server\<close> uses.
\<close>

definition db_of :: "'r portal \<Rightarrow> db" where
  "db_of P = w_db (p_world P)"

lemma db_of_simps [simp]:
  "so_db (sso_of P) = db_of P" "db_of (put_sso s P) = so_db s" "db_of (P\<lparr>p_world := w\<rparr>) = w_db w"
  "db_of (P\<lparr>p_profiles := vs\<rparr>) = db_of P"
  by (simp_all add: db_of_def sso_of_def put_sso_def)

lemma sso_of_put [simp]: "sso_of (put_sso s P) = s"
  by (simp add: sso_of_def put_sso_def)

section \<open>Transactions of the logins\<close>

text \<open>
  What sessions, logins and the audit trail do to the database in one transaction: a row of the
  session table appears, changes or goes, a user logs in, a handoff code is stored, an event is
  logged.
\<close>

inductive login_write :: "db \<Rightarrow> db \<Rightarrow> bool" where
  opens: "db_ok d' \<Longrightarrow> d' = d\<lparr>uoa_sessions := uoa_sessions d @ [row]\<rparr> \<Longrightarrow> login_write d d'"
| updates: "db_ok d' \<Longrightarrow> d' = update_sessions p f d \<Longrightarrow> login_write d d'"
| deletes: "db_ok d' \<Longrightarrow> d' = delete_sessions p d \<Longrightarrow> login_write d d'"
| users: "upsertUser E n subject d = Some (u, d') \<Longrightarrow> login_write d d'"
| handoff: "db_ok d' \<Longrightarrow> d' = d\<lparr>handoff_codes := handoff_codes d @ [handoff_row E h u i]\<rparr> \<Longrightarrow> login_write d d'"
| logs: "login_write d (snd (audit_Log E n evt d))"

text \<open>
  A server whose transactions \<open>W\<close> include these, and whose other requests run transactions. Then
  every operation of the session manager and every login route is a run of transactions.
\<close>

locale interleaved =
  fixes W :: "db \<Rightarrow> db \<Rightarrow> bool" and oth :: others
  assumes login_writes: "login_write d d' \<Longrightarrow> W d d'"
    and others_run: "reach (so_db s) W (so_db (oth n s))"
begin

lemma run_write: "reach d W a \<Longrightarrow> login_write a b \<Longrightarrow> reach d W b"
  by (blast intro: reach_step login_writes)

lemma run_oth: "reach d W (so_db s) \<Longrightarrow> reach d W (so_db (oth n s))"
  by (rule reach_trans [OF _ others_run])

lemma run_statement:
  "statement b (update_sessions p f a) = Some d' \<Longrightarrow> reach d W a \<Longrightarrow> reach d W d'"
  "statement b (delete_sessions p a) = Some d' \<Longrightarrow> reach d W a \<Longrightarrow> reach d W d'"
  "insert_session E n row a = Some (i, d') \<Longrightarrow> reach d W a \<Longrightarrow> reach d W d'"
  "upsertUser E n subject a = Some (u, d') \<Longrightarrow> reach d W a \<Longrightarrow> reach d W d'"
  by (auto intro: run_write login_write.intros simp: insert_session_effect)

lemma run_log: "reach d W (w_db w) \<Longrightarrow> reach d W (w_db (log_event H E n evt w))"
  by (auto simp: log_event_def intro: run_write login_write.logs)

lemma run_create:
  "stage H U E claims s = (i, s') \<Longrightarrow> reach d W (so_db s) \<Longrightarrow> reach d W (so_db s')"
  "createBroker H U E n user cap v s = (i, s') \<Longrightarrow> reach d W (so_db s) \<Longrightarrow> reach d W (so_db s')"
  "createDevelopment H U E n user s = (i, s') \<Longrightarrow> reach d W (so_db s) \<Longrightarrow> reach d W (so_db s')"
  by (auto simp: stage_def createBroker_def createDevelopment_def intro: run_statement split: if_splits option.splits)

lemma run_revoke: "revoke_family H U t s = (ok, s') \<Longrightarrow> reach d W (so_db s) \<Longrightarrow> reach d W (so_db s')"
  using revoke_family_effect by metis

lemma run_rotate: "rotate_session H U E i sl sb s = (out, s') \<Longrightarrow> reach d W (so_db s) \<Longrightarrow> reach d W (so_db s')"
  using rotate_session_effect [of H U E i sl sb s out s'] by (auto intro: run_write updates)

lemma run_schedule: "schedule E n i t s = (ok, s') \<Longrightarrow> reach d W (so_db s) \<Longrightarrow> reach d W (so_db s')"
  using schedule_effect [of E n i t s ok s'] by (auto intro: run_write updates)

lemma run_admit: "admit E n i user subject s = (ok, s') \<Longrightarrow> reach d W (so_db s) \<Longrightarrow> reach d W (so_db s')"
  using admit_effect [of E n i user subject s ok s'] by (auto intro: run_write updates)

lemma run_cleanupOne: "cleanupOne H U E i s = (ok, s') \<Longrightarrow> reach d W (so_db s) \<Longrightarrow> reach d W (so_db s')"
  using cleanupOne_effect [of H U E i s ok s'] by (auto intro: run_write deletes)

lemma run_logout_close: "logout_close H U E i user s = (out, s') \<Longrightarrow> reach d W (so_db s) \<Longrightarrow> reach d W (so_db s')"
  using logout_close_effect [of H U E i user s out s'] by (auto intro: run_write updates)

lemma run_logout_delete: "logout_delete E i user s = (ok, s') \<Longrightarrow> reach d W (so_db s) \<Longrightarrow> reach d W (so_db s')"
  using logout_delete_effect [of E i user s ok s'] by (auto intro: run_write deletes)

lemma run_sweep: "sweep H U Es gone ids ok s = (res, s') \<Longrightarrow> reach d W (so_db s) \<Longrightarrow> reach d W (so_db s')"
  by (induction ids arbitrary: ok s)
    (auto split: prod.splits bool.splits if_splits dest: run_cleanupOne run_schedule)

lemma run_RetryCleanup: "RetryCleanup H U E Es gone s = (res, s') \<Longrightarrow> reach d W (so_db s) \<Longrightarrow> reach d W (so_db s')"
  by (auto simp: RetryCleanup_def split: if_splits intro: run_sweep)

lemma run_resolveLocked:
  assumes "resolveLocked H U E oth i user s = (res, s')" "reach d W (so_db s)"
  shows "reach d W (so_db s')"
proof (cases "\<exists>r. session_by (live_row (clock E) i user (so_db s)) (so_db s) = Some r \<and> \<not> us_closing r")
  case False
  then show ?thesis using assms by (auto simp: resolveLocked_def split: if_splits option.splits)
next
  case True
  then obtain r where r: "session_by (live_row (clock E) i user (so_db s)) (so_db s) = Some r" "\<not> us_closing r" by blast
  obtain hit c where c: "(if us_kind r = capabilityRefresh
      then cache_get (clock E) i (capabilityFingerprint (h_crypto H) (us_sealed r)) (so_cache s)
      else (None, so_cache s)) = (hit, c)" by (rule prod.exhaust)
  let ?s1 = "s\<lparr>so_cache := c\<rparr>"
  obtain out s2 where o: "(if us_kind r = ''development'' then (resolveDevelopment H E (us_subject r), ?s1)
      else if us_kind r = ''broker'' then (resolveBroker H U E (us_sealed r) (us_subject r), ?s1)
      else if us_kind r = capabilityRefresh then rotate_session H U E i (us_sealed r) (us_subject r) ?s1
      else (Inl SessionExpired, ?s1)) = (out, s2)" by (rule prod.exhaust)
  have s2: "reach d W (so_db s2)" using o assms(2) by (auto split: if_splits dest!: run_rotate)
  show ?thesis
    using assms r c o s2 run_oth [OF s2]
    by (auto simp: resolveLocked_def Let_def split: if_splits option.splits sum.splits)
qed

lemma run_resolve: "resolve H U E oth i user s = (res, s') \<Longrightarrow> reach d W (so_db s) \<Longrightarrow> reach d W (so_db s')"
  by (auto simp: resolve_def split: option.splits prod.splits dest!: run_resolveLocked)

lemma run_Validate: "sm_Validate H U E oth claims s = (res, s') \<Longrightarrow> reach d W (so_db s) \<Longrightarrow> reach d W (so_db s')"
  by (auto simp: sm_Validate_def split: if_splits prod.splits sum.splits dest!: run_resolve)

lemma run_logout: "sm_logout H U E oth i user s = (ok, s') \<Longrightarrow> reach d W (so_db s) \<Longrightarrow> reach d W (so_db s')"
  by (auto simp: sm_logout_def split: prod.splits sum.splits if_splits bool.splits
      dest!: run_logout_close run_revoke run_logout_delete intro: run_oth)

lemma run_cleanupStaged: "reach d W (so_db s) \<Longrightarrow> reach d W (so_db (cleanupStaged H U E oth i s))"
  by (auto simp: cleanupStaged_def split: prod.splits bool.splits
      dest!: run_schedule intro: run_cleanupOne [OF prod.collapse [symmetric]] run_oth)

lemma run_discard: "reach d W (so_db s) \<Longrightarrow> reach d W (so_db (discardFamily H U t s))"
  unfolding discardFamily_def by (rule run_revoke [OF prod.collapse [symmetric]])

lemma run_admitFreshFamily:
  assumes "admitFreshFamily H U E Ec oth claims s = (res, s')" "reach d W (so_db s)"
  shows "reach d W (so_db s')"
proof -
  obtain x s1 where x: "stage H U E claims s = (x, s1)" by (rule prod.exhaust)
  note s1 = run_create(1) [OF x assms(2)]
  note s2 = run_oth [OF s1, of 0]
  show ?thesis
  proof (cases x)
    case None
    then show ?thesis using assms(1) x run_discard [OF s2] by (auto simp: admitFreshFamily_def)
  next
    case (Some i)
    show ?thesis
    proof (cases "upsertUser E 1 (uc_Subject claims) (so_db (oth 0 s1))")
      case None
      then show ?thesis
        using assms(1) x Some run_cleanupStaged [OF s2] by (auto simp: admitFreshFamily_def Let_def split: option.splits)
    next
      case (Some z)
      then obtain u super a where z: "upsertUser E 1 (uc_Subject claims) (so_db (oth 0 s1)) = Some ((u, super), a)" by (cases z) auto
      obtain ok s3 where a: "admit E 5 i u (uc_Subject claims) (oth 1 ((oth 0 s1)\<lparr>so_db := a\<rparr>)) = (ok, s3)" by (rule prod.exhaust)
      have "reach d W (so_db ((oth 0 s1)\<lparr>so_db := a\<rparr>))" using run_statement(4) [OF z s2] by simp
      note s3 = run_admit [OF a run_oth [OF this]]
      show ?thesis
        using assms(1) x \<open>x = Some i\<close> z a s3 run_cleanupStaged [OF s2] run_cleanupStaged [OF run_oth [OF s3]]
        by (auto simp: admitFreshFamily_def Let_def split: option.splits bool.splits)
    qed
  qed
qed

lemma run_exchange:
  "exchangeAndUpsertUser H U E Ec oth code url verifier s = (res, s') \<Longrightarrow> reach d W (so_db s) \<Longrightarrow> reach d W (so_db s')"
  by (auto simp: exchangeAndUpsertUser_def split: if_splits option.splits prod.splits dest!: run_admitFreshFamily)

lemma run_handoff:
  "createMobileHandoffCode H E user session a = (code, d') \<Longrightarrow> reach d W a \<Longrightarrow> reach d W d'"
  unfolding createMobileHandoffCode_def
  by (drule handoff_tries_effect) (auto intro: run_write login_write.handoff)

lemma run_auditLogin: "reach d W (db_of P) \<Longrightarrow> reach d W (db_of (auditLogin H E n r user P))"
  by (simp add: auditLogin_def db_of_def run_log)

lemma run_auditMint: "reach d W (db_of P) \<Longrightarrow> reach d W (db_of (auditInternalMintSession H E n r user P))"
  by (simp add: auditInternalMintSession_def db_of_def run_log)

lemma run_limit:
  "on_world (rate_limit H E n k l t (p_world P)) P = (x, P') \<Longrightarrow> reach d W (db_of P) \<Longrightarrow> reach d W (db_of P')"
  by (auto simp: on_world_def db_of_def split: prod.splits dest: rate_limit_result(1))

text \<open>The login routes.\<close>

lemma run_ServeCallback:
  "ServeCallback H U E Ec oth r ck code P = (res, P') \<Longrightarrow> reach d W (db_of P) \<Longrightarrow> reach d W (db_of P')"
  by (auto simp: ServeCallback_def Let_def split: if_splits prod.splits sum.splits option.splits
      dest!: run_exchange intro: run_auditLogin)

lemma run_ServeMobileCallback:
  assumes "ServeMobileCallback H U E Ec oth q r ck code P = (res, P')" "reach d W (db_of P)"
  shows "reach d W (db_of P')"
proof -
  obtain out s where x: "exchangeAndUpsertUser H U E Ec oth code (UOAMobileRedirectURL (h_cfg H))
      (pkceVerifierFromCookie ck) (sso_of P) = (out, s)" by (rule prod.exhaust)
  have s: "reach d W (so_db s)" using run_exchange [OF x] assms(2) by simp
  show ?thesis
  proof (cases out)
    case (Inl e)
    then show ?thesis using assms x s by (auto simp: ServeMobileCallback_def Let_def split: if_splits)
  next
    case (Inr z)
    obtain u super i where z: "z = (u, super, i)" by (cases z)
    let ?P1 = "auditLogin H E 6 r u (put_sso s P)"
    have P1: "reach d W (db_of ?P1)" by (rule run_auditLogin) (simp add: s)
    obtain code' a where h: "createMobileHandoffCode H E u i (w_db (p_world ?P1)) = (code', a)" by (rule prod.exhaust)
    have "reach d W a" using run_handoff [OF h] P1 by (simp add: db_of_def)
    then show ?thesis
      using assms x Inr z h by (auto simp: ServeMobileCallback_def Let_def split: if_splits option.splits)
  qed
qed

lemma run_ServeInternalMintSession:
  assumes "ServeInternalMintSession H U E r q P = (res, P')" "reach d W (db_of P)"
  shows "reach d W (db_of P')"
proof -
  obtain x P1 where l: "on_world (rate_limit H E 0 (Key [''internal'', ''mint-session'', ''ip'', RateLimitIP (client_ip H r)])
      internalMintSessionLimit Minute (p_world P)) P = (x :: (string \<times> time) response option, P1)" by (rule prod.exhaust)
  note P1 = run_limit [OF l assms(2)]
  have cb: "reach d W (so_db s')" if "upsertUser E n subject (w_db (p_world P1)) = Some (u, a)"
    "createBroker H U E 5 user cap v ((sso_of P1)\<lparr>so_db := a\<rparr>) = (i, s')" for n subject u a user cap v i s'
    using run_create(2) [OF that(2)] run_statement(4) [OF that(1)] P1 by (simp add: db_of_def)
  show ?thesis
    using assms l P1
    by (auto simp: ServeInternalMintSession_def Let_def
        split: if_splits option.splits sum.splits prod.splits uoa_error.splits intro!: run_auditMint dest: cb)
qed

lemma run_ServeSession:
  "ServeSession H U E oth r P = (res, P') \<Longrightarrow> reach d W (db_of P) \<Longrightarrow> reach d W (db_of P')"
  by (auto simp: ServeSession_def split: option.splits prod.splits sum.splits session_error.splits dest!: run_resolve)

lemma run_ServeLogout:
  "ServeLogout H U E oth r P = (res, P') \<Longrightarrow> reach d W (db_of P) \<Longrightarrow> reach d W (db_of P')"
  by (auto simp: ServeLogout_def split: option.splits prod.splits bool.splits dest!: run_limit run_logout)

lemma run_ServeDebugIssue:
  assumes "ServeDebugIssue H U E E2 oth parts r b P = (res, P')" "reach d W (db_of P)"
  shows "reach d W (db_of P')"
proof -
  obtain x P1 where l: "limitDebug H E r P = (x :: (string \<times> string) response option, P1)" by (rule prod.exhaust)
  note P1 = run_limit [OF l [unfolded limitDebug_def] assms(2)]
  have rs: "reach d W (so_db s) \<and> reach d W (so_db (oth 1 s))" if "resolve H U E oth i u (sso_of P1) = (out, s)" for i u out s
    using run_resolve [OF that] P1 run_oth by simp
  show ?thesis
    using assms(1) l P1
    by (auto simp: ServeDebugIssue_def Let_def split: option.splits if_splits prod.splits sum.splits dest!: rs)
qed

lemma run_ServeDebugRedeem:
  assumes "ServeDebugRedeem H U E Ec oth r b P = (res, P')" "reach d W (db_of P)"
  shows "reach d W (db_of P')"
proof -
  obtain x P1 where l: "limitDebug H E r P = (x :: string response option, P1)" by (rule prod.exhaust)
  note P1 = run_limit [OF l [unfolded limitDebug_def] assms(2)]
  have ad: "reach d W (so_db s)" if "admitFreshFamily H U E Ec oth c (sso_of P1) = (out, s)" for c out s
    using run_admitFreshFamily [OF that] P1 by simp
  show ?thesis
    using assms(1) l P1
    by (auto simp: ServeDebugRedeem_def Let_def split: option.splits if_splits prod.splits sum.splits uoa_error.splits dest!: ad)
qed

lemma run_ServeDevLogin:
  assumes "ServeDevLogin H U E r P = (res, P')" "reach d W (db_of P)"
  shows "reach d W (db_of P')"
proof (cases "upsertUser E 1 DevUserExternalID (w_db (p_world P))")
  case None
  then show ?thesis using assms by (auto simp: ServeDevLogin_def split: if_splits)
next
  case (Some z)
  then obtain u super a where z: "upsertUser E 1 DevUserExternalID (w_db (p_world P)) = Some ((u, super), a)" by (cases z) auto
  let ?P1 = "auditLogin H E 6 r u (P\<lparr>p_world := (p_world P)\<lparr>w_db := a\<rparr>\<rparr>)"
  have "reach d W (db_of ?P1)"
    by (rule run_auditLogin) (use run_statement(4) [OF z] assms(2) in \<open>simp add: db_of_def\<close>)
  then have "reach d W (so_db s)" if "createDevelopment H U E 7 u (sso_of ?P1) = (i, s)" for i s
    using run_create(3) [OF that] by simp
  then show ?thesis
    using assms z by (auto simp: ServeDevLogin_def Let_def split: if_splits prod.splits option.splits)
qed

lemma run_ServeProfile: "ServeProfile H U E parts c P = (res, P') \<Longrightarrow> db_of P' = db_of P"
  by (auto simp: ServeProfile_def db_of_def split: option.splits prod.splits)

end

section \<open>Transactions of the server\<close>

text \<open>What a request does once its caller is known: one case for each handler that writes.\<close>

inductive server_write :: "'r handler \<Rightarrow> env \<Rightarrow> Claims option \<Rightarrow> db \<Rightarrow> db \<Rightarrow> bool" for H E cl where
  device: "device_step H E cl w w' \<Longrightarrow> server_write H E cl (w_db w) (w_db w')"
| enroll: "handleEnroll H E cl r q w = (res, w') \<Longrightarrow> server_write H E cl (w_db w) (w_db w')"
| disconnect: "handleDisconnect H E cl r w = (ack, w') \<Longrightarrow> server_write H E cl (w_db w) (w_db w')"
| services: "handleUpsertServices E cl i m (w :: 'r world) = (ss, w') \<Longrightarrow> server_write H E cl (w_db w) (w_db w')"
| session: "handleCreateSession H pol E cl cs w = (row, w') \<Longrightarrow> server_write H E cl (w_db w) (w_db w')"
| candidates: "handleSessionCandidates E cl i cand (w :: 'r world) = (ack, w') \<Longrightarrow> server_write H E cl (w_db w) (w_db w')"
| relay: "handleRelayCredentials H E cl i w = (cred, w') \<Longrightarrow> server_write H E cl (w_db w) (w_db w')"
| register: "register H E n i (given cl) rg w = (ack, w') \<Longrightarrow> server_write H E cl (w_db w) (w_db w')"
| lease: "stream H E n i (given cl) ts w = (msgs, w') \<Longrightarrow> server_write H E cl (w_db w) (w_db w')"

text \<open>
  Any transaction of the server, with the callers that \<open>A\<close> allows: also the logins, the exchange of a
  handoff code and what the subscriber to the statistics of the relay records.
\<close>

inductive transaction :: "'r handler \<Rightarrow> (env \<Rightarrow> Claims option \<Rightarrow> bool) \<Rightarrow> db \<Rightarrow> db \<Rightarrow> bool" for H A where
  login: "login_write d d' \<Longrightarrow> transaction H A d d'"
| redeem: "ServeMobileHandoffExchange H E r b w = (res, w') \<Longrightarrow> transaction H A (w_db w) (w_db w')"
| message: "transaction H A d (handleMessage E ch payload d)"
| request: "A E cl \<Longrightarrow> server_write H E cl d d' \<Longrightarrow> transaction H A d d'"

text \<open>The claims a request can act with: those of its token, or those of the home machine it authenticates as.\<close>

fun home_device :: "call \<Rightarrow> string option" where
  "home_device (HomeStream n i ts) = Some i"
| "home_device (HomeRegister i q) = Some i"
| "home_device c = None"

definition bearer :: "'r server \<Rightarrow> incoming \<Rightarrow> string + Claims" where
  "bearer S x = authenticateBearer (h_crypto (sv_handler S)) (clock (in_gate x)) (authorization (in_http x))
     (InternalSessionSecret (h_cfg (sv_handler S)))"

definition device_holder :: "'r server \<Rightarrow> incoming \<Rightarrow> string \<Rightarrow> db \<Rightarrow> device \<Rightarrow> bool" where
  "device_holder S x i d y \<longleftrightarrow> y \<in> set (devices d) \<and> uuid_in (in_env x) i = Some (d_id y) \<and> d_status y = ''active'' \<and>
     \<not> is_mobile y \<and>
     bcrypt_ok (h_crypto (sv_handler S)) (d_credential_hash y) (TrimPrefix (authorization (in_http x)) ''Bearer '')"

definition device_acts :: "'r server \<Rightarrow> incoming \<Rightarrow> call \<Rightarrow> db \<Rightarrow> Claims option \<Rightarrow> bool" where
  "device_acts S x c d cl \<longleftrightarrow>
     (\<exists>i y. home_device c = Some i \<and> device_holder S x i d y \<and> cl = Some (device_claims (in_env x) (d_owner_user_id y)))"

definition may_act :: "'r server \<Rightarrow> incoming \<Rightarrow> call \<Rightarrow> db \<Rightarrow> Claims option \<Rightarrow> bool" where
  "may_act S x c d cl \<longleftrightarrow>
     (\<exists>claims super. bearer S x = Inr claims \<and> cl = Some (claims\<lparr>IsSuper := super\<rparr>)) \<or> device_acts S x c d cl"

lemma in_worldE:
  assumes "in_world f P = (res, P')"
  obtains r w where "f (p_world P) = (r, w)" "P' = P\<lparr>p_world := w\<rparr>" "res = answer r"
  using assms by (auto simp: in_world_def split: prod.splits)

lemma in_portalE:
  assumes "in_portal f P = (res, P')"
  obtains r where "f P = (r, P')" "res = answer r"
  using assms by (auto simp: in_portal_def split: prod.splits)

lemma readers_same:
  "handleListServers E cl w = (a, w') \<Longrightarrow> w_db w' = w_db w"
  "handleListDeviceServices E cl i w = (b, w') \<Longrightarrow> w_db w' = w_db w"
  "handleListAllServices E cl w = (b, w') \<Longrightarrow> w_db w' = w_db w"
  "handleListSessions E cl w = (c, w') \<Longrightarrow> w_db w' = w_db w"
  "handleDeviceEvents H E cl i ar w = (f, w') \<Longrightarrow> w_db w' = w_db w"
  by (auto simp: handleListServers_def handleListDeviceServices_def handleListAllServices_def handleListSessions_def
      handleDeviceEvents_def Let_def split: if_splits option.splits ownership.splits)

lemma deviceAuthenticated_cases:
  assumes "deviceAuthenticated H E i nxt r w = (res, w')"
  obtains (refused) "w_db w' = w_db w" "\<forall>n a. res \<noteq> Reply n a"
  | (passed) y w1 where "w_db w1 = w_db w" "y \<in> set (devices (w_db w))" "uuid_in E i = Some (d_id y)"
      "d_status y = ''active''" "\<not> is_mobile y"
      "bcrypt_ok (h_crypto H) (d_credential_hash y) (TrimPrefix (authorization r) ''Bearer '')"
      "nxt (device_claims E (d_owner_user_id y)) w1 = (res, w')"
proof -
  have fd: "y \<in> set xs \<and> p y" if "List.find p xs = Some y" for p y and xs :: "device list"
    using that by (auto simp: find_Some_iff)
  obtain dec l where l: "limiter_Allow (h_redis H) (fails E 0) (Key [''direct'', ''device-auth'', RateLimitIP (client_ip H r)])
      device_auth_limit Minute (clock E) (w_limiter w) = (dec, l)" by (rule prod.exhaust)
  show thesis
  proof (cases "\<exists>y. w_limiter w \<noteq> NilLimiter \<and> nxt (device_claims E (d_owner_user_id y)) (w\<lparr>w_limiter := l\<rparr>) = (res, w') \<and>
      y \<in> set (devices (w_db w)) \<and> uuid_in E i = Some (d_id y) \<and> d_status y = ''active'' \<and> \<not> is_mobile y \<and>
      bcrypt_ok (h_crypto H) (d_credential_hash y) (TrimPrefix (authorization r) ''Bearer '')")
    case True
    then show thesis using passed [of "w\<lparr>w_limiter := l\<rparr>"] by auto
  next
    case False
    show thesis
      by (rule refused; use assms l False in \<open>auto simp: deviceAuthenticated_def Let_def bind_eq_Some_conv
          split: if_splits sum.splits option.splits limiter.splits dest!: fd\<close>)
  qed
qed

section \<open>A request is a run of transactions\<close>

text \<open>\<open>concurrently H A x\<close>: whatever runs while the request waits are transactions of callers that \<open>A\<close> allows.\<close>

definition concurrently :: "'r handler \<Rightarrow> (env \<Rightarrow> Claims option \<Rightarrow> bool) \<Rightarrow> incoming \<Rightarrow> bool" where
  "concurrently H A x \<longleftrightarrow> (\<forall>n s. reach (so_db s) (transaction H A) (so_db (in_others x n s)))"

interpretation alone: interleaved "transaction H A" "\<lambda>n s. s" for H A
  by unfold_locales (auto intro: login reach_start)

lemma concurrently_interleaved: "concurrently H A x \<Longrightarrow> interleaved (transaction H A) (in_others x)"
  by unfold_locales (auto simp: concurrently_def intro: login)

lemma one_write: "A E cl \<Longrightarrow> server_write H E cl a b \<Longrightarrow> reach d (transaction H A) a \<Longrightarrow> reach d (transaction H A) b"
  by (auto intro: reach_step request)

lemmas device_writes = pair_start pair_status pair_claim list_devices get_device heartbeat rotate_key peer_config delete_device

lemma world_writes:
  assumes "in_world f P = (res, P')" "\<And>r w'. f (p_world P) = (r, w') \<Longrightarrow> server_write H E cl (w_db (p_world P)) (w_db w') \<or> w_db w' = w_db (p_world P)"
    and "A E cl" "reach d (transaction H A) (db_of P)"
  shows "reach d (transaction H A) (db_of P')"
  using assms(1)
proof (rule in_worldE)
  fix r w assume "f (p_world P) = (r, w)" "P' = P\<lparr>p_world := w\<rparr>"
  then show ?thesis using assms(2) [of r w] assms(4) one_write [OF assms(3) _ assms(4)] by (auto simp: db_of_def)
qed

definition gated :: "call \<Rightarrow> bool" where
  "gated c \<longleftrightarrow> gates_of (target_of c) \<noteq> []"

lemma gated_iff:
  "gated c = (case c of Callback ck code \<Rightarrow> False | MobileCallback ck code \<Rightarrow> False | HandoffExchange b \<Rightarrow> False
   | MintSession q \<Rightarrow> False | BrowserSession \<Rightarrow> False | Logout \<Rightarrow> False | DebugIssue b \<Rightarrow> False | DebugRedeem b \<Rightarrow> False
   | DevLogin \<Rightarrow> False | HomeStream n i ts \<Rightarrow> False | HomeRegister i q \<Rightarrow> False | _ \<Rightarrow> True)"
  by (simp add: gated_def gates_table split: call.split)

lemma gated_handle:
  assumes "gated c" "handle S x c cl P = (res, P')" "A (in_env x) cl" "reach d (transaction (sv_handler S) A) (db_of P)"
  shows "reach d (transaction (sv_handler S) A) (db_of P')"
proof -
  note wr = world_writes [of _ P res P' "sv_handler S" "in_env x" cl, OF _ _ assms(3,4)]
  show ?thesis
    using assms(1,2,4)
    by (cases c)
      (auto simp: gated_iff reads_def in_portal_def split: prod.splits
        dest!: interleaved.run_ServeProfile [OF alone.interleaved_axioms]
        elim!: wr intro: server_write.intros device_writes dest: readers_same)
qed

lemma home_handle:
  assumes "in_world (deviceAuthenticated (sv_handler S) (in_env x) i nxt (in_http x)) P = (res, P')" "home_device c = Some i"
    and "\<forall>cl. device_acts S x c (db_of P) cl \<longrightarrow> A (in_env x) cl"
    and "\<And>cl w r w'. nxt (given cl) w = (r, w') \<Longrightarrow> server_write (sv_handler S) (in_env x) cl (w_db w) (w_db w')"
  shows "reach (db_of P) (transaction (sv_handler S) A) (db_of P')"
proof -
  obtain r w where rw: "deviceAuthenticated (sv_handler S) (in_env x) i nxt (in_http x) (p_world P) = (r, w)" "db_of P' = w_db w"
    using assms(1) by (auto elim!: in_worldE)
  from rw(1) show ?thesis
  proof (cases rule: deviceAuthenticated_cases)
    case refused
    then show ?thesis using rw(2) by (simp add: db_of_def reach_start)
  next
    case (passed y w1)
    let ?cl = "Some (device_claims (in_env x) (d_owner_user_id y))"
    have "device_acts S x c (db_of P) ?cl"
      using passed assms(2) unfolding device_acts_def device_holder_def db_of_def by blast
    moreover have "server_write (sv_handler S) (in_env x) ?cl (w_db w1) (w_db w)"
      using assms(4) [of ?cl w1 r w] passed(7) by (simp add: given_def)
    ultimately show ?thesis
      using rw(2) passed(1) assms(3) one_write [of A "in_env x" ?cl "sv_handler S" "w_db w1" "w_db w" "w_db w1", OF _ _ reach_start]
      by (simp add: db_of_def)
  qed
qed

lemma open_handle:
  assumes "\<not> gated c" "handle S x c cl P = (res, P')" "concurrently (sv_handler S) A x"
    and "\<forall>cl. device_acts S x c (db_of P) cl \<longrightarrow> A (in_env x) cl"
  shows "reach (db_of P) (transaction (sv_handler S) A) (db_of P')"
proof (cases "home_device c")
  case (Some i)
  then show ?thesis
    using assms(2)
    by (cases c) (auto elim!: home_handle [of S x i _ P res P' c A, OF _ Some assms(4)] intro: server_write.register server_write.lease)
next
  case None
  note L = concurrently_interleaved [OF assms(3)]
  have "reach (db_of P) (transaction (sv_handler S) A) (db_of P')" if "in_world (ServeMobileHandoffExchange (sv_handler S) E r b) P = (res, P')" for E r b
    using that by (elim in_worldE) (auto simp: db_of_def intro: reach_step [OF reach_start] redeem)
  then show ?thesis
    using assms(1,2) None
    by (cases c)
      (auto simp: gated_iff elim!: in_portalE intro: reach_start
        interleaved.run_ServeCallback [OF L] interleaved.run_ServeMobileCallback [OF L]
        interleaved.run_ServeInternalMintSession [OF L] interleaved.run_ServeSession [OF L] interleaved.run_ServeLogout [OF L]
        interleaved.run_ServeDebugIssue [OF L] interleaved.run_ServeDebugRedeem [OF L] interleaved.run_ServeDevLogin [OF L])
qed

text \<open>What a request does before its handler runs, and with which claims the handler runs.\<close>

lemma turn_away_run:
  "turn_away S x reason P = (res, P') \<Longrightarrow> reach d (transaction H A) (db_of P) \<Longrightarrow> reach d (transaction H A) (db_of P') \<and> res = Error 401 ''unauthorized''"
  by (auto simp: turn_away_def reject_def shouldAuditReject_def db_of_def split: prod.splits sum.splits bool.splits if_splits
      intro!: alone.run_log)

lemma Validate_claims:
  "sm_Validate H U E oth claims s = (Inr c, s') \<Longrightarrow> \<exists>super. c = claims\<lparr>IsSuper := super\<rparr>"
  by (drule Validate_live) (auto intro: exI [of _ "IsSuper claims"])

lemma session_gate_cases:
  assumes "session_gate S x nxt P = (res, P')" "concurrently (sv_handler S) A x"
  obtains (refused) "reach (db_of P) (transaction (sv_handler S) A) (db_of P')"
      "res \<in> {Error 401 ''unauthorized'', Error 503 ''session temporarily unavailable''}"
  | (passed) claims c s where "bearer S x = Inr claims"
      "sm_Validate (sv_handler S) (sv_uoa S) (in_gate x) (in_others x) claims (sso_of P) = (Inr c, s)"
      "reach (db_of P) (transaction (sv_handler S) A) (so_db s)" "nxt c (put_sso s P) = (res, P')"
proof (cases "bearer S x")
  case (Inl reason)
  have "turn_away S x reason P = (res, P')" using assms(1) Inl by (simp add: session_gate_def bearer_def Let_def)
  from turn_away_run [OF this reach_start, of "sv_handler S" A] show ?thesis using refused by simp
next
  case (Inr claims)
  obtain out s where v: "sm_Validate (sv_handler S) (sv_uoa S) (in_gate x) (in_others x) claims (sso_of P) = (out, s)"
    by (rule prod.exhaust)
  have s: "reach (db_of P) (transaction (sv_handler S) A) (so_db s)"
    using interleaved.run_Validate [OF concurrently_interleaved [OF assms(2)] v, of "db_of P"] by (simp add: reach_start)
  show ?thesis
  proof (cases out)
    case (Inr c)
    then show ?thesis
      using passed [of claims c s] \<open>bearer S x = Inr claims\<close> v s assms(1) by (simp add: session_gate_def bearer_def Let_def)
  next
    case (Inl e)
    have "turn_away S x ''expired_session'' (put_sso s P) = (res, P') \<or>
        res = Error 503 ''session temporarily unavailable'' \<and> P' = put_sso s P"
      using \<open>bearer S x = Inr claims\<close> v Inl assms(1) by (cases e) (auto simp: session_gate_def bearer_def Let_def)
    then show ?thesis
      using refused s turn_away_run [of S x "''expired_session''" "put_sso s P" res P' "db_of P" "sv_handler S" A] by auto
  qed
qed

text \<open>
  Every request to a route behind the middleware either is refused with 401 or 503, or its handler
  runs with the claims of the token (their super flag replaced), after which nothing else happens.
\<close>

lemma pass_cases:
  assumes "pass S x (Session # gs) k None P = (res, P')" "set gs \<subseteq> range Audienced" "concurrently (sv_handler S) A x"
  obtains (refused) "reach (db_of P) (transaction (sv_handler S) A) (db_of P')"
      "res \<in> {Error 401 ''unauthorized'', Error 503 ''session temporarily unavailable''}"
  | (passed) claims c s Q where "bearer S x = Inr claims"
      "sm_Validate (sv_handler S) (sv_uoa S) (in_gate x) (in_others x) claims (sso_of P) = (Inr c, s)"
      "reach (db_of P) (transaction (sv_handler S) A) (db_of Q)" "\<forall>a. Audienced a \<in> set gs \<longrightarrow> HasAudience c a"
      "k (Some c) Q = (res, P')"
proof -
  have aud: "res = Error 401 ''unauthorized'' \<and> P' = Q \<or> (\<forall>a. Audienced a \<in> set gs \<longrightarrow> HasAudience c a) \<and> k (Some c) Q = (res, P')"
    if "pass S x gs k (Some c) Q = (res, P')" for c Q
    using that assms(2) by (induction gs) (auto simp: RequireAudience_def split: if_splits)
  have "session_gate S x (\<lambda>c Q. pass S x gs k (Some c) (interrupt x 30 Q)) P = (res, P')" using assms(1) by simp
  then show thesis
  proof (cases rule: session_gate_cases [OF _ assms(3), consumes 1])
    case 1
    then show thesis by (rule refused)
  next
    case (2 claims c s)
    let ?Q = "interrupt x 30 (put_sso s P)"
    have "reach (db_of P) (transaction (sv_handler S) A) (db_of ?Q)"
      using interleaved.run_oth [OF concurrently_interleaved [OF assms(3)] 2(3)] by (simp add: interrupt_def)
    then show thesis using aud [OF 2(4)] refused passed 2(1,2) by blast
  qed
qed

lemma gates_shape: "gated c \<Longrightarrow> \<exists>gs. gates_of (target_of c) = Session # gs \<and> set gs \<subseteq> range Audienced"
  unfolding gated_iff gates_table by (cases c) auto

lemma served_cases:
  assumes "serve S x c P = (res, P')" "gated c" "concurrently (sv_handler S) A x"
  obtains (refused) "reach (db_of P) (transaction (sv_handler S) A) (db_of P')"
      "res \<in> {Error 401 ''unauthorized'', Error 503 ''session temporarily unavailable''}"
  | (handled) claims cl s Q where "bearer S x = Inr claims"
      "sm_Validate (sv_handler S) (sv_uoa S) (in_gate x) (in_others x) claims (sso_of P) = (Inr cl, s)"
      "reach (db_of P) (transaction (sv_handler S) A) (db_of Q)"
      "\<forall>a. Audienced a \<in> set (gates_of (target_of c)) \<longrightarrow> HasAudience cl a" "handle S x c (Some cl) Q = (res, P')"
proof -
  obtain gs where gs: "gates_of (target_of c) = Session # gs" "set gs \<subseteq> range Audienced" using gates_shape [OF assms(2)] by blast
  have "pass S x (Session # gs) (handle S x c) None P = (res, P')" using assms(1) gs(1) by (simp add: serve_def)
  then show thesis
    by (cases rule: pass_cases [OF _ gs(2) assms(3), consumes 1]) (use refused handled gs(1) in auto)
qed

theorem serve_run:
  assumes "serve S x c P = (res, P')" "concurrently (sv_handler S) A x"
    and "\<forall>cl. may_act S x c (db_of P) cl \<longrightarrow> A (in_env x) cl"
  shows "reach (db_of P) (transaction (sv_handler S) A) (db_of P')"
proof (cases "gated c")
  case False
  then have "handle S x c None P = (res, P')" using assms(1) by (simp add: serve_def gated_def)
  from open_handle [OF False this assms(2)] assms(3) show ?thesis by (simp add: may_act_def)
next
  case True
  from assms(1) this assms(2) show ?thesis
  proof (cases rule: served_cases)
    case (handled claims cl s Q)
    have "may_act S x c (db_of P) (Some cl)" using handled(1) Validate_claims [OF handled(2)] by (auto simp: may_act_def)
    then show ?thesis using gated_handle [OF True handled(5) _ handled(3)] assms(3) by blast
  qed
qed

text \<open>Without others interleaved, a token that is accepted leads to the handler.\<close>

lemma serve_passed:
  assumes "gates_of (target_of c) = Session # map Audienced as" "bearer S x = Inr claims" "in_others x = (\<lambda>n s. s)"
    and "sm_Validate (sv_handler S) (sv_uoa S) (in_gate x) (\<lambda>n s. s) claims (sso_of P) = (Inr cl, s)"
    and "\<forall>a \<in> set as. HasAudience cl a"
  shows "serve S x c P = handle S x c (Some cl) (put_sso s P)"
proof -
  have "pass S x (map Audienced as) k (Some cl) Q = k (Some cl) Q" for k Q
    using assms(5) by (induction as) (auto simp: RequireAudience_def)
  moreover have "put_sso (sso_of Q) Q = Q" for Q :: "'a portal" by (simp add: put_sso_def sso_of_def)
  ultimately show ?thesis
    using assms(1-4) by (simp add: serve_def session_gate_def bearer_def interrupt_def Let_def)
qed

lemma answer_Reply [simp]:
  "answer r = Reply n () \<longleftrightarrow> (\<exists>a. r = Reply n a)" "Reply n () = answer r \<longleftrightarrow> (\<exists>a. r = Reply n a)"
  by (cases r; auto simp: answer_def)+

section \<open>The server\<close>

text \<open>
  What happens to a server: a request arrives (with others interleaved), the subscriber receives a
  message of the relay, the maintenance of the sessions makes a sweep.
\<close>

inductive server_step :: "'r server \<Rightarrow> (env \<Rightarrow> Claims option \<Rightarrow> bool) \<Rightarrow> 'r portal \<Rightarrow> 'r portal \<Rightarrow> bool" for S A where
  serves: "serve S x c P = (res, P') \<Longrightarrow> concurrently (sv_handler S) A x \<Longrightarrow>
    (\<forall>cl. may_act S x c (db_of P) cl \<longrightarrow> A (in_env x) cl) \<Longrightarrow> server_step S A P P'"
| records: "server_step S A P (P\<lparr>p_world := (p_world P)\<lparr>w_db := handleMessage E ch payload (db_of P)\<rparr>\<rparr>)"
| maintains: "RetryCleanup (sv_handler S) (sv_uoa S) E Es gone (sso_of P) = (ok, s) \<Longrightarrow> server_step S A P (put_sso s P)"

definition anyone :: "env \<Rightarrow> Claims option \<Rightarrow> bool" where
  "anyone E cl \<longleftrightarrow> True"

lemma server_step_run: "server_step S A P P' \<Longrightarrow> reach (db_of P) (transaction (sv_handler S) A) (db_of P')"
proof (induction rule: server_step.induct)
  case (serves x c P res P')
  from serve_run [OF serves] show ?case .
next
  case (records P E ch payload)
  show ?case by (auto intro: reach_step [OF reach_start] message)
next
  case (maintains E Es gone P ok s)
  from alone.run_RetryCleanup [OF this, of "db_of P" "sv_handler S" A] show ?case by (simp add: reach_start)
qed

lemma server_run: "reach P (server_step S A) P' \<Longrightarrow> reach (db_of P) (transaction (sv_handler S) A) (db_of P')"
  by (induction rule: reach.induct) (auto intro: reach_start reach_trans server_step_run)

text \<open>
  A property of the database that every transaction keeps holds in every state of the server.
\<close>

locale server_invariant = invariant_system "transaction H A" I for H :: "'r handler" and A and I :: "db \<Rightarrow> bool"
begin

lemma server_holds:
  assumes "sv_handler S = H" "reach P (server_step S A) P'" "I (db_of P)"
  shows "I (db_of P')"
  using reach_inv [of "db_of P" "db_of P'"] server_run [OF assms(2)] assms(1,3) by simp

lemma served_holds:
  assumes "sv_handler S = H" "serve S x c P = (res, P')" "concurrently H A x"
    and "\<forall>cl. may_act S x c (db_of P) cl \<longrightarrow> A (in_env x) cl" "I (db_of P)"
  shows "I (db_of P')"
  using reach_inv [OF serve_run [of S x c P res P' A, unfolded assms(1)]] assms by simp

end

end
