(* ===== verification/Server_Invariants.thy ===== *)
theory Server_Invariants
  imports Transactions
begin

text \<open>
  What every transaction of the server does to each table, and the invariants that follow: the
  constraints of the schema, an audit trail that only grows, spent pair codes, versions of keys, ended
  sessions, the belongings of a user and who is super. Each is an interpretation of
  \<open>server_invariant\<close>, so it holds for the server as a whole.
\<close>

section \<open>What the transactions touch\<close>

text \<open>The tables other than those of devices, keys, leases and events: a phone leaves them alone.\<close>

definition off_devices :: "db \<Rightarrow> db" where
  "off_devices d = d\<lparr>devices := [], device_keys := [], home_grants := [], audit_events := []\<rparr>"

lemma off_devices_same:
  assumes "off_devices d = off_devices d'"
  shows "pair_codes d = pair_codes d'" "users d = users d'" "services d = services d'" "connect_sessions d = connect_sessions d'"
    "relay_credentials d = relay_credentials d'" "relay_allocations d = relay_allocations d'"
    "handoff_codes d = handoff_codes d'" "uoa_sessions d = uoa_sessions d'"
  using assms by (cases d; cases d'; simp add: off_devices_def)+

lemma off_devices_log [simp]: "off_devices (w_db (log_event H E n e w)) = off_devices (w_db w)"
  by (auto simp: log_event_def audit_Log_def off_devices_def split: option.splits)

lemma upsert_device_cases:
  assumes "upsertMobileDevice H E user req d = Some (dev, ip, d')"
  obtains (new) u ch where "uuid_in E user = Some u" "dev = gen_uuid E 0" "d' = insert_device (mobile_row E u ch req) d" "db_ok d'"
  | (old) u x where "uuid_in E user = Some u" "x \<in> set (devices d)" "d_owner_user_id x = u" "dev = d_id x" "db_ok d'"
      "d' = d\<lparr>devices := sql_update (\<lambda>y. d_id y = d_id x) (reenrolled_row E req) (devices d)\<rparr>"
proof -
  obtain u where u: "uuid_in E user = Some u"
    using assms by (auto simp: upsertMobileDevice_def split: if_splits option.splits)
  let ?f = "filter (\<lambda>x. d_owner_user_id x = u \<and> d_hostname x = er_Hostname req \<and> is_mobile x \<and>
      d_direct_scoped x = er_DirectScoped req) (devices d)"
  show thesis
  proof (cases ?f)
    case Nil
    with assms u obtain ch where "dev = gen_uuid E 0" "d' = insert_device (mobile_row E u ch req) d" "db_ok d'"
      by (auto simp: upsertMobileDevice_def split: if_splits option.splits)
    with u show thesis by (rule new)
  next
    case (Cons x xs)
    then have "x \<in> set ?f" by simp
    then have "x \<in> set (devices d)" "d_owner_user_id x = u" by auto
    with Cons assms u show thesis
      by (intro old [of u x]) (auto simp: upsertMobileDevice_def split: if_splits option.splits)
  qed
qed

lemma upsert_key_frame:
  assumes "db_ok d" "upsertMobileDeviceKey E dev key d = Some d'"
  shows "db_ok d' \<and> d'\<lparr>device_keys := []\<rparr> = d\<lparr>device_keys := []\<rparr> \<and>
    filter (\<lambda>k. k_device_id k \<noteq> dev) (device_keys d') = filter (\<lambda>k. k_device_id k \<noteq> dev) (device_keys d)"
proof (cases "filter (active_of dev) (device_keys d)")
  case Nil
  then show ?thesis
    using assms by (auto simp: upsertMobileDeviceKey_def insert_key_def split: if_splits)
next
  case (Cons k ks)
  then have "k \<in> set (filter (active_of dev) (device_keys d))" by simp
  then have k: "k \<in> set (device_keys d)" "k_device_id k = dev" by (auto simp: active_of_def)
  have "pk k_id (device_keys d)" using assms(1) by (simp add: db_ok_def keys_ok_def)
  then have one: "x = k" if "x \<in> set (device_keys d)" "k_id x = k_id k" for x
    using that k(1) unique_onD [of "\<lambda>r. Some (k_id r)" "device_keys d" x k] by (simp add: pk_def)
  have "filter (\<lambda>x. k_device_id x \<noteq> dev) (sql_update (\<lambda>x. k_id x = k_id k) f (device_keys d)) =
      filter (\<lambda>x. k_device_id x \<noteq> dev) (device_keys d)" if "\<And>x. k_device_id (f x) = k_device_id x" for f
    by (rule filter_sql_update) (use one k(2) that in fastforce)
  then show ?thesis
    using assms Cons
    by (auto simp: upsertMobileDeviceKey_def insert_key_def retire_keys_def bind_eq_Some_conv split: if_splits)
qed

lemma enroll_tx_cases:
  assumes "enroll_tx H E user req d = Some (dev, ip, d')"
  obtains a d1 d2 where "upsertMobileDevice H E user req d = Some (dev, a, d1)"
    "upsertMobileDeviceKey E dev (er_WGPublicKey req) d1 = Some d2" "db_ok d1" "db_ok d2" "db_ok d'"
    "d' = d2 \<or> (\<exists>b v. uuid_in E dev = Some v \<and> d' = with_overlay_ip (clock E) b v d2)"
proof -
  obtain a d1 where 1: "upsertMobileDevice H E user req d = Some (dev, a, d1)"
    using assms by (auto simp: enroll_tx_def split: if_splits option.splits)
  have o1: "db_ok d1" using 1 by (rule upsert_device_cases)
  obtain d2 where 2: "upsertMobileDeviceKey E dev (er_WGPublicKey req) d1 = Some d2"
    using assms 1 by (auto simp: enroll_tx_def split: if_splits option.splits)
  have o2: "db_ok d2" using upsert_key_frame [OF o1 2] by simp
  have "d' = d2 \<or> (\<exists>x. AllocateTx E 7 (h_overlay H) dev d2 = (Inr x, d'))"
    using assms 1 2 by (auto simp: enroll_tx_def split: if_splits option.splits prod.splits sum.splits)
  then have "(d' = d2 \<or> (\<exists>b v. uuid_in E dev = Some v \<and> d' = with_overlay_ip (clock E) b v d2)) \<and> db_ok d'"
    using o2 pool.alloc_done [of E 7 "h_overlay H" dev d2 _ d'] by blast
  then show thesis using that 1 2 o1 o2 by blast
qed

lemma enroll_tx_off:
  assumes "enroll_tx H E user req d = Some (dev, ip, d')"
  shows "off_devices d' = off_devices d \<and> db_ok d' \<and> audit_events d' = audit_events d"
  using assms
proof (rule enroll_tx_cases)
  fix a d1 d2
  assume h: "upsertMobileDevice H E user req d = Some (dev, a, d1)" "upsertMobileDeviceKey E dev (er_WGPublicKey req) d1 = Some d2"
    "db_ok d1" "db_ok d'" "d' = d2 \<or> (\<exists>b v. uuid_in E dev = Some v \<and> d' = with_overlay_ip (clock E) b v d2)"
  have 1: "off_devices d1 = off_devices d \<and> audit_events d1 = audit_events d"
    using h(1) by (rule upsert_device_cases) (simp_all add: off_devices_def insert_device_def)
  have f: "d2\<lparr>device_keys := []\<rparr> = d1\<lparr>device_keys := []\<rparr>" using upsert_key_frame [OF h(3,2)] by simp
  have 2: "off_devices d2 = off_devices d1 \<and> audit_events d2 = audit_events d1"
    using f by (cases d1; cases d2) (simp add: off_devices_def)
  show ?thesis using 1 2 h(4,5) by (auto simp: off_devices_def with_overlay_ip_def)
qed

text \<open>The audit trail only grows.\<close>

definition trail_grows :: "db \<Rightarrow> db \<Rightarrow> bool" where
  "trail_grows d d' \<longleftrightarrow> (\<exists>es. audit_events d' = audit_events d @ es)"

lemma trail_grows_refl [simp]: "trail_grows d d"
  by (simp add: trail_grows_def)

lemma trail_same: "audit_events d' = audit_events d \<Longrightarrow> trail_grows d d'"
  by (simp add: trail_grows_def)

lemma trail_grows_trans: "trail_grows a b \<Longrightarrow> trail_grows b c \<Longrightarrow> trail_grows a c"
  by (auto simp: trail_grows_def)

lemma trail_audit_Log: "trail_grows d (snd (audit_Log E n e d))"
  by (auto simp: trail_grows_def audit_Log_def split: option.splits)

lemma trail_log_event: "trail_grows a (w_db w) \<Longrightarrow> trail_grows a (w_db (log_event H E n e w))"
  by (auto simp: log_event_def intro: trail_grows_trans trail_audit_Log)

lemma handleEnroll_cases:
  assumes "handleEnroll H E cl r q w = (res, w')"
  obtains (keep) "w_db w' = w_db w"
  | (enrolled) req dev ip d where "enroll_tx H E (claims_sub cl) req (w_db w) = Some (dev, ip, d)" "db_ok (w_db w')"
      "(w_db w')\<lparr>home_grants := [], audit_events := []\<rparr> = d\<lparr>home_grants := [], audit_events := []\<rparr>" "trail_grows d (w_db w')"
proof -
  let ?off = "\<lambda>d. d\<lparr>home_grants := [], audit_events := []\<rparr>"
  have gr: "db_ok d' \<and> ?off d' = ?off d \<and> audit_events d' = audit_events d"
    if "grant_home E m h t d = Some d'" "db_ok d" for m h t and d d' :: db
    using that by (auto simp: grant_home_def split: option.splits if_splits)
  have lg: "db_ok (w_db (log_event H E n e v)) \<and> ?off (w_db (log_event H E n e v)) = ?off (w_db v) \<and> trail_grows (w_db v) (w_db (log_event H E n e v))"
    if "db_ok (w_db v)" for n e v
    using that trail_log_event [OF trail_grows_refl, of v H E n e]
    by (auto simp: log_event_def audit_Log_def audit_Log_ok split: option.splits)
  show thesis
  proof (cases "claims_sub cl = [] \<or> (\<exists>m. parseEnrollRequest (h_crypto H) q = Inl m)")
    case True
    then show thesis using keep assms by (auto simp: handleEnroll_def split: if_splits)
  next
    case False
    then obtain req0 where p: "claims_sub cl \<noteq> []" "parseEnrollRequest (h_crypto H) q = Inr req0"
      by (cases "parseEnrollRequest (h_crypto H) q") auto
    obtain x w1 where e: "ensureEnrollReady H E (claims_sub cl) w = (x :: enrollResponse response option, w1)" by (rule prod.exhaust)
    have w1: "w_db w1 = w_db w"
      using e rate_limit_result(1) [where H = H] by (auto simp: ensureEnrollReady_def split: prod.splits option.splits)
    show thesis
    proof (cases x)
      case (Some y)
      then show thesis using keep assms p e w1 by (simp add: handleEnroll_def)
    next
      case None
      define home where "home = (case cl of None \<Rightarrow> [] | Some c \<Rightarrow> DirectHomeID c)"
      define expires where "expires = (case cl of None \<Rightarrow> 0 | Some c \<Rightarrow> ExpiresAt c)"
      define req where "req = req0\<lparr>er_DirectScoped := (home \<noteq> [])\<rparr>"
      obtain out w2 where m: "enrollMobileDevice H E (claims_sub cl) req w1 = (out, w2)" by (rule prod.exhaust)
      have hd: "handleEnroll H E cl r q w = (case out of None \<Rightarrow> (Error 500 ''failed to enroll mobile device'', w2)
        | Some (dev, overlayIP) \<Rightarrow>
            (case (if home = [] then Some (w_db w2) else grant_home E dev home expires (w_db w2)) of
               None \<Rightarrow> (Error 503 ''direct grant unavailable'', w2)
             | Some d \<Rightarrow> (case overlayIP of
                    Some ip \<Rightarrow> if er_DirectScoped req
                      then Reply 200 \<lparr>en_DeviceID = dev, en_OverlayIP = overlayIP, en_WGConfig = direct_config ip\<rparr>
                      else writeMobileEnrollSuccess H dev overlayIP
                  | None \<Rightarrow> writeMobileEnrollSuccess H dev overlayIP,
                  log_event H E 13 (user_event H r (claims_sub cl) ''device.mobile_enroll'' ''devices'' (Some dev)) (w2\<lparr>w_db := d\<rparr>))))"
        using p e None m unfolding handleEnroll_def Let_def home_def expires_def req_def
        by (auto split: option.splits)
      show thesis
      proof (cases "enroll_tx H E (claims_sub cl) req (w_db w)")
        case None
        then have "out = None" "w_db w2 = w_db w" using m w1 by (auto simp: enrollMobileDevice_def)
        then show thesis using keep hd assms by simp
      next
        case (Some z)
        obtain dev ip d where z: "enroll_tx H E (claims_sub cl) req (w_db w) = Some (dev, ip, d)" using Some by (cases z) auto
        have w2: "w_db w2 = d"
          using m w1 z by (auto simp: enrollMobileDevice_def Let_def sync_all_def split: if_splits prod.splits bool.splits)
        have ok: "db_ok d" using enroll_tx_off [OF z] by simp
        have "db_ok (w_db w') \<and> ?off (w_db w') = ?off d \<and> trail_grows d (w_db w')"
        proof (cases "out = None \<or> w' = w2")
          case True
          then have "w' = w2" using hd assms by auto
          then show ?thesis using w2 ok by simp
        next
          case False
          then obtain dv oip g where "out = Some (dv, oip)"
            "(if home = [] then Some (w_db w2) else grant_home E dv home expires (w_db w2)) = Some g"
            "w' = log_event H E 13 (user_event H r (claims_sub cl) ''device.mobile_enroll'' ''devices'' (Some dv)) (w2\<lparr>w_db := g\<rparr>)"
            using hd assms by (auto split: option.splits prod.splits)
          moreover from this(2) have "db_ok g \<and> ?off g = ?off d \<and> audit_events g = audit_events d"
            using gr [of dv home expires d g] w2 ok by (auto split: if_splits)
          ultimately show ?thesis using lg [of "w2\<lparr>w_db := g\<rparr>" 13] by (simp add: trail_grows_def)
        qed
        then show thesis using enrolled [OF z] by simp
      qed
    qed
  qed
qed

lemma handleDisconnect_cases:
  assumes "handleDisconnect H E cl r w = (res, w')"
  obtains (keep) "w_db w' = w_db w"
  | (revoked) ids d where "DisconnectMobileDevices E (claims_sub cl) (w_db w) = Some (ids, d)" "db_ok (w_db w')"
      "core w' = d\<lparr>audit_events := []\<rparr>" "trail_grows d (w_db w')"
proof -
  obtain x w1 where p: "rate_limit H E 0 (Key [''mobile'', ''disconnect'', ''user'', claims_sub cl])
      mobileDisconnectLimit mobileDisconnectWindow w = (x :: unit response option, w1)" by (rule prod.exhaust)
  note R = rate_limit_result(1) [OF p]
  show thesis
  proof (cases "DisconnectMobileDevices E (claims_sub cl) (w_db w)")
    case None
    then show thesis using keep assms p R by (auto simp: handleDisconnect_def split: if_splits option.splits)
  next
    case (Some z)
    then obtain ids d where D: "DisconnectMobileDevices E (claims_sub cl) (w_db w) = Some (ids, d)" by (cases z) auto
    obtain ok w2 where S: "sync_all H E 5 (w1\<lparr>w_db := d\<rparr>) = (ok, w2)" by (rule prod.exhaust)
    have w2: "w_db w2 = d" using sync_db(1) [of H E 5 "w1\<lparr>w_db := d\<rparr>"] S by simp
    have ok: "db_ok d" using D by (rule disconnect_effect)
    have "w_db w' = w_db w \<or> (\<exists>o'. w' = auditMobileDisconnect H E r (claims_sub cl) ids o' w2)"
      using assms p R D S by (auto simp: handleDisconnect_def split: if_splits option.splits bool.splits)
    then show thesis
    proof
      assume "\<exists>o'. w' = auditMobileDisconnect H E r (claims_sub cl) ids o' w2"
      then obtain e where e: "w' = log_event H E 6 e w2" by (auto simp: auditMobileDisconnect_def)
      have "core w' = d\<lparr>audit_events := []\<rparr>" using w2 by (simp add: e) (simp add: core_def)
      then show thesis
        using revoked [OF D] ok w2 trail_log_event [OF trail_grows_refl, of w2 H E 6 e] by (simp add: e log_event_ok)
    qed (rule keep)
  qed
qed

lemma claimed_db_same [simp]:
  "audit_events (claimed_db H E u hostname credHash ip pc d) = audit_events d"
  by (simp add: claimed_db_def mark_claimed_def insert_key_def insert_device_def with_overlay_ip_def Let_def split: option.splits)

text \<open>The audit trail in the device routes.\<close>

lemma device_trail:
  assumes "device_step H E cl w w'"
  shows "trail_grows (w_db w) (w_db w')"
  using assms
proof cases
  case (pair_start r body res)
  from handlePairStart_effect [OF this] show ?thesis by (auto simp: trail_grows_def)
next
  case (pair_claim r req resp)
  have "trail_grows (w_db w) d" if "claim_code H E sub name pc (w_db w) = Inr (x, d)" for sub name pc x d
    using that by (rule claim_code_effect) (simp add: trail_same)
  then show ?thesis
    using pair_claim
    by (auto simp: pairClaim_def Let_def handleInvalidPairClaim_def recordPairClaimFailure_def
        intro!: trail_log_event intro: trail_same split: if_splits option.splits list.splits sum.splits prod.splits)
next
  case (heartbeat param hb ack)
  from handleHeartbeat_effect [OF this] show ?thesis by (auto simp: trail_grows_def)
next
  case (rotate_key r param key ver)
  have "trail_grows (w_db w) d" if "rotateActiveDeviceKey E dev sub k (w_db w) = Inr (n, d)" for dev sub k n d
    using that by (rule rotate_effect) (simp add: trail_same insert_key_def retire_keys_def)
  then show ?thesis
    using rotate_key
    by (auto simp: handleRotateKey_def Let_def intro!: trail_log_event intro: trail_same split: if_splits option.splits sum.splits)
next
  case (delete_device r param ack)
  then show ?thesis
    by (auto simp: handleDeleteDevice_def Let_def update_owned_def owned_by_def intro!: trail_log_event intro: trail_same
        split: if_splits option.splits)
qed (auto dest: readers_keep)

text \<open>What each transaction of a caller does to the tables.\<close>

lemma services_cases:
  assumes "handleUpsertServices E cl i m w = (res, w')"
  shows "w' = w \<or> db_ok (w_db w') \<and> (w_db w')\<lparr>services := []\<rparr> = (w_db w)\<lparr>services := []\<rparr>"
proof -
  have ins: "(db_ok d \<longrightarrow> db_ok d') \<and> d'\<lparr>services := []\<rparr> = d\<lparr>services := []\<rparr>" if "insert_entries E n dev es d = Inr d'" for n dev es and d d' :: db
    using that
    by (induction es arbitrary: n d) (auto simp: insertServiceEntry_def split: if_splits option.splits sum.splits)
  have "db_ok d' \<and> d'\<lparr>services := []\<rparr> = d\<lparr>services := []\<rparr>" if "replaceDeviceServices E dev es d = Inr d'" for dev es and d d' :: db
    using that by (auto simp: replaceDeviceServices_def bind_eq_Some_conv split: if_splits option.splits sum.splits dest!: ins)
  then show ?thesis
    using assms
    by (auto simp: handleUpsertServices_def Let_def split: if_splits option.splits ownership.splits sum.splits)
qed

lemma register_cases:
  assumes "register H E n i c q w = (res, w')"
  shows "w' = w \<or> (\<exists>x u host port sp. uuid_in E i = Some x \<and> uuid_in E (Sub c) = Some u \<and> db_ok (w_db w') \<and>
    w_db w' = (w_db w)\<lparr>devices := sql_update (registrable x u) (registered_row E host port sp) (devices (w_db w))\<rparr>)"
  using assms
  by (auto simp: register_def Let_def split: option.splits prod.splits if_splits) (intro exI, rule refl)+

lemma lease_cases:
  assumes "stream H E n i c ts w = (res, w')"
  shows "w' = w \<or> db_ok (w_db w') \<and> (w_db w')\<lparr>home_grants := []\<rparr> = (w_db w)\<lparr>home_grants := []\<rparr>"
proof -
  obtain out d where a: "stream_admit H E n i c (w_db w) = (out, d)" by (rule prod.exhaust)
  have "w' = w\<lparr>w_db := d\<rparr>" using assms a by (auto simp: stream_def split: sum.splits)
  then show ?thesis using stream_admit_effect [OF a] by (auto simp: upsert_grant_def)
qed

lemma server_write_cases:
  assumes "server_write H E cl d d'"
  obtains (keep) "d' = d"
  | (device) w w' where "d = w_db w" "d' = w_db w'" "device_step H E cl w w'"
  | (enrolled) req dev ip e where "enroll_tx H E (claims_sub cl) req d = Some (dev, ip, e)" "db_ok d'"
      "d'\<lparr>home_grants := [], audit_events := []\<rparr> = e\<lparr>home_grants := [], audit_events := []\<rparr>" "trail_grows e d'"
  | (revoked) ids e where "DisconnectMobileDevices E (claims_sub cl) d = Some (ids, e)" "db_ok d'"
      "d'\<lparr>audit_events := []\<rparr> = e\<lparr>audit_events := []\<rparr>" "trail_grows e d'"
  | (services) "db_ok d'" "d'\<lparr>services := []\<rparr> = d\<lparr>services := []\<rparr>"
  | (session) row where "db_ok d'" "d' = d\<lparr>connect_sessions := connect_sessions d @ [row]\<rparr>"
      "uuid_in E (claims_sub cl) = Some (cs_requester_user row)"
  | (candidates) q i u where "db_ok d'" "uuid_in E (claims_sub cl) = Some u"
      "d' = d\<lparr>connect_sessions := sql_update (candidate_turn q i u d) (set_candidates E q) (connect_sessions d)\<rparr>"
  | (relay) row where "db_ok d'" "d' = d\<lparr>relay_credentials := relay_credentials d @ [row]\<rparr>"
  | (register) x u host port sp where "uuid_in E (Sub (given cl)) = Some u" "db_ok d'"
      "d' = d\<lparr>devices := sql_update (registrable x u) (registered_row E host port sp) (devices d)\<rparr>"
  | (lease) "db_ok d'" "d'\<lparr>home_grants := []\<rparr> = d\<lparr>home_grants := []\<rparr>"
  using assms
proof cases
  case (device w w')
  then show ?thesis using that(2) by blast
next
  case (enroll r q w res w')
  from enroll(3) show ?thesis
    by (cases rule: handleEnroll_cases) (use that(1,3) enroll(1,2) in auto)
next
  case (disconnect r w ack w')
  from disconnect(3) show ?thesis
    by (cases rule: handleDisconnect_cases) (use that(1,4) disconnect(1,2) in \<open>auto simp: core_def\<close>)
next
  case (services i m w ss w')
  then show ?thesis using services_cases [OF services(3)] that(1,5) by auto
next
  case (session pol cs w row w')
  then show ?thesis using create_effect [OF session(3)] that(1,6) by auto
next
  case (candidates i cand w ack w')
  then show ?thesis using candidates_effect [OF candidates(3)] that(1,7) by auto
next
  case (relay i w cred w')
  then show ?thesis using relay_effect [OF relay(3)] that(1,8) by auto
next
  case (register n i rg w ack w')
  then show ?thesis using register_cases [OF register(3)] that(1,9) by auto
next
  case (lease n i ts w msgs w')
  then show ?thesis using lease_cases [OF lease(3)] that(1,10) by auto
qed

text \<open>The tables a transaction leaves alone.\<close>

lemma only_table:
  "d'\<lparr>services := []\<rparr> = d\<lparr>services := []\<rparr> \<Longrightarrow> users d' = users d \<and> devices d' = devices d \<and> device_keys d' = device_keys d \<and>
     pair_codes d' = pair_codes d \<and> connect_sessions d' = connect_sessions d \<and> audit_events d' = audit_events d"
  "d'\<lparr>home_grants := []\<rparr> = d\<lparr>home_grants := []\<rparr> \<Longrightarrow> users d' = users d \<and> devices d' = devices d \<and> device_keys d' = device_keys d \<and>
     pair_codes d' = pair_codes d \<and> connect_sessions d' = connect_sessions d \<and> audit_events d' = audit_events d"
  by (cases d; cases d'; simp)+

lemma device_step_tables:
  assumes "device_step H E cl w w'"
  shows "connect_sessions (w_db w') = connect_sessions (w_db w)" "users (w_db w') = users (w_db w)"
proof -
  have "connect_sessions (core w') = connect_sessions (core w) \<and> users (core w') = users (core w)"
    using assms
  proof (cases rule: device_step_cases)
    case (claim u hostname credHash ip pc)
    show ?thesis unfolding claim(5)
      by (simp add: core_def claimed_db_def mark_claimed_def insert_key_def insert_device_def with_overlay_ip_def Let_def
          split: option.splits)
  next
    case (rotate dev key n d)
    from rotate(2) show ?thesis unfolding rotate(3)
      by (rule rotate_effect) (simp add: core_def insert_key_def retire_keys_def)
  qed (simp_all add: core_def)
  then show "connect_sessions (w_db w') = connect_sessions (w_db w)" "users (w_db w') = users (w_db w)"
    by (simp_all add: core_def)
qed

lemma enrolled_tables:
  assumes "enroll_tx H E u req d = Some (dev, ip, e)"
    "d'\<lparr>home_grants := [], audit_events := []\<rparr> = e\<lparr>home_grants := [], audit_events := []\<rparr>"
  shows "pair_codes d' = pair_codes d" "connect_sessions d' = connect_sessions d" "users d' = users d"
    "devices d' = devices e" "device_keys d' = device_keys e"
  using off_devices_same [of e d] enroll_tx_off [OF assms(1)] assms(2) by (cases d'; cases e; simp)+

lemma revoked_tables:
  assumes "DisconnectMobileDevices E u d = Some (ids, e)" "d'\<lparr>audit_events := []\<rparr> = e\<lparr>audit_events := []\<rparr>"
  shows "pair_codes d' = pair_codes d" "connect_sessions d' = connect_sessions d" "users d' = users d"
    "devices d' = devices e" "device_keys d' = device_keys e" "audit_events e = audit_events d"
proof -
  from assms(1) have "e\<lparr>devices := [], device_keys := []\<rparr> = d\<lparr>devices := [], device_keys := []\<rparr>" by (rule disconnect_effect)
  then show "pair_codes d' = pair_codes d" "connect_sessions d' = connect_sessions d" "users d' = users d"
    "devices d' = devices e" "device_keys d' = device_keys e" "audit_events e = audit_events d"
    using assms(2) by (cases d; cases d'; cases e; simp)+
qed

section \<open>Invariants of the server\<close>

subsection \<open>The schema\<close>

lemma device_step_ok: "device_step H E cl w w' \<Longrightarrow> db_ok (w_db w) \<Longrightarrow> db_ok (w_db w')"
  by (erule device_step_cases) simp_all

lemma login_write_ok: "login_write d d' \<Longrightarrow> db_ok d \<Longrightarrow> db_ok d'"
  by (induction rule: login_write.induct) (auto dest: upsertUser_effect simp: audit_Log_ok)

lemma exchange_ok: "ServeMobileHandoffExchange H E r b w = (res, w') \<Longrightarrow> db_ok (w_db w) \<Longrightarrow> db_ok (w_db w')"
  by (drule exchange_effect) auto

lemma server_write_ok: "server_write H E cl d d' \<Longrightarrow> db_ok d \<Longrightarrow> db_ok d'"
  by (erule server_write_cases) (auto intro: device_step_ok)

lemma transaction_ok: "transaction H A d d' \<Longrightarrow> db_ok d \<Longrightarrow> db_ok d'"
  by (induction rule: transaction.induct) (auto intro: login_write_ok exchange_ok handleMessage_ok server_write_ok)

interpretation schema: server_invariant H A db_ok for H A
  by unfold_locales (rule transaction_ok)

subsection \<open>The audit trail\<close>

lemma login_write_trail: "login_write d d' \<Longrightarrow> trail_grows d d'"
  by (induction rule: login_write.induct)
    (auto simp: update_sessions_def delete_sessions_def upsertUser_def Let_def trail_audit_Log intro: trail_same
      split: if_splits option.splits)

lemma server_write_trail: "server_write H E cl d d' \<Longrightarrow> trail_grows d d'"
proof (erule server_write_cases)
  fix req dev ip e assume "enroll_tx H E (claims_sub cl) req d = Some (dev, ip, e)" "trail_grows e d'"
  then show ?thesis using enroll_tx_off [of H E "claims_sub cl" req d dev ip e] by (simp add: trail_grows_def)
next
  fix ids e assume "DisconnectMobileDevices E (claims_sub cl) d = Some (ids, e)" "trail_grows e d'"
    "d'\<lparr>audit_events := []\<rparr> = e\<lparr>audit_events := []\<rparr>"
  then show ?thesis using revoked_tables(6) [of E "claims_sub cl" d ids e d'] by (simp add: trail_grows_def)
qed (auto dest: device_trail dest!: only_table intro: trail_same)

lemma transaction_trail: "transaction H A d d' \<Longrightarrow> trail_grows d d'"
proof (induction rule: transaction.induct)
  case (redeem E r b w res w')
  from exchange_effect [OF this] show ?case by (auto simp: trail_grows_def consume_handoff_def)
next
  case (message d E ch payload)
  from handleMessage_effect [of d E ch payload] show ?case by (auto simp: trail_grows_def alloc_effect_def)
qed (auto intro: login_write_trail server_write_trail)

interpretation trail: server_invariant H A "trail_grows d" for H A d
  by unfold_locales (auto intro: transaction_trail trail_grows_trans)

subsection \<open>Pair codes, keys and connect sessions\<close>

text \<open>Outside the device routes no transaction touches a pair code, and outside those and the phones none touches a key.\<close>

lemma login_write_net:
  "login_write d d' \<Longrightarrow> d'\<lparr>users := [], uoa_sessions := [], handoff_codes := [], audit_events := []\<rparr> =
    d\<lparr>users := [], uoa_sessions := [], handoff_codes := [], audit_events := []\<rparr>"
  by (induction rule: login_write.induct)
    (auto simp: update_sessions_def delete_sessions_def upsertUser_def Let_def audit_Log_def split: if_splits option.splits)

lemma background_net:
  assumes "\<not> (\<exists>E cl. A E cl \<and> server_write H E cl d d')" "transaction H A d d'"
  shows "pair_codes d' = pair_codes d" "device_keys d' = device_keys d" "devices d' = devices d"
    "connect_sessions d' = connect_sessions d" "services d' = services d" "relay_credentials d' = relay_credentials d"
    "home_grants d' = home_grants d"
proof -
  let ?net = "\<lambda>d. d\<lparr>users := [], uoa_sessions := [], handoff_codes := [], audit_events := [], relay_allocations := []\<rparr>"
  have e: "?net d' = ?net d"
    using assms(2,1)
  proof cases
    case login
    from login_write_net [OF this] show ?thesis by (cases d; cases d') simp
  next
    case (redeem E r b w res w')
    then show ?thesis using exchange_effect [OF redeem(3)] by (auto simp: consume_handoff_def)
  next
    case (message E ch payload)
    then show ?thesis using handleMessage_effect [of d E ch payload] by (auto simp: alloc_effect_def)
  qed auto
  from e show "pair_codes d' = pair_codes d" "device_keys d' = device_keys d" "devices d' = devices d"
    "connect_sessions d' = connect_sessions d" "services d' = services d" "relay_credentials d' = relay_credentials d"
    "home_grants d' = home_grants d"
    by (cases d; cases d'; simp)+
qed

definition claimed_code :: "string \<Rightarrow> string \<Rightarrow> db \<Rightarrow> bool" where
  "claimed_code h dev d \<longleftrightarrow> db_ok d \<and>
     (\<exists>p \<in> set (pair_codes d). pc_code_hash p = h \<and> pc_status p = ''claimed'' \<and> pc_claimed_device p = Some dev)"

lemma spent_db: "spent h dev w = claimed_code h dev (w_db w)"
  by (simp add: spent_def claimed_code_def)

lemma claimed_code_cong: "claimed_code h dev d \<Longrightarrow> db_ok d' \<Longrightarrow> pair_codes d' = pair_codes d \<Longrightarrow> claimed_code h dev d'"
  by (simp add: claimed_code_def)

lemma write_pair_codes:
  assumes "server_write H E cl d d'"
  obtains (device) w w' where "d = w_db w" "d' = w_db w'" "device_step H E cl w w'"
  | (same) "pair_codes d' = pair_codes d"
  using assms
  by (cases rule: server_write_cases) (use device same in \<open>auto dest!: only_table dest: enrolled_tables(1) revoked_tables(1)\<close>)

lemma claimed_code_step:
  assumes "claimed_code h dev d" "transaction H A d d'"
  shows "claimed_code h dev d'"
proof -
  have ok: "db_ok d'" using transaction_ok [OF assms(2)] assms(1) by (simp add: claimed_code_def)
  show ?thesis
  proof (cases "\<exists>E cl. A E cl \<and> server_write H E cl d d'")
    case True
    then obtain E cl where "server_write H E cl d d'" by blast
    then show ?thesis
      by (cases rule: write_pair_codes)
        (use assms(1) ok spent_step in \<open>auto simp: spent_db intro: claimed_code_cong\<close>)
  next
    case False
    from claimed_code_cong [OF assms(1) ok background_net(1) [OF False assms(2)]] show ?thesis .
  qed
qed

interpretation claims: server_invariant H A "claimed_code h dev" for H A h dev
  by unfold_locales (rule claimed_code_step)

lemma latest_cong: "latest d \<Longrightarrow> db_ok d' \<Longrightarrow> device_keys d' = device_keys d \<Longrightarrow> latest d'"
  by (simp add: latest_def)

lemma latest_write:
  assumes "server_write H E cl d d'" "latest d"
  shows "latest d'"
proof -
  have ok: "db_ok d'" using server_write_ok [OF assms(1)] assms(2) by (simp add: latest_def)
  from assms(1) show ?thesis
  proof (cases rule: server_write_cases)
    case (device w w')
    then show ?thesis using latest_device_step assms(2) by blast
  next
    case (enrolled req dev ip e)
    from latest_cong [OF latest_enroll_tx [OF assms(2) enrolled(1)] ok enrolled_tables(5) [OF enrolled(1,3)]] show ?thesis .
  next
    case (revoked ids e)
    from latest_cong [OF latest_disconnect [OF assms(2) revoked(1)] ok revoked_tables(5) [OF revoked(1,3)]] show ?thesis .
  qed (use assms(2) ok in \<open>auto dest!: only_table intro: latest_cong\<close>)
qed

lemma latest_transaction:
  assumes "latest d" "transaction H A d d'"
  shows "latest d'"
proof (cases "\<exists>E cl. A E cl \<and> server_write H E cl d d'")
  case True
  then show ?thesis using latest_write assms(1) by blast
next
  case False
  have "db_ok d'" using transaction_ok [OF assms(2)] assms(1) by (simp add: latest_def)
  from latest_cong [OF assms(1) this background_net(2) [OF False assms(2)]] show ?thesis .
qed

interpretation versions: server_invariant H A latest for H A
  by unfold_locales (rule latest_transaction)

definition ended :: "connect_session \<Rightarrow> db \<Rightarrow> bool" where
  "ended c d \<longleftrightarrow> c \<in> set (connect_sessions d) \<and> \<not> operable c"

lemma ended_write:
  assumes "server_write H E cl d d'" "ended c d"
  shows "ended c d'"
  using assms(1)
proof (cases rule: server_write_cases)
  case (candidates q i u)
  then show ?thesis using assms(2) by (auto simp: ended_def set_sql_update candidate_turn_def)
qed (use assms(2) in \<open>auto simp: ended_def device_step_tables enrolled_tables(2) revoked_tables(2) dest!: only_table\<close>)

lemma ended_transaction:
  assumes "ended c d" "transaction H A d d'"
  shows "ended c d'"
proof (cases "\<exists>E cl. A E cl \<and> server_write H E cl d d'")
  case True
  then show ?thesis using ended_write assms(1) by blast
next
  case False
  from background_net(4) [OF this assms(2)] show ?thesis using assms(1) by (simp add: ended_def)
qed

interpretation endings: server_invariant H A "ended c" for H A c
  by unfold_locales (rule ended_transaction)

subsection \<open>What belongs to a user\<close>

text \<open>
  The devices and keys of \<open>owner\<close> are \<open>ds\<close> and \<open>ks\<close>, and the identifiers of all devices are in the
  form the conversion of the database delivers.
\<close>

definition belongings :: "(string \<Rightarrow> string option) \<Rightarrow> string \<Rightarrow> device list \<Rightarrow> device_key list \<Rightarrow> db \<Rightarrow> bool" where
  "belongings conv owner ds ks d \<longleftrightarrow> db_ok d \<and> (\<forall>x \<in> set (devices d). conv (d_id x) = Some (d_id x)) \<and>
     devices_of owner (devices d) = ds \<and> keys_of ds (device_keys d) = ks"

text \<open>A caller that is not \<open>owner\<close>.\<close>

definition stranger :: "(string \<Rightarrow> string option) \<Rightarrow> string \<Rightarrow> env \<Rightarrow> Claims option \<Rightarrow> bool" where
  "stranger conv owner E cl \<longleftrightarrow> uuid_in E = conv \<and> uuid_laws E \<and> claims_sub cl \<noteq> owner \<and> conv (claims_sub cl) \<noteq> Some owner"

lemma belongings_cong:
  "belongings conv owner ds ks d \<Longrightarrow> db_ok d' \<Longrightarrow> devices d' = devices d \<Longrightarrow> device_keys d' = device_keys d \<Longrightarrow>
   belongings conv owner ds ks d'"
  by (simp add: belongings_def)

text \<open>A device of someone else: what happens to it or to its keys.\<close>

definition foreign :: "string \<Rightarrow> string \<Rightarrow> db \<Rightarrow> bool" where
  "foreign owner dev d \<longleftrightarrow> (\<exists>x \<in> set (devices d). d_id x = dev \<and> d_owner_user_id x \<noteq> owner)"

lemma foreign_other:
  assumes "db_ok d" "foreign owner dev d" "y \<in> set (devices d)" "d_owner_user_id y = owner"
  shows "d_id y \<noteq> dev"
proof -
  have ok: "devices_ok (users d) (devices d)" using assms(1) by (simp add: db_ok_def)
  show ?thesis using assms(2-4) device_unique [OF ok assms(3)] by (auto simp: foreign_def)
qed

lemma foreign_row:
  assumes "db_ok d" "foreign owner dev d" "\<And>x. d_owner_user_id (f x) = d_owner_user_id x"
  shows "devices_of owner (sql_update (\<lambda>y. d_id y = dev) f (devices d)) = devices_of owner (devices d)"
  unfolding devices_of_def
  by (rule filter_sql_update) (use foreign_other [OF assms(1,2)] assms(3) in auto)

lemma foreign_keys:
  assumes "db_ok d" "foreign owner dev d" "filter (\<lambda>k. k_device_id k \<noteq> dev) ks' = filter (\<lambda>k. k_device_id k \<noteq> dev) ks"
  shows "keys_of (devices_of owner (devices d)) ks' = keys_of (devices_of owner (devices d)) ks"
proof -
  let ?ds = "devices_of owner (devices d)"
  have "dev \<notin> d_id ` set ?ds" using foreign_other [OF assms(1,2)] by (auto simp: devices_of_def)
  then have "keys_of ?ds l = filter (\<lambda>k. k_device_id k \<in> d_id ` set ?ds) (filter (\<lambda>k. k_device_id k \<noteq> dev) l)" for l
    by (auto simp: keys_of_def intro!: filter_cong)
  then show ?thesis using assms(3) by metis
qed

lemma device_step_canonical:
  assumes "device_step H E cl w w'" "uuid_laws E" "\<forall>x \<in> set (devices (w_db w)). uuid_in E (d_id x) = Some (d_id x)"
  shows "\<forall>x \<in> set (devices (w_db w')). uuid_in E (d_id x) = Some (d_id x)"
proof -
  have "\<forall>x \<in> set (devices (core w')). uuid_in E (d_id x) = Some (d_id x)"
    using assms(1)
  proof (cases rule: device_step_cases)
    case (claim u hostname credHash ip pc)
    from assms(2) claim(6) show ?thesis unfolding claim(5)
      by (rule claimed_db_devices) (use assms(2,3) in \<open>auto simp: uuid_laws_def\<close>)
  next
    case (own x u f)
    then show ?thesis unfolding own(3) using assms(3) by (auto simp: set_sql_update)
  next
    case (rotate dev key n d)
    from rotate(2) show ?thesis unfolding rotate(3)
      by (rule rotate_effect) (use assms(3) in \<open>simp add: insert_key_def retire_keys_def\<close>)
  qed (use assms(3) in \<open>simp_all add: core_def\<close>)
  then show ?thesis by (simp add: core_def)
qed

lemma upsert_device_foreign:
  assumes "upsertMobileDevice H E user req d = Some (dev, ip, d')" "belongings conv owner ds ks d" "uuid_in E = conv"
    and "uuid_laws E" "conv user \<noteq> Some owner"
  shows "foreign owner dev d' \<and> belongings conv owner ds ks d' \<and> conv dev = Some dev"
  using assms(1)
proof (cases rule: upsert_device_cases)
  case (new u ch)
  have "u \<noteq> owner" using new(1) assms(3,5) by auto
  then show ?thesis
    using assms(2-4) new
    by (auto simp: foreign_def belongings_def insert_device_def mobile_row_def devices_of_def uuid_laws_def)
next
  case (old u x)
  have u: "u \<noteq> owner" using old(1) assms(3,5) by auto
  have ok: "db_ok d" using assms(2) by (simp add: belongings_def)
  have f: "foreign owner dev d" using old u by (auto simp: foreign_def)
  have "foreign owner dev d'"
    using old(2-4) u unfolding foreign_def old(6)
    by (intro bexI [of _ "reenrolled_row E req x"]) (auto simp: set_sql_update reenrolled_row_def)
  moreover have "devices_of owner (devices d') = devices_of owner (devices d)"
    using foreign_row [OF ok f, of "reenrolled_row E req"] by (simp add: old(6) old(4) [symmetric] reenrolled_row_def)
  moreover have "\<forall>y \<in> set (devices d'). conv (d_id y) = Some (d_id y)"
    using assms(2) by (auto simp: old(6) belongings_def set_sql_update reenrolled_row_def)
  ultimately show ?thesis using assms(2) old by (simp add: belongings_def)
qed

lemma enrolled_foreign:
  assumes "enroll_tx H E user req d = Some (dev, ip, d')" "belongings conv owner ds ks d" "uuid_in E = conv"
    and "uuid_laws E" "conv user \<noteq> Some owner"
  shows "belongings conv owner ds ks d'"
  using assms(1)
proof (rule enroll_tx_cases)
  fix a d1 d2
  assume h: "upsertMobileDevice H E user req d = Some (dev, a, d1)" "upsertMobileDeviceKey E dev (er_WGPublicKey req) d1 = Some d2"
    "db_ok d1" "db_ok d2" "db_ok d'" "d' = d2 \<or> (\<exists>b v. uuid_in E dev = Some v \<and> d' = with_overlay_ip (clock E) b v d2)"
  from upsert_device_foreign [OF h(1) assms(2-5)] have 1: "foreign owner dev d1" "belongings conv owner ds ks d1" "conv dev = Some dev"
    by auto
  from upsert_key_frame [OF h(3,2)] have k: "d2\<lparr>device_keys := []\<rparr> = d1\<lparr>device_keys := []\<rparr>"
    "filter (\<lambda>k. k_device_id k \<noteq> dev) (device_keys d2) = filter (\<lambda>k. k_device_id k \<noteq> dev) (device_keys d1)" by auto
  have dv: "devices d2 = devices d1" using k(1) by (cases d1; cases d2) simp
  have 2: "belongings conv owner ds ks d2"
    using 1(2) foreign_keys [OF h(3) 1(1) k(2)] h(4) dv by (auto simp: belongings_def)
  from h(6) show ?thesis
  proof
    assume "\<exists>b v. uuid_in E dev = Some v \<and> d' = with_overlay_ip (clock E) b v d2"
    then obtain b where d': "d' = with_overlay_ip (clock E) b dev d2" using assms(3) 1(3) by auto
    have "foreign owner dev d2" using 1(1) dv by (simp add: foreign_def)
    from foreign_row [OF h(4) this] have "devices_of owner (devices d') = ds"
      using 2 by (simp add: d' with_overlay_ip_def belongings_def)
    moreover have "\<forall>y \<in> set (devices d'). conv (d_id y) = Some (d_id y)"
      using 2 by (auto simp: d' with_overlay_ip_def belongings_def set_sql_update)
    moreover have "device_keys d' = device_keys d2" by (simp add: d' with_overlay_ip_def)
    ultimately show ?thesis using 2 h(5) by (simp add: belongings_def)
  qed (use 2 in simp)
qed

lemma revoked_foreign:
  assumes "DisconnectMobileDevices E user d = Some (ids, d')" "belongings conv owner ds ks d" "uuid_in E = conv" "conv user \<noteq> Some owner"
  shows "belongings conv owner ds ks d'"
  using assms(1)
proof (rule disconnect_effect)
  fix u
  assume e: "uuid_in E user = Some u" "db_ok d'" "ids = map d_id (filter (disconnectable u) (devices d))"
    "devices d' = sql_update (disconnectable u) (revoked_row E) (devices d)"
    "device_keys d' = sql_update (\<lambda>k. k_device_id k \<in> set ids \<and> k_state k = ''active'')
       (\<lambda>k. k\<lparr>k_state := ''retired'', k_retired_at := Some (clock E)\<rparr>) (device_keys d)"
  have u: "u \<noteq> owner" using e(1) assms(3,4) by auto
  have ok: "db_ok d" and ds: "ds = devices_of owner (devices d)" using assms(2) by (auto simp: belongings_def)
  have "i \<notin> d_id ` set ds" if "i \<in> set ids" for i
  proof -
    have "foreign owner i d" using that u by (auto simp: e(3) foreign_def disconnectable_def)
    from foreign_other [OF ok this] show ?thesis by (auto simp: ds devices_of_def)
  qed
  then have "keys_of ds (device_keys d') = keys_of ds (device_keys d)"
    unfolding keys_of_def e(5) by (intro filter_sql_update) auto
  moreover have "devices_of owner (devices d') = ds"
    unfolding ds devices_of_def e(4) by (rule filter_sql_update) (use u in \<open>auto simp: disconnectable_def revoked_row_def\<close>)
  moreover have "\<forall>y \<in> set (devices d'). conv (d_id y) = Some (d_id y)"
    using assms(2) by (auto simp: e(4) belongings_def set_sql_update revoked_row_def)
  ultimately show ?thesis using e(2) assms(2) by (simp add: belongings_def)
qed

lemma stranger_write:
  assumes "server_write H E cl d d'" "stranger conv owner E cl" "belongings conv owner ds ks d"
  shows "belongings conv owner ds ks d'"
proof -
  have S: "uuid_in E = conv" "uuid_laws E" "claims_sub cl \<noteq> owner" "conv (claims_sub cl) \<noteq> Some owner"
    using assms(2) by (auto simp: stranger_def)
  have ok: "db_ok d'" using server_write_ok [OF assms(1)] assms(3) by (simp add: belongings_def)
  from assms(1) show ?thesis
  proof (cases rule: server_write_cases)
    case (device w w')
    have "holdings owner ds ks w" using assms(3) unfolding belongings_def holdings_def device(1) by blast
    moreover have "stranger_step H owner w w'" using device(3) S unfolding stranger_step_def by blast
    ultimately have "holdings owner ds ks w'" by (rule holdings_step)
    then show ?thesis
      using device_step_canonical [OF device(3) S(2)] assms(3) S(1) device(1,2) by (simp add: holdings_def belongings_def)
  next
    case (enrolled req dev ip e)
    from belongings_cong [OF enrolled_foreign [OF enrolled(1) assms(3) S(1,2,4)] ok enrolled_tables(4,5) [OF enrolled(1,3)]]
    show ?thesis .
  next
    case (revoked ids e)
    from belongings_cong [OF revoked_foreign [OF revoked(1) assms(3) S(1,4)] ok revoked_tables(4,5) [OF revoked(1,3)]]
    show ?thesis .
  next
    case (register x u host port sp)
    have "u \<noteq> owner \<or> cl = None" using register(1) S(1,4) by (cases cl) (auto simp: given_def claims_sub_def)
    then have u: "u \<noteq> owner" using register(1) S(1,4) by (auto simp: given_def claims_sub_def)
    have "devices_of owner (devices d') = devices_of owner (devices d)"
      unfolding register(3) devices_of_def
      by simp (rule filter_sql_update, use u in \<open>auto simp: registrable_def registered_row_def\<close>)
    moreover have "\<forall>y \<in> set (devices d'). conv (d_id y) = Some (d_id y)"
      using assms(3) by (auto simp: register(3) belongings_def set_sql_update registered_row_def)
    ultimately show ?thesis using assms(3) ok by (simp add: belongings_def register(3))
  qed (use assms(3) ok in \<open>auto dest!: only_table intro: belongings_cong\<close>)
qed

lemma stranger_transaction:
  assumes "belongings conv owner ds ks d" "transaction H (stranger conv owner) d d'"
  shows "belongings conv owner ds ks d'"
proof (cases "\<exists>E cl. stranger conv owner E cl \<and> server_write H E cl d d'")
  case True
  then show ?thesis using stranger_write assms(1) by blast
next
  case False
  have "db_ok d'" using transaction_ok [OF assms(2)] assms(1) by (simp add: belongings_def)
  from belongings_cong [OF assms(1) this background_net(3,2) [OF False assms(2)]] show ?thesis .
qed

interpretation property: server_invariant H "stranger conv owner" "belongings conv owner ds ks" for H conv owner ds ks
  by unfold_locales (rule stranger_transaction)

subsection \<open>Super users\<close>

definition supers :: "db \<Rightarrow> string list" where
  "supers d = map u_id (filter u_is_super (users d))"

text \<open>An installation with a user, and the super users it has.\<close>

definition settled :: "string list \<Rightarrow> db \<Rightarrow> bool" where
  "settled us d \<longleftrightarrow> users d \<noteq> [] \<and> supers d = us"

lemma supers_update:
  assumes "\<And>x. u_id (f x) = u_id x \<and> u_is_super (f x) = u_is_super x"
  shows "map u_id (filter u_is_super (sql_update p f us)) = map u_id (filter u_is_super us)"
  using assms by (induction us) auto

lemma settled_users: "settled us d \<Longrightarrow> users d' = users d \<Longrightarrow> settled us d'"
  by (simp add: settled_def supers_def)

lemma settled_login:
  assumes "upsertUser E n subject d = Some (u, d')" "settled us d"
  shows "settled us d'"
proof (cases "List.find (\<lambda>x. u_external_id x = subject) (users d)")
  case None
  then have "users d' = users d @ [new_user E subject False]"
    using assms by (auto simp: upsertUser_def settled_def split: if_splits)
  then show ?thesis using assms(2) by (simp add: settled_def supers_def new_user_def)
next
  case (Some v)
  then have d': "users d' = sql_update (\<lambda>x. u_external_id x = subject)
      (\<lambda>x. x\<lparr>u_last_login_at := Some (clock E), u_updated_at := clock E\<rparr>) (users d)"
    using assms(1) by (auto simp: upsertUser_def Let_def split: if_splits)
  have "supers d' = supers d" unfolding supers_def d' by (rule supers_update) simp
  moreover have "users d' \<noteq> []" using assms(2) by (cases "users d") (auto simp: d' settled_def)
  ultimately show ?thesis using assms(2) by (simp add: settled_def)
qed

lemma settled_login_write: "login_write d d' \<Longrightarrow> settled us d \<Longrightarrow> settled us d'"
  by (induction rule: login_write.induct)
    (auto simp: update_sessions_def delete_sessions_def intro: settled_login settled_users)

lemma settled_write:
  assumes "server_write H E cl d d'" "settled us d"
  shows "settled us d'"
  using assms(1)
  by (cases rule: server_write_cases)
    (use assms(2) in \<open>auto dest!: only_table simp: device_step_tables intro: settled_users enrolled_tables(3) revoked_tables(3)\<close>)

lemma settled_transaction: "transaction H A d d' \<Longrightarrow> settled us d \<Longrightarrow> settled us d'"
proof (induction rule: transaction.induct)
  case (redeem E r b w res w')
  from exchange_effect [OF redeem(1)] redeem(2) show ?case by (auto simp: consume_handoff_def intro: settled_users)
next
  case (message d E ch payload)
  from handleMessage_effect [of d E ch payload] message show ?case by (auto simp: alloc_effect_def intro: settled_users)
qed (auto intro: settled_login_write settled_write)

interpretation crowns: server_invariant H A "settled us" for H A us
  by unfold_locales (auto intro: settled_transaction)

end
