(* ===== verification/Whole_Server.thy ===== *)
theory Whole_Server
  imports Server_Invariants
begin

text \<open>
  What holds for the control server as a whole: over every sequence of requests to every route, each
  through its gates and with others interleaved, of messages from the relay and of maintenance.
\<close>

section \<open>Who may write\<close>

text \<open>The tables of the network, as opposed to those of users, logins and events.\<close>

definition network :: "db \<Rightarrow> device list \<times> device_key list \<times> pair_code list \<times> service list \<times> connect_session list \<times>
    relay_credential list \<times> home_grant list" where
  "network d = (devices d, device_keys d, pair_codes d, services d, connect_sessions d, relay_credentials d, home_grants d)"

definition nobody :: "env \<Rightarrow> Claims option \<Rightarrow> bool" where
  "nobody E cl \<longleftrightarrow> False"

lemma background_network: "transaction H nobody d d' \<Longrightarrow> network d' = network d"
  using background_net [of nobody H d d'] by (simp add: network_def nobody_def)

interpretation idle: server_invariant H nobody "\<lambda>d. network d = n" for H n
  by unfold_locales (simp add: background_network)

text \<open>A session of the database that a token stands for, or the grant of the connector.\<close>

definition live_claims :: "'r server \<Rightarrow> incoming \<Rightarrow> Claims \<Rightarrow> db \<Rightarrow> bool" where
  "live_claims S x claims d \<longleftrightarrow>
     CapabilityKind claims = RafikiDirectCapability \<and> validateRafikiDirect (in_gate x) 0 (h_cfg (sv_handler S)) claims d = Inr claims \<or>
     (\<exists>r \<in> set (uoa_sessions d). live_row (clock (in_gate x)) (SessionID claims) (Sub claims) d r \<and> \<not> us_closing r)"


section \<open>Properties of every run\<close>

lemma claim_served:
  assumes "serve S x (PairClaim (Some req)) P = (Reply 200 (), P1)" "concurrently (sv_handler S) anyone x"
  obtains cl Q resp w where "reach (db_of P) (transaction (sv_handler S) anyone) (db_of Q)" "P1 = Q\<lparr>p_world := w\<rparr>"
    "pairClaim (sv_handler S) (in_env x) cl (in_http x) (Some req) (p_world Q) = (Reply 200 resp, w)"
proof -
  have "gated (PairClaim (Some req))" by (simp add: gated_iff)
  from assms(1) this assms(2) show thesis
    by (cases rule: served_cases) (auto elim!: in_worldE intro: that)
qed


text \<open>
  C4. Users are isolated on the server as a whole: whatever anyone but the user requests, on any route,
  with a session or as a home machine of their own, the user's devices and keys stay exactly as they
  were, and none is added. Identifiers are those the database delivers.
\<close>

theorem server_isolates_users:
  assumes "db_ok (db_of P)" "\<forall>x \<in> set (devices (db_of P)). conv (d_id x) = Some (d_id x)"
    and "reach P (server_step S (stranger conv owner)) P'"
  shows "devices_of owner (devices (db_of P')) = devices_of owner (devices (db_of P)) \<and>
    keys_of (devices_of owner (devices (db_of P))) (device_keys (db_of P')) =
    keys_of (devices_of owner (devices (db_of P))) (device_keys (db_of P))"
  using property.server_holds [OF refl assms(3), of "devices_of owner (devices (db_of P))"
      "keys_of (devices_of owner (devices (db_of P))) (device_keys (db_of P))"] assms(1,2)
  by (simp add: belongings_def)

text \<open>
  C13. Keys are numbered upwards on the server as a whole: starting from a database without keys, each
  device has at most one active key in every state, and it has the highest version of all keys the
  device ever had.
\<close>

theorem server_active_key_latest:
  assumes "db_ok (db_of P)" "device_keys (db_of P) = []" "reach P (server_step S anyone) P'"
    and "k \<in> set (device_keys (db_of P'))" "k' \<in> set (device_keys (db_of P'))"
    and "k_device_id k' = k_device_id k" "k_state k = ''active''"
  shows "k_key_version k' \<le> k_key_version k \<and> (k_state k' = ''active'' \<longrightarrow> k' = k)"
proof -
  have L: "latest (db_of P')"
    by (rule versions.server_holds [OF refl assms(3)]) (use assms(1,2) in \<open>simp add: latest_def\<close>)
  then have "k' = k" if "k_state k' = ''active''"
    using that assms(4-7) one_active_key [of "db_of P'" k' k "k_device_id k"] by (simp add: latest_def active_of_def)
  then show ?thesis using L assms(4-7) by (auto simp: latest_def)
qed

text \<open>
  C21. A connect session that was denied or is over stays as it is on the server as a whole: no request
  on any route, no message of the relay and no maintenance changes its row or removes it.
\<close>

theorem server_ended_session_frozen:
  assumes "c \<in> set (connect_sessions (db_of P))"
    and "cs_status c \<in> {''denied'', ''closing'', ''closed'', ''expired'', ''failed''}"
    and "reach P (server_step S anyone) P'"
  shows "c \<in> set (connect_sessions (db_of P'))"
  using endings.server_holds [OF refl assms(3), of c] assms(1,2) by (simp add: ended_def operable_def)

text \<open>
  C15. The audit trail is append-only and the constraints of the schema hold in every state of the
  server: no request of anyone, interleaved with any others, changes or removes an event.
\<close>

theorem server_audit_append_only:
  assumes "db_ok (db_of P)" "reach P (server_step S A) P'"
  shows "db_ok (db_of P') \<and> (\<exists>es. audit_events (db_of P') = audit_events (db_of P) @ es)"
  using schema.server_holds [OF refl assms(2,1)] trail.server_holds [OF refl assms(2) trail_grows_refl]
  by (simp add: trail_grows_def)


section \<open>A request to a server\<close>

definition sample_server :: "redis_store server" where
  "sample_server = \<lparr>sv_handler = sso_handler\<lparr>h_hub := None\<rparr>, sv_uoa = sample_uoa, sv_policy = None,
     sv_url_parts = (\<lambda>s. None), sv_set_query = (\<lambda>s c. None)\<rparr>"

definition sample_in :: "env \<Rightarrow> incoming" where
  "sample_in E = \<lparr>in_http = sample_req, in_gate = calm 8 [], in_env = E, in_late = calm 9 [], in_others = (\<lambda>n s. s)\<rparr>"

text \<open>Two users, the second with a device, a service and a session that was denied; a pending pair code; a login of the first user.\<close>

definition denied_session :: connect_session where
  "denied_session = sample_session\<lparr>cs_target_device := ''d2''\<rparr>"

definition busy_db :: db where
  "busy_db = empty_db\<lparr>users := [(mk_user ''u1'')\<lparr>u_external_id := ''x1'', u_is_super := True\<rparr>, mk_user ''u2''],
     devices := [mk_device ''d2'' ''u2'' ''linux''], services := [sample_service\<lparr>sv_device_id := ''d2''\<rparr>],
     connect_sessions := [denied_session], pair_codes := pair_codes (w_db paired_world),
     uoa_sessions := [sample_uoa_session], audit_events := [trail_event 1 ''a'']\<rparr>"

definition claim_env :: env where
  "claim_env = calm 9 [''d9'', ''k9'']"

definition claim_call :: call where
  "claim_call = PairClaim (Some sample_claim)"

definition busy :: "redis_store portal" where
  "busy = sample_portal busy_db"

definition admitted :: "redis_store portal" where
  "admitted = put_sso (snd (sm_Validate (sv_handler sample_server) (sv_uoa sample_server) (calm 8 []) (\<lambda>n s. s) sample_bearer
     (sso_of busy))) busy"

definition claim_run :: "pairClaimResponse response \<times> redis_store world" where
  "claim_run = pairClaim (sv_handler sample_server) claim_env (Some (sample_bearer\<lparr>IsSuper := True\<rparr>)) sample_req
     (Some sample_claim) (p_world admitted)"

text \<open>A claim through the whole server: the token is accepted, the session found, the device paired.\<close>

definition claimed :: "redis_store portal" where
  "claimed = admitted\<lparr>p_world := snd claim_run\<rparr>"

lemma busy_simps: "db_of busy = busy_db" "db_of claimed = w_db (snd claim_run)"
  by (simp_all add: db_of_def busy_def claimed_def sample_portal_def sample_world_def)

lemma busy_bearer: "bearer sample_server (sample_in E) = Inr sample_bearer"
  unfolding bearer_def sample_server_def sample_in_def by simp code_simp

lemma claim_evaluated:
  "case claim_run of (r, w) \<Rightarrow> (case r of Reply n x \<Rightarrow> n = 200 | _ \<Rightarrow> False) \<and> map d_id (devices (w_db w)) = [''d2'', ''d9''] \<and>
     map k_key_version (filter (active_of ''d9'') (device_keys (w_db w))) = [1] \<and> length (audit_events (w_db w)) = 2"
  by code_simp

lemma claim_served_sample: "serve sample_server (sample_in claim_env) claim_call busy = (Reply 200 (), claimed)"
proof -
  let ?v = "sm_Validate (sv_handler sample_server) (sv_uoa sample_server) (calm 8 []) (\<lambda>n s. s) sample_bearer (sso_of busy)"
  have f: "fst ?v = Inr (sample_bearer\<lparr>IsSuper := True\<rparr>)" "HasAudience (sample_bearer\<lparr>IsSuper := True\<rparr>) AudienceAdmin"
    by code_simp+
  have g: "gates_of (target_of claim_call) = Session # map Audienced [AudienceAdmin]" unfolding gates_table by (simp add: claim_call_def)
  have x: "in_others (sample_in claim_env) = (\<lambda>n s. s)" "in_gate (sample_in claim_env) = calm 8 []" by (simp_all add: sample_in_def)
  have v: "?v = (Inr (sample_bearer\<lparr>IsSuper := True\<rparr>), snd ?v)" using f(1) by (metis prod.collapse)
  have "answer (fst claim_run) = Reply 200 ()"
    using claim_evaluated by (auto simp: case_prod_unfold split: response.splits)
  then have "handle sample_server (sample_in claim_env) claim_call (Some (sample_bearer\<lparr>IsSuper := True\<rparr>)) admitted = (Reply 200 (), claimed)"
    unfolding claimed_def by (simp add: claim_call_def in_world_def sample_in_def claim_run_def case_prod_unfold)
  moreover have "serve sample_server (sample_in claim_env) claim_call busy =
      handle sample_server (sample_in claim_env) claim_call (Some (sample_bearer\<lparr>IsSuper := True\<rparr>)) admitted"
    unfolding admitted_def
    by (rule serve_passed [OF g busy_bearer x(1), unfolded x(2), OF v]) (simp add: f(2))
  ultimately show ?thesis by simp
qed

lemma sample_alone: "concurrently H A (sample_in E)"
  by (simp add: concurrently_def sample_in_def reach_start)

lemma claim_actors: "may_act sample_server (sample_in E) claim_call d cl \<Longrightarrow> claims_sub cl = ''u1''"
  by (auto simp: may_act_def device_acts_def claim_call_def busy_bearer claims_sub_def sample_bearer_def)

lemma claim_step:
  assumes "\<And>cl. claims_sub cl = ''u1'' \<Longrightarrow> A claim_env cl"
  shows "reach busy (server_step sample_server A) claimed"
proof -
  have "in_env (sample_in claim_env) = claim_env" by (simp add: sample_in_def)
  then have "server_step sample_server A busy claimed"
    by (intro serves [OF claim_served_sample sample_alone]) (auto intro: assms claim_actors)
  then show ?thesis by (rule reach_step [OF reach_start])
qed

lemma busy_facts:
  "db_ok busy_db" "map d_id (devices busy_db) = [''d2'']" "device_keys busy_db = []" "supers busy_db = [''u1'']"
  by code_simp+

lemma claimed_facts:
  "map d_id (devices (w_db (snd claim_run))) = [''d2'', ''d9'']"
  "map k_key_version (filter (active_of ''d9'') (device_keys (w_db (snd claim_run)))) = [1]"
  "length (audit_events (w_db (snd claim_run))) = 2"
  using claim_evaluated unfolding case_prod_unfold by simp_all



theorem server_isolates_users_witness:
  "devices_of ''u2'' (devices (db_of claimed)) = devices_of ''u2'' (devices busy_db) \<and> map d_id (devices (db_of claimed)) = [''d2'', ''d9'']"
proof -
  have s: "stranger Some ''u2'' claim_env cl" if "claims_sub cl = ''u1''" for cl
  proof -
    have "uuid_in claim_env = Some" by (rule ext) (simp add: claim_env_def)
    then show ?thesis using that by (simp add: stranger_def uuid_laws_def)
  qed
  have "\<forall>x \<in> set (devices (db_of busy)). Some (d_id x) = Some (d_id x)" by simp
  from server_isolates_users [of busy Some sample_server "''u2''" claimed] this claim_step [of "stranger Some ''u2''"] s show ?thesis
    using claimed_facts(1) busy_facts(1) by (simp add: busy_simps)
qed

theorem server_active_key_latest_witness:
  "\<exists>k. filter (active_of ''d9'') (device_keys (db_of claimed)) = [k] \<and> k_key_version k \<le> k_key_version k"
proof -
  obtain k where k: "filter (active_of ''d9'') (device_keys (db_of claimed)) = [k]"
    using claimed_facts(2) by (auto simp: busy_simps map_eq_Cons_conv)
  then have "k \<in> set (filter (active_of ''d9'') (device_keys (db_of claimed)))" by simp
  then have "k \<in> set (device_keys (db_of claimed))" "k_state k = ''active''" by (auto simp: active_of_def)
  then have "k_key_version k \<le> k_key_version k"
    using server_active_key_latest [OF _ _ claim_step, of k k] busy_facts(1,3) by (simp add: anyone_def busy_simps)
  with k show ?thesis by blast
qed

theorem server_ended_session_frozen_witness:
  "denied_session \<in> set (connect_sessions (db_of claimed))"
proof -
  have "denied_session \<in> set (connect_sessions (db_of busy))" by (simp add: busy_simps busy_db_def)
  moreover have "cs_status denied_session \<in> {''denied'', ''closing'', ''closed'', ''expired'', ''failed''}"
    by (simp add: denied_session_def sample_session_def)
  ultimately show ?thesis by (rule server_ended_session_frozen [OF _ _ claim_step]) (simp add: anyone_def)
qed

theorem server_audit_append_only_witness:
  "\<exists>e. audit_events (db_of claimed) = [trail_event 1 ''a'', e] \<and> db_ok (db_of claimed)"
proof -
  have ok: "db_ok (db_of busy)" using busy_facts(1) by (simp add: busy_simps)
  have "reach busy (server_step sample_server anyone) claimed" by (rule claim_step) (simp add: anyone_def)
  from server_audit_append_only [OF ok this] obtain es where
    "db_ok (db_of claimed)" "audit_events (db_of claimed) = audit_events (db_of busy) @ es" by blast
  moreover have "audit_events busy_db = [trail_event 1 ''a'']" by (simp add: busy_db_def)
  ultimately show ?thesis using claimed_facts(3) by (auto simp: busy_simps length_Suc_conv)
qed


end
