(* ===== verification/Browser_Login.thy ===== *)
theory Browser_Login
  imports Login_Safety
begin

text \<open>
  The browser in the login flow (\<open>internal/auth/login_http.go\<close>, \<open>callback.go\<close>): the cookie that carries
  the PKCE verifier from \<open>/auth/login\<close> to the callback, and what it protects. The browser itself is an
  argument with the rules of RFC 6265 the code relies on.
\<close>

section \<open>Cookies\<close>

datatype same_site = SameSiteLaxMode

record cookie =
  ck_name :: string
  ck_value :: string
  ck_path :: string
  ck_expires :: time
  ck_max_age :: int
  ck_http_only :: bool
  ck_secure :: bool
  ck_same_site :: same_site

definition loginFlowCookieTTL :: duration where "loginFlowCookieTTL = 10 * Minute"
definition pkceVerifierCookieName :: string where "pkceVerifierCookieName = ''selkie_pkce_verifier''"

text \<open>\<open>strings.EqualFold\<close>: ASCII is spelled out, folding beyond it is an argument.\<close>

definition EqualFold :: "(string \<Rightarrow> string \<Rightarrow> bool) \<Rightarrow> string \<Rightarrow> string \<Rightarrow> bool" where
  "EqualFold unicode s t = (if is_ascii s \<and> is_ascii t then map ascii_lower s = map ascii_lower t else unicode s t)"

text \<open>The parts of a request it reads: whether it came over TLS, and the header \<open>X-Forwarded-Proto\<close>.\<close>

definition isHTTPS :: "(string \<Rightarrow> string \<Rightarrow> bool) \<Rightarrow> bool \<Rightarrow> string \<Rightarrow> bool" where
  "isHTTPS unicode tls proto = (if tls then True else EqualFold unicode proto ''https'')"

definition setPKCEVerifierCookie :: "time \<Rightarrow> bool \<Rightarrow> string \<Rightarrow> cookie" where
  "setPKCEVerifierCookie now https verifier =
     \<lparr>ck_name = pkceVerifierCookieName, ck_value = verifier, ck_path = ''/'', ck_expires = now + loginFlowCookieTTL,
      ck_max_age = loginFlowCookieTTL div Second, ck_http_only = True, ck_secure = https, ck_same_site = SameSiteLaxMode\<rparr>"

definition clearPKCEVerifierCookie :: "bool \<Rightarrow> cookie" where
  "clearPKCEVerifierCookie https =
     \<lparr>ck_name = pkceVerifierCookieName, ck_value = [], ck_path = ''/'', ck_expires = 0,
      ck_max_age = -1, ck_http_only = True, ck_secure = https, ck_same_site = SameSiteLaxMode\<rparr>"

section \<open>The browser\<close>

text \<open>
  A browser with its jar of cookies for this site: storing a cookie of a response and the value it sends
  under a name. It keeps a cookie whose value has only plain characters until its age is over (a Secure
  one when it reaches the site over TLS), and drops one with a negative age.
\<close>

record 'j agent =
  ag_tls :: bool
  ag_store :: "time \<Rightarrow> cookie \<Rightarrow> 'j \<Rightarrow> 'j"
  ag_send :: "time \<Rightarrow> string \<Rightarrow> 'j \<Rightarrow> string option"

definition cookie_octet :: "char \<Rightarrow> bool" where
  "cookie_octet c \<longleftrightarrow> CHR ''!'' \<le> c \<and> c \<le> CHR ''~'' \<and> c \<notin> {CHR 0x22, CHR '','', CHR '';'', CHR 0x5C}"

definition agent_laws :: "'j agent \<Rightarrow> bool" where
  "agent_laws G \<longleftrightarrow>
     (\<forall>t t' c j. list_all cookie_octet (ck_value c) \<longrightarrow> (ck_secure c \<longrightarrow> ag_tls G) \<longrightarrow> t \<le> t' \<longrightarrow> t' < t + ck_max_age c * Second \<longrightarrow>
        ag_send G t' (ck_name c) (ag_store G t c j) = Some (ck_value c)) \<and>
     (\<forall>t t' c j. ck_max_age c < 0 \<longrightarrow> ag_send G t' (ck_name c) (ag_store G t c j) = None)"

text \<open>\<open>/auth/login\<close> and \<open>/auth/callback\<close> as the browser meets them: the cookie it sends and the one it gets.
  A connection is how a request arrived: over TLS or not, and its \<open>X-Forwarded-Proto\<close>.\<close>

type_synonym conn = "bool \<times> string"

definition browse_login :: "'j agent \<Rightarrow> (string \<Rightarrow> string \<Rightarrow> bool) \<Rightarrow> 'r handler \<Rightarrow> time \<Rightarrow> conn \<Rightarrow> 'j \<Rightarrow> string response \<times> 'j" where
  "browse_login G unicode H now cn j =
     (case ServeLogin H of
        Reply n (verifier, url) \<Rightarrow> (Reply n url, ag_store G now (setPKCEVerifierCookie now (case_prod (isHTTPS unicode) cn) verifier) j)
      | Error n m \<Rightarrow> (Error n m, j) | RateLimited s \<Rightarrow> (RateLimited s, j))"

definition browse_callback :: "'j agent \<Rightarrow> (string \<Rightarrow> string \<Rightarrow> bool) \<Rightarrow> 'r handler \<Rightarrow> uoa \<Rightarrow> env \<Rightarrow> env \<Rightarrow> others \<Rightarrow> http_req \<Rightarrow> conn \<Rightarrow>
    string \<Rightarrow> 'r portal \<times> 'j \<Rightarrow> string response \<times> 'r portal \<times> 'j" where
  "browse_callback G unicode H U E Ec oth r cn code Pj =
     (case Pj of (P, j) \<Rightarrow>
        (case ServeCallback H U E Ec oth r (ag_send G (clock E) pkceVerifierCookieName j) code P of
           (res, P') \<Rightarrow> (res, P', ag_store G (clock E) (clearPKCEVerifierCookie (case_prod (isHTTPS unicode) cn)) j)))"

section \<open>The verifier\<close>

lemma b64_url_octet: "cookie_octet (b64_url v) \<and> plain_char (b64_url v) \<and> b64_url v \<noteq> CHR ''=''"
proof (cases "v < 64")
  case True
  have "list_all (\<lambda>v. cookie_octet (b64_url v) \<and> plain_char (b64_url v) \<and> b64_url v \<noteq> CHR ''='') [0..<64]" by code_simp
  with True show ?thesis by (simp add: list_all_iff)
next
  case False
  then have "b64_url v = CHR ''/''" by (simp add: b64_url_def b64_std_def)
  moreover have "cookie_octet CHR ''/'' \<and> plain_char CHR ''/''" by code_simp
  ultimately show ?thesis by simp
qed

lemma b64_chars: "c \<in> set (b64_encode b64_url bs) \<Longrightarrow> c \<noteq> CHR ''='' \<Longrightarrow> cookie_octet c \<and> plain_char c"
  by (induction b64_url bs rule: b64_encode.induct) (auto simp: b64_url_octet)

lemma agent_sends:
  assumes "agent_laws G" "list_all cookie_octet v" "t \<le> t'" "t' < t + loginFlowCookieTTL" "https \<longrightarrow> ag_tls G"
  shows "ag_send G t' pkceVerifierCookieName (ag_store G t (setPKCEVerifierCookie t https v) j) = Some v"
proof -
  let ?c = "setPKCEVerifierCookie t https v"
  have "ag_send G t' (ck_name ?c) (ag_store G t ?c j) = Some (ck_value ?c)"
    using assms(1) [unfolded agent_laws_def, THEN conjunct1, rule_format, of ?c t t' j] assms(2-)
    by (simp add: setPKCEVerifierCookie_def loginFlowCookieTTL_def Minute_def Second_def)
  then show ?thesis by (simp add: setPKCEVerifierCookie_def)
qed

lemma agent_drops:
  assumes "agent_laws G"
  shows "ag_send G t' pkceVerifierCookieName (ag_store G t (clearPKCEVerifierCookie https) j) = None"
  using assms [unfolded agent_laws_def, THEN conjunct2, rule_format, of "clearPKCEVerifierCookie https" t' t j]
  by (simp add: clearPKCEVerifierCookie_def)

lemma RawURL_word:
  assumes "bs \<noteq> []"
  shows "list_all cookie_octet (RawURL bs) \<and> TrimSpace (RawURL bs) = RawURL bs \<and> RawURL bs \<noteq> []"
proof -
  have c: "cookie_octet c \<and> plain_char c" if "c \<in> set (RawURL bs)" for c
    using that b64_chars by (auto simp: RawURL_def)
  have "b64_url (hd bs div 4) \<in> set (b64_encode b64_url bs)" using assms by (cases "(b64_url, bs)" rule: b64_encode.cases) auto
  then have n: "RawURL bs \<noteq> []" using b64_url_octet by (auto simp: RawURL_def filter_empty_conv)
  then have "hd (RawURL bs) \<in> set (RawURL bs)" "last (RawURL bs) \<in> set (RawURL bs)" by simp_all
  then show ?thesis using c n TrimSpace_plain [OF n] by (auto simp: list_all_iff)
qed

text \<open>
  C12. A login is bound to the browser that started it, and its verifier is used once. The callback of
  a browser that was sent to the provider within the last ten minutes continues with exactly the verifier
  whose S256 challenge was in the address it was sent to. Whatever that callback answers, the verifier is
  gone: a further callback of this browser, with any code, is answered with 400 and changes nothing,
  until the browser starts another login.
\<close>

theorem login_bound_to_browser:
  assumes "agent_laws G" "\<And>bs. rand_bytes (h_crypto H) 0 = Some bs \<Longrightarrow> bs \<noteq> []"
    and "browse_login G unicode H now cn j = (Reply 302 url, j1)" "case_prod (isHTTPS unicode) cn \<longrightarrow> ag_tls G"
    and "now \<le> clock E" "clock E < now + loginFlowCookieTTL"
    and "browse_callback G unicode H U E Ec oth r cn1 code (P, j1) = (res, P1, j2)"
  shows "(\<exists>verifier. verifier \<noteq> [] \<and> url = BuildAuthURL (h_cfg H) (RawURL (str_bytes (sha256 (h_crypto H) verifier))) \<and>
      ServeCallback H U E Ec oth r (Some verifier) code P = (res, P1) \<and> pkceVerifierFromCookie (Some verifier) = verifier) \<and>
    (\<exists>j3. browse_callback G unicode H U E' Ec' oth' r' cn2 code' (P2, j2) = (Error 400 ''missing or expired login session'', P2, j3))"
proof -
  obtain bs where bs: "rand_bytes (h_crypto H) 0 = Some bs"
    using assms(3) by (auto simp: browse_login_def ServeLogin_def newPKCE_def split: option.splits)
  let ?v = "RawURL (take 32 bs)"
  have v: "list_all cookie_octet ?v" "TrimSpace ?v = ?v" "?v \<noteq> []"
    using RawURL_word [of "take 32 bs"] assms(2) [OF bs] by auto
  have l: "url = BuildAuthURL (h_cfg H) (RawURL (str_bytes (sha256 (h_crypto H) ?v)))"
    "j1 = ag_store G now (setPKCEVerifierCookie now (case_prod (isHTTPS unicode) cn) ?v) j"
    using assms(3) bs by (auto simp: browse_login_def ServeLogin_def newPKCE_def Let_def)
  have "ag_send G (clock E) pkceVerifierCookieName j1 = Some ?v"
    unfolding l(2) by (rule agent_sends [OF assms(1) v(1) assms(5,6,4)])
  then have "ServeCallback H U E Ec oth r (Some ?v) code P = (res, P1)"
    "j2 = ag_store G (clock E) (clearPKCEVerifierCookie (case_prod (isHTTPS unicode) cn1)) j1"
    using assms(7) by (auto simp: browse_callback_def split: prod.splits)
  moreover from this(2) have "ag_send G t pkceVerifierCookieName j2 = None" for t
    by (simp add: agent_drops [OF assms(1)])
  ultimately show ?thesis
    using l(1) v by (auto simp: pkceVerifierFromCookie_def browse_callback_def ServeCallback_def)
qed

text \<open>A browser with a jar of values and the times they expire.\<close>

definition jar_agent :: "(string \<Rightarrow> (string \<times> time) option) agent" where
  "jar_agent =
     \<lparr>ag_tls = True,
      ag_store = \<lambda>t c j. j(ck_name c := if ck_max_age c \<le> 0 then None else Some (ck_value c, t + ck_max_age c * Second)),
      ag_send = \<lambda>t k j. (case j k of None \<Rightarrow> None | Some (v, e) \<Rightarrow> if t < e then Some v else None)\<rparr>"

lemma jar_agent_laws: "agent_laws jar_agent"
  by (auto simp: agent_laws_def jar_agent_def Second_def)

definition browser_handler :: "redis_store handler" where
  "browser_handler = sso_handler\<lparr>h_crypto := (token_for sample_claims)\<lparr>rand_bytes := \<lambda>n. Some (replicate 32 7)\<rparr>\<rparr>"

theorem login_bound_to_browser_witness:
  "\<exists>url j1 res P1 j2 j3. browse_login jar_agent (\<lambda>s t. False) browser_handler 1 (True, []) Map.empty = (Reply 302 url, j1) \<and>
     browse_callback jar_agent (\<lambda>s t. False) browser_handler sample_uoa (calm 9 [''s1'', ''u1'']) (calm 9 []) (\<lambda>n s. s) sample_req
       (False, ''HTTPS'') ''code'' (sample_portal empty_db, j1) = (res, P1, j2) \<and>
     browse_callback jar_agent (\<lambda>s t. False) browser_handler sample_uoa (calm 10 []) (calm 10 []) (\<lambda>n s. s) sample_req
       (True, []) ''code'' (P1, j2) = (Error 400 ''missing or expired login session'', P1, j3)"
proof -
  let ?f = "\<lambda>s t. False"
  have l: "map_response (\<lambda>x. ()) (fst (browse_login jar_agent ?f browser_handler 1 (True, []) Map.empty)) = Reply 302 ()" by code_simp
  then obtain url j1 where l: "browse_login jar_agent ?f browser_handler 1 (True, []) Map.empty = (Reply 302 url, j1)"
    by (cases "browse_login jar_agent ?f browser_handler 1 (True, []) Map.empty"; cases "fst (browse_login jar_agent ?f browser_handler 1 (True, []) Map.empty)") auto
  obtain res P1 j2 where c: "browse_callback jar_agent ?f browser_handler sample_uoa (calm 9 [''s1'', ''u1'']) (calm 9 []) (\<lambda>n s. s) sample_req
       (False, ''HTTPS'') ''code'' (sample_portal empty_db, j1) = (res, P1, j2)" by (metis prod.exhaust)
  show ?thesis
    using login_bound_to_browser [OF jar_agent_laws _ l _ _ _ c, of "calm 10 []" "calm 10 []" "\<lambda>n s. s" sample_req "(True, [])" "''code''" P1] l c
    by (simp add: browser_handler_def jar_agent_def calm_def loginFlowCookieTTL_def Minute_def Second_def)
qed

end
