(* ===== verification/Home_Gateway.thy ===== *)
theory Home_Gateway
  imports Direct
begin

text \<open>
  The port mapping of a home machine (\<open>internal/homepeer/mapping.go\<close>): finding a router on the local
  network and leasing one UDP port from it. The router is an argument; its state may change between
  calls.
\<close>

section \<open>Routers and URLs\<close>

definition mappingDescription :: string where "mappingDescription = ''Selkie encrypted direct home''"
definition mappingLease :: nat where "mappingLease = 1200"

text \<open>
  The four calls of a WANIPConnection service. A failed lookup carries the code of the SOAP fault,
  if it is one.
\<close>

record 'g gateway =
  GetSpecificPortMappingEntry :: "'g \<Rightarrow> int \<Rightarrow> int option + int \<times> string \<times> string"
  GetExternalIPAddress :: "'g \<Rightarrow> string option"
  AddPortMapping :: "'g \<Rightarrow> int \<Rightarrow> string \<Rightarrow> string \<Rightarrow> nat \<Rightarrow> 'g option"
  DeletePortMapping :: "'g \<Rightarrow> int \<Rightarrow> 'g option"

record UDPMapping =
  mp_Endpoint :: string
  mp_port :: int
  mp_local :: string

record lan_url =
  ur_scheme :: string
  ur_hostname :: string
  ur_user :: bool

text \<open>
  \<open>localURL\<close>: plain HTTP to a private address in the network of the interface that has the address
  \<open>local\<close>. The interfaces list their addresses with prefix lengths.
\<close>

definition localURL :: "string list list option \<Rightarrow> lan_url option \<Rightarrow> string \<Rightarrow> bool" where
  "localURL interfaces url own =
     (case url of None \<Rightarrow> False
      | Some u \<Rightarrow>
          if ur_scheme u \<noteq> ''http'' \<or> ur_user u then False
          else (case ParseAddr (ur_hostname u) of None \<Rightarrow> False
            | Some ip \<Rightarrow>
                if \<not> IsPrivate ip then False
                else (case interfaces of None \<Rightarrow> False
                  | Some nets \<Rightarrow> list_ex (list_ex (\<lambda>a. case ParsePrefix a of None \<Rightarrow> False
                      | Some p \<Rightarrow> addr_string (p_addr p) = own \<and> Prefix_Contains p ip)) nets)))"

section \<open>The mapping\<close>

definition carrier_nat :: prefix where
  "carrier_nat = \<lparr>p_addr = IPv4 0x64400000, p_bits = 10\<rparr>"

text \<open>Whether the port is free or already this machine's; fault 714 says that there is no entry.\<close>

definition port_available :: "'g gateway \<Rightarrow> UDPMapping \<Rightarrow> 'g \<Rightarrow> bool" where
  "port_available G m g = (case GetSpecificPortMappingEntry G g (mp_port m) of
     Inr (internal, client, description) \<Rightarrow>
       \<not> (internal \<noteq> mp_port m \<or> client \<noteq> mp_local m \<or> description \<noteq> mappingDescription)
   | Inl fault \<Rightarrow> fault = Some 714)"

definition mapping_create :: "'g gateway \<Rightarrow> UDPMapping \<Rightarrow> 'g \<Rightarrow> bool \<times> UDPMapping \<times> 'g" where
  "mapping_create G m g =
     (if \<not> port_available G m g then (False, m, g)
      else (case GetExternalIPAddress G g of None \<Rightarrow> (False, m, g)
        | Some external \<Rightarrow>
            (case ParseAddr external of None \<Rightarrow> (False, m, g)
             | Some ip \<Rightarrow>
                 if \<not> Is4 ip \<or> \<not> IsGlobalUnicast ip \<or> IsPrivate ip \<or> Prefix_Contains carrier_nat ip then (False, m, g)
                 else (case AddPortMapping G g (mp_port m) (mp_local m) mappingDescription mappingLease of
                         None \<Rightarrow> (False, m, g)
                       | Some g' \<Rightarrow> (True, m\<lparr>mp_Endpoint := JoinHostPort external (Itoa (mp_port m))\<rparr>, g')))))"

text \<open>
  \<open>Maintain\<close>: one round every ten minutes, with the router at that time; it ends without error when
  the context is done.
\<close>

fun Maintain :: "'g gateway \<Rightarrow> UDPMapping \<Rightarrow> 'g list \<Rightarrow> bool" where
  "Maintain G m [] = True"
| "Maintain G m (g # gs) =
     (case mapping_create G m g of
        (False, _, _) \<Rightarrow> False
      | (True, m', _) \<Rightarrow> if mp_Endpoint m \<noteq> mp_Endpoint m' then False else Maintain G m' gs)"

text \<open>\<open>Close\<close> deletes the mapping only when it is still this machine's; a failed deletion leaves the lease.\<close>

definition mapping_Close :: "'g gateway \<Rightarrow> UDPMapping \<Rightarrow> 'g \<Rightarrow> 'g" where
  "mapping_Close G m g = (case GetSpecificPortMappingEntry G g (mp_port m) of
     Inl fault \<Rightarrow> g
   | Inr (internal, client, description) \<Rightarrow>
       if internal = mp_port m \<and> client = mp_local m \<and> description = mappingDescription
       then (case DeletePortMapping G g (mp_port m) of None \<Rightarrow> g | Some g' \<Rightarrow> g') else g)"

section \<open>Discovery\<close>

text \<open>
  The services a description lists: their control URL and the router behind it. \<open>mapGateway\<close> tries
  those on the local network whose host is the one of the description.
\<close>

fun map_services :: "'g gateway \<Rightarrow> string list list option \<Rightarrow> lan_url \<Rightarrow> string \<Rightarrow> int \<Rightarrow> (lan_url \<times> 'g) list \<Rightarrow>
    (UDPMapping \<times> 'g) option" where
  "map_services G ifs location own port [] = None"
| "map_services G ifs location own port ((u, g) # rest) =
     (if \<not> localURL ifs (Some u) own \<or> ur_hostname u \<noteq> ur_hostname location then map_services G ifs location own port rest
      else (case mapping_create G \<lparr>mp_Endpoint = [], mp_port = port, mp_local = own\<rparr> g of
              (True, m, g') \<Rightarrow> Some (m, g')
            | (False, _, _) \<Rightarrow> map_services G ifs location own port rest))"

definition mapGateway :: "'g gateway \<Rightarrow> (lan_url \<Rightarrow> (lan_url \<times> 'g) list option) \<Rightarrow> string list list option \<Rightarrow> lan_url \<Rightarrow>
    string \<Rightarrow> int \<Rightarrow> (UDPMapping \<times> 'g) option" where
  "mapGateway G describe ifs location own port =
     (case describe location of None \<Rightarrow> None | Some cs \<Rightarrow> map_services G ifs location own port cs)"

fun map_responses :: "'g gateway \<Rightarrow> (lan_url \<Rightarrow> (lan_url \<times> 'g) list option) \<Rightarrow> string list list option \<Rightarrow> string \<Rightarrow> int \<Rightarrow>
    lan_url option list \<Rightarrow> (UDPMapping \<times> 'g) option" where
  "map_responses G describe ifs own port [] = None"
| "map_responses G describe ifs own port (l # rest) =
     (case l of None \<Rightarrow> map_responses G describe ifs own port rest
      | Some location \<Rightarrow>
          if \<not> localURL ifs (Some location) own then map_responses G describe ifs own port rest
          else (case mapGateway G describe ifs location own port of
                  Some r \<Rightarrow> Some r | None \<Rightarrow> map_responses G describe ifs own port rest))"

text \<open>
  \<open>MapUDP\<close>: \<open>probe\<close> is the address of this machine towards the internet, \<open>responses\<close> the locations the
  routers answered with, parsed.
\<close>

definition MapUDP :: "'g gateway \<Rightarrow> string option \<Rightarrow> (string \<Rightarrow> lan_url option list option) \<Rightarrow>
    (lan_url \<Rightarrow> (lan_url \<times> 'g) list option) \<Rightarrow> string list list option \<Rightarrow> int \<Rightarrow> (UDPMapping \<times> 'g) option" where
  "MapUDP G probe search describe ifs port =
     (if port < 1 \<or> port > 65535 then None
      else (case probe of None \<Rightarrow> None
        | Some own \<Rightarrow> (case search own of None \<Rightarrow> None | Some responses \<Rightarrow> map_responses G describe ifs own port responses)))"

section \<open>What a mapping guarantees\<close>

lemma v4_loop_chars: "v4_loop fs v n s = Some r \<Longrightarrow> \<forall>c \<in> set s. is_digit c \<or> c = CHR ''.''"
  by (induction fs v n s rule: v4_loop.induct) (auto simp: Let_def split: if_splits)

lemma ParseAddr_v4_chars: "ParseAddr s = Some (IPv4 w) \<Longrightarrow> \<forall>c \<in> set s. is_digit c \<or> c = CHR ''.''"
  by (auto simp: ParseAddr_def parse_v4_def parse_v6_def parse_v4_fields_def Let_def dest: v4_loop_chars
      split: list.splits if_splits option.splits prod.splits)

definition public_endpoint :: "string \<Rightarrow> int \<Rightarrow> bool" where
  "public_endpoint endpoint port \<longleftrightarrow> ValidateEndpoint endpoint \<and>
     (\<exists>host w. SplitHostPort endpoint = Some (host, Itoa port) \<and> ParseAddr host = Some (IPv4 w) \<and>
        IsGlobalUnicast (IPv4 w) \<and> \<not> IsPrivate (IPv4 w) \<and> \<not> Prefix_Contains carrier_nat (IPv4 w))"

lemma Itoa_plain: "c \<in> {CHR '':'', CHR ''['', CHR '']''} \<Longrightarrow> 0 \<le> n \<Longrightarrow> c \<notin> set (Itoa n)"
  using dec_nat_digits [of "nat n"] by (auto simp: Itoa_def list_all_iff is_digit_code)

lemma global_not_loopback: "IsGlobalUnicast a \<Longrightarrow> \<not> IsLoopback a"
  by (simp add: IsGlobalUnicast_def)

lemma mapping_create_effect:
  assumes "mapping_create G m g = (True, m', g')" "1 \<le> mp_port m" "mp_port m \<le> 65535"
  shows "public_endpoint (mp_Endpoint m') (mp_port m) \<and> port_available G m g \<and> mp_port m' = mp_port m \<and> mp_local m' = mp_local m \<and>
    AddPortMapping G g (mp_port m) (mp_local m) mappingDescription mappingLease = Some g'"
proof -
  from assms(1) obtain external ip where e: "ParseAddr external = Some ip" "Is4 ip" "IsGlobalUnicast ip" "\<not> IsPrivate ip"
    "\<not> Prefix_Contains carrier_nat ip" "port_available G m g" "AddPortMapping G g (mp_port m) (mp_local m) mappingDescription mappingLease = Some g'"
    "m' = m\<lparr>mp_Endpoint := JoinHostPort external (Itoa (mp_port m))\<rparr>"
    by (auto simp: mapping_create_def split: if_splits option.splits)
  then obtain w where w: "ip = IPv4 w" by (cases ip) auto
  have "CHR ''['' \<notin> set external" "CHR '']'' \<notin> set external"
    using ParseAddr_v4_chars [of external w] e(1) w by (auto simp: is_digit_code)
  then have s: "SplitHostPort (JoinHostPort external (Itoa (mp_port m))) = Some (external, Itoa (mp_port m))"
    using Itoa_plain [of _ "mp_port m"] assms(2) by (intro SplitHostPort_JoinHostPort) auto
  moreover have "Atoi (Itoa (mp_port m)) = Some (mp_port m)" by (rule Atoi_Itoa) (use assms in \<open>simp add: int64_def\<close>)
  ultimately have "ValidateEndpoint (JoinHostPort external (Itoa (mp_port m)))"
    using e w assms global_not_loopback [of ip] by (simp add: ValidateEndpoint_def)
  with s e w show ?thesis by (auto simp: public_endpoint_def)
qed

lemma map_services_effect:
  assumes "map_services G ifs location own port cs = Some (m, g')" "1 \<le> port" "port \<le> 65535"
  shows "public_endpoint (mp_Endpoint m) port \<and> mp_port m = port \<and> mp_local m = own \<and>
    (\<exists>u g. (u, g) \<in> set cs \<and> localURL ifs (Some u) own \<and> ur_hostname u = ur_hostname location \<and> port_available G m g \<and>
       AddPortMapping G g port own mappingDescription mappingLease = Some g')"
  using assms
proof (induction cs)
  case (Cons e rest)
  obtain u g where e: "e = (u, g)" by force
  obtain ok n g1 where c: "mapping_create G \<lparr>mp_Endpoint = [], mp_port = port, mp_local = own\<rparr> g = (ok, n, g1)" by (metis prod.collapse)
  show ?case
  proof (cases "localURL ifs (Some u) own \<and> ur_hostname u = ur_hostname location \<and> ok")
    case True
    then have r: "m = n" "g1 = g'" using Cons.prems(1) c e by auto
    from mapping_create_effect [of G _ g m g'] c True r Cons.prems(2,3)
    have k: "public_endpoint (mp_Endpoint m) port" "mp_port m = port" "mp_local m = own"
      "port_available G \<lparr>mp_Endpoint = [], mp_port = port, mp_local = own\<rparr> g"
      "AddPortMapping G g port own mappingDescription mappingLease = Some g'" by fastforce+
    then have "port_available G m g" by (auto simp: port_available_def split: sum.splits)
    with k True e show ?thesis by auto
  next
    case False
    then have "map_services G ifs location own port rest = Some (m, g')"
      using Cons.prems(1) c e by (auto split: if_splits bool.splits)
    from Cons.IH [OF this Cons.prems(2,3)] show ?thesis by auto
  qed
qed simp

text \<open>
  A mapped port is one the control plane accepts and nobody else's: when \<open>MapUDP\<close> succeeds, the
  endpoint it reports passes \<open>ValidateEndpoint\<close>, names a public IPv4 address outside the private and
  carrier-grade ranges and the requested port, and the router that was asked is on the local
  network and had that port free or already leased to this machine.
\<close>

theorem mapped_endpoint_registers:
  assumes "MapUDP G probe search describe ifs port = Some (m, g')"
  shows "1 \<le> port \<and> port \<le> 65535 \<and> ValidateEndpoint (mp_Endpoint m) \<and>
    (\<exists>host w. SplitHostPort (mp_Endpoint m) = Some (host, Itoa port) \<and> ParseAddr host = Some (IPv4 w) \<and>
       IsGlobalUnicast (IPv4 w) \<and> \<not> IsPrivate (IPv4 w) \<and> \<not> Prefix_Contains carrier_nat (IPv4 w)) \<and>
    (\<exists>own u g. probe = Some own \<and> mp_local m = own \<and> localURL ifs (Some u) own \<and> port_available G m g \<and>
       AddPortMapping G g port own mappingDescription mappingLease = Some g')"
proof -
  from assms obtain own rs where o: "probe = Some own" "1 \<le> port" "port \<le> 65535" "map_responses G describe ifs own port rs = Some (m, g')"
    by (auto simp: MapUDP_def split: if_splits option.splits)
  from o(4) have "\<exists>location cs. map_services G ifs location own port cs = Some (m, g')"
  proof (induction rs)
    case (Cons l rs)
    then show ?case by (cases l) (auto simp: mapGateway_def split: if_splits option.splits)
  qed simp
  then obtain location cs where "map_services G ifs location own port cs = Some (m, g')" by blast
  from map_services_effect [OF this o(2,3)] o show ?thesis by (auto simp: public_endpoint_def)
qed

text \<open>
  A port somebody else has mapped stays theirs: neither creating nor closing a mapping changes a
  router whose entry for the port names another machine or another application.
\<close>

theorem foreign_mapping_untouched:
  assumes "GetSpecificPortMappingEntry G g (mp_port m) = Inr (internal, client, description)"
    and "client \<noteq> mp_local m \<or> description \<noteq> mappingDescription"
  shows "mapping_create G m g = (False, m, g) \<and> mapping_Close G m g = g \<and> (gs = g # rest \<longrightarrow> \<not> Maintain G m gs)"
  using assms by (auto simp: mapping_create_def port_available_def mapping_Close_def)

section \<open>Examples\<close>

text \<open>A router with a table of mapped ports and a public address.\<close>

definition plain_router :: "string \<Rightarrow> (int \<times> int \<times> string \<times> string) list gateway" where
  "plain_router public = \<lparr>
     GetSpecificPortMappingEntry = (\<lambda>g p. case map_of g p of None \<Rightarrow> Inl (Some 714) | Some e \<Rightarrow> Inr e),
     GetExternalIPAddress = (\<lambda>g. Some public),
     AddPortMapping = (\<lambda>g p own descr lease. Some ((p, p, own, descr) # g)),
     DeletePortMapping = (\<lambda>g p. Some (filter (\<lambda>e. fst e \<noteq> p) g))\<rparr>"

definition router_url :: lan_url where
  "router_url = \<lparr>ur_scheme = ''http'', ur_hostname = ''192.168.1.1'', ur_user = False\<rparr>"

theorem mapped_endpoint_registers_witness:
  "\<exists>m g. MapUDP (plain_router ''198.51.100.7'') (Some ''192.168.1.5'') (\<lambda>_. Some [Some router_url]) (\<lambda>_. Some [(router_url, [])])
      (Some [[''192.168.1.5/24'']]) 51821 = Some (m, g) \<and> mp_Endpoint m = ''198.51.100.7:51821'' \<and> ValidateEndpoint (mp_Endpoint m)"
proof -
  have "map_option (mp_Endpoint \<circ> fst) (MapUDP (plain_router ''198.51.100.7'') (Some ''192.168.1.5'') (\<lambda>_. Some [Some router_url])
      (\<lambda>_. Some [(router_url, [])]) (Some [[''192.168.1.5/24'']]) 51821) = Some ''198.51.100.7:51821''" by code_simp
  then obtain m g where r: "MapUDP (plain_router ''198.51.100.7'') (Some ''192.168.1.5'') (\<lambda>_. Some [Some router_url])
      (\<lambda>_. Some [(router_url, [])]) (Some [[''192.168.1.5/24'']]) 51821 = Some (m, g)" "mp_Endpoint m = ''198.51.100.7:51821''" by auto
  from mapped_endpoint_registers [OF r(1)] r show ?thesis by blast
qed

theorem foreign_mapping_untouched_witness:
  "mapping_create (plain_router ''198.51.100.7'') \<lparr>mp_Endpoint = [], mp_port = 5, mp_local = ''192.168.1.5''\<rparr> [(5, 5, ''192.168.1.9'', ''game'')] =
     (False, \<lparr>mp_Endpoint = [], mp_port = 5, mp_local = ''192.168.1.5''\<rparr>, [(5, 5, ''192.168.1.9'', ''game'')])"
  using foreign_mapping_untouched [of "plain_router ''198.51.100.7''" "[(5, 5, ''192.168.1.9'', ''game'')]"
      "\<lparr>mp_Endpoint = [], mp_port = 5, mp_local = ''192.168.1.5''\<rparr>" 5 "''192.168.1.9''" "''game''"]
  by (simp add: plain_router_def)

end
