(* ===== verification/Home_Peer.thy ===== *)
theory Home_Peer
  imports Direct "HOL-Library.Multiset"
begin

text \<open>
  The home machine (\<open>internal/homepeer/peer.go\<close>): it terminates WireGuard in user space and serves
  one TCP port to the peers of the last snapshot. The WireGuard device is an argument with the law
  its configuration protocol documents; Go visits a map in any order, so that order is an argument
  too.
\<close>

section \<open>Configuring the device\<close>

text \<open>The sections of a configuration text, and the text.\<close>

datatype ipc_section = Upsert string string string | Remove string

fun ipc_text :: "ipc_section \<Rightarrow> string" where
  "ipc_text (Upsert key ip endpoint) =
     ''public_key='' @ key @ nl @ ''replace_allowed_ips=true'' @ nl @ ''allowed_ip='' @ ip @ ''/32'' @ nl @
     (if endpoint \<noteq> [] then ''endpoint='' @ endpoint @ nl @ ''persistent_keepalive_interval=25'' @ nl else [])"
| "ipc_text (Remove key) = ''public_key='' @ key @ nl @ ''remove=true'' @ nl"

definition keyHex :: "string \<Rightarrow> string option" where
  "keyHex key = (case DecodeString key of None \<Rightarrow> None
     | Some raw \<Rightarrow> if length raw \<noteq> 32 then None else Some (hex_bytes (bytes_string raw)))"

text \<open>A map from overlay addresses to peers, as an association list.\<close>

type_synonym peer_map = "(string \<times> Peer) list"

definition livePeers :: "Peer list \<Rightarrow> time \<Rightarrow> peer_map" where
  "livePeers peers now = fold (\<lambda>p m. if (case pe_ValidUntil p of None \<Rightarrow> True | Some t \<Rightarrow> now < t)
     then AList.update (pe_OverlayIP p) p m else m) peers []"

definition unchanged_peer :: "peer_map \<Rightarrow> string \<times> Peer \<Rightarrow> bool" where
  "unchanged_peer previous e = (case e of (ip, p) \<Rightarrow>
     (case map_of previous ip of None \<Rightarrow> False
      | Some before \<Rightarrow> pe_PublicKey before = pe_PublicKey p \<and> pe_Endpoint before = pe_Endpoint p))"

definition kept_peer :: "peer_map \<Rightarrow> string \<times> Peer \<Rightarrow> bool" where
  "kept_peer nxt e = (case e of (ip, p) \<Rightarrow>
     (case map_of nxt ip of None \<Rightarrow> False | Some current \<Rightarrow> pe_PublicKey current = pe_PublicKey p))"

definition upsert_of :: "string \<times> Peer \<Rightarrow> ipc_section option" where
  "upsert_of e = (case e of (ip, p) \<Rightarrow> map_option (\<lambda>key. Upsert key ip (pe_Endpoint p)) (keyHex (pe_PublicKey p)))"

definition remove_of :: "string \<times> Peer \<Rightarrow> ipc_section option" where
  "remove_of e = (case e of (ip, p) \<Rightarrow> map_option Remove (keyHex (pe_PublicKey p)))"

text \<open>The changes, with the maps listed in the order they are visited.\<close>

definition peer_sections :: "peer_map \<Rightarrow> peer_map \<Rightarrow> ipc_section list option" where
  "peer_sections previous nxt =
     (case (those (map upsert_of (filter (\<lambda>e. \<not> unchanged_peer previous e) nxt)),
            those (map remove_of (filter (\<lambda>e. \<not> kept_peer nxt e) previous))) of
        (Some us, Some rs) \<Rightarrow> Some (us @ rs) | _ \<Rightarrow> None)"

definition peerChanges :: "peer_map \<Rightarrow> peer_map \<Rightarrow> string option" where
  "peerChanges previous nxt = map_option (\<lambda>secs. concat (map ipc_text secs)) (peer_sections previous nxt)"

section \<open>The peer\<close>

text \<open>The user-space WireGuard device: setting its configuration, and the routes of its peers.\<close>

record 'd wg_device =
  IpcSet :: "string \<Rightarrow> 'd \<Rightarrow> 'd option"
  dev_peers :: "'d \<Rightarrow> string \<Rightarrow> string set option"

text \<open>
  \<open>hp_clients\<close>: the accepted connections with their remote address and whether they are open.
  \<open>hp_timer\<close>: when the expiry timer fires, with the generation it was armed for. \<open>hp_up\<close>: the device
  has not been closed.
\<close>

record 'd home =
  hp_address :: addr
  hp_clients :: "(nat \<times> string \<times> bool) list"
  hp_active :: peer_map
  hp_timer :: "(nat \<times> time) option"
  hp_generation :: nat
  hp_dev :: 'd
  hp_up :: bool

definition close_clients :: "(string \<Rightarrow> bool) \<Rightarrow> (nat \<times> string \<times> bool) list \<Rightarrow> (nat \<times> string \<times> bool) list" where
  "close_clients p cs = map (\<lambda>(i, ip, on). (i, ip, on \<and> \<not> p ip)) cs"

definition closeRetiredClients :: "peer_map \<Rightarrow> 'd home \<Rightarrow> 'd home" where
  "closeRetiredClients nxt h = h\<lparr>hp_clients := close_clients (\<lambda>ip.
     (case map_of nxt ip of None \<Rightarrow> True
      | Some after \<Rightarrow> (case map_of (hp_active h) ip of None \<Rightarrow> False
                     | Some before \<Rightarrow> pe_PublicKey before \<noteq> pe_PublicKey after))) (hp_clients h)\<rparr>"

definition earliest :: "peer_map \<Rightarrow> time option" where
  "earliest m = sql_min (List.map_filter (\<lambda>(ip, p). pe_ValidUntil p) m)"

definition scheduleExpiry :: "'d home \<Rightarrow> 'd home" where
  "scheduleExpiry h = (let g = hp_generation h + 1 in
     h\<lparr>hp_generation := g, hp_timer := map_option (\<lambda>t. (g, t)) (earliest (hp_active h))\<rparr>)"

definition applyLocked :: "'d wg_device \<Rightarrow> (peer_map \<Rightarrow> peer_map) \<Rightarrow> time \<Rightarrow> Peer list \<Rightarrow> 'd home \<Rightarrow> bool \<times> 'd home" where
  "applyLocked D order now peers h =
     (let nxt = livePeers peers now in
      case peerChanges (order (hp_active h)) (order nxt) of None \<Rightarrow> (False, h)
      | Some config \<Rightarrow>
          let h1 = closeRetiredClients nxt h in
          (case (if config = [] then Some (hp_dev h1) else IpcSet D config (hp_dev h1)) of
             None \<Rightarrow> (False, h1)
           | Some d \<Rightarrow> (True, scheduleExpiry (h1\<lparr>hp_dev := d, hp_active := nxt\<rparr>))))"

definition home_Apply :: "'d wg_device \<Rightarrow> (peer_map \<Rightarrow> peer_map) \<Rightarrow> time \<Rightarrow> Snapshot \<Rightarrow> 'd home \<Rightarrow> bool \<times> 'd home" where
  "home_Apply D order now s h =
     (if sn_OverlayIP s \<noteq> addr_string (hp_address h) then (False, h)
      else if Render (sn_OverlayIP s) (sn_Peers s) [] = None then (False, h)
      else applyLocked D order now (sn_Peers s) h)"

text \<open>The timer fires for the generation it was armed for; when it cannot apply, it shuts the peer down.\<close>

definition expiry_fires :: "'d wg_device \<Rightarrow> (peer_map \<Rightarrow> peer_map) \<Rightarrow> time \<Rightarrow> nat \<Rightarrow> 'd home \<Rightarrow> 'd home" where
  "expiry_fires D order now generation h =
     (if hp_generation h \<noteq> generation then h
      else (case applyLocked D order now (map snd (order (hp_active h))) h of
              (True, h') \<Rightarrow> h'
            | (False, h') \<Rightarrow> h'\<lparr>hp_active := [], hp_clients := close_clients (\<lambda>_. True) (hp_clients h'), hp_up := False\<rparr>))"

definition home_Close :: "'d home \<Rightarrow> 'd home" where
  "home_Close h = h\<lparr>hp_generation := hp_generation h + 1, hp_timer := None,
     hp_clients := close_clients (\<lambda>_. True) (hp_clients h), hp_up := False\<rparr>"

section \<open>Serving\<close>

text \<open>\<open>Serve\<close> refuses a target that is not on the loopback interface.\<close>

definition servable :: "int \<Rightarrow> string \<Rightarrow> bool" where
  "servable port target = (case SplitHostPort target of None \<Rightarrow> False
     | Some (host, p) \<Rightarrow> (case ParseAddr host of None \<Rightarrow> False | Some a \<Rightarrow> IsLoopback a \<and> 1 \<le> port \<and> port \<le> 65535))"

definition admitted :: "time \<Rightarrow> string \<Rightarrow> 'd home \<Rightarrow> bool" where
  "admitted now ip h = (case map_of (hp_active h) ip of None \<Rightarrow> False
     | Some p \<Rightarrow> (case pe_ValidUntil p of None \<Rightarrow> True | Some t \<Rightarrow> now < t))"

text \<open>One accepted connection \<open>i\<close>; the answer says whether it is forwarded.\<close>

definition accept_client :: "time \<Rightarrow> nat \<Rightarrow> string \<Rightarrow> 'd home \<Rightarrow> bool \<times> 'd home" where
  "accept_client now i remote h =
     (case SplitHostPort remote of None \<Rightarrow> (False, h)
      | Some (ip, port) \<Rightarrow>
          if \<not> admitted now ip h then (False, h)
          else (True, h\<lparr>hp_clients := (i, ip, True) # filter (\<lambda>c. fst c \<noteq> i) (hp_clients h)\<rparr>))"

text \<open>\<open>forward\<close> closes the connection and forgets it when either side ends.\<close>

definition forward_ends :: "nat \<Rightarrow> 'd home \<Rightarrow> 'd home" where
  "forward_ends i h = h\<lparr>hp_clients := filter (\<lambda>c. fst c \<noteq> i) (hp_clients h)\<rparr>"

text \<open>\<open>New\<close>: \<open>tun\<close> and \<open>up\<close> say whether the interface could be created and brought up.\<close>

definition home_New :: "'d wg_device \<Rightarrow> bool \<Rightarrow> bool \<Rightarrow> string \<Rightarrow> string \<Rightarrow> int \<Rightarrow> 'd \<Rightarrow> 'd home option" where
  "home_New D tun up priv ip udpPort d =
     (case ParseAddr ip of None \<Rightarrow> None
      | Some a \<Rightarrow>
          if \<not> Is4 a \<or> udpPort < 0 \<or> udpPort > 65535 then None
          else (case keyHex priv of None \<Rightarrow> None
            | Some key \<Rightarrow>
                if \<not> tun then None
                else (case IpcSet D (''private_key='' @ key @ nl @ ''listen_port='' @ Itoa udpPort @ nl) d of
                        None \<Rightarrow> None
                      | Some d' \<Rightarrow>
                          if \<not> up then None
                          else Some \<lparr>hp_address = a, hp_clients = [], hp_active = [], hp_timer = None,
                            hp_generation = 0, hp_dev = d', hp_up = True\<rparr>)))"

section \<open>Runs\<close>

text \<open>
  What happens to a peer, with the time of the event. Events are atomic: the code holds the lock of
  the peer. A step never goes back in time. A timer that was replaced may still run, for its old
  generation; connections come in while the device is up.
\<close>

inductive home_step :: "'d wg_device \<Rightarrow> time \<times> 'd home \<Rightarrow> time \<times> 'd home \<Rightarrow> bool" for D where
  snapshot_in: "t \<le> now \<Longrightarrow> \<forall>m. mset (order m) = mset m \<Longrightarrow> home_Apply D order now s h = (ok, h') \<Longrightarrow>
    home_step D (t, h) (now, h')"
| timer: "t \<le> now \<Longrightarrow> \<forall>m. mset (order m) = mset m \<Longrightarrow> hp_timer h = Some (g, due) \<Longrightarrow> due \<le> now \<Longrightarrow>
    home_step D (t, h) (now, expiry_fires D order now g (h\<lparr>hp_timer := None\<rparr>))"
| stale_timer: "t \<le> now \<Longrightarrow> g \<noteq> hp_generation h \<Longrightarrow> home_step D (t, h) (now, expiry_fires D order now g h)"
| connect: "t \<le> now \<Longrightarrow> hp_up h \<Longrightarrow> accept_client now i remote h = (ok, h') \<Longrightarrow> home_step D (t, h) (now, h')"
| disconnect: "t \<le> now \<Longrightarrow> home_step D (t, h) (now, forward_ends i h)"
| close: "t \<le> now \<Longrightarrow> home_step D (t, h) (now, home_Close h)"

inductive_cases home_stepE: "home_step D (t, h) (now, h')"

end
