(* ===== verification/Home_Safety.thy ===== *)
theory Home_Safety
  imports Home_Peer
begin

text \<open>
  What the home machine guarantees: a connection stays open only while the peer behind it is listed
  and its lease runs, and the device follows the snapshots, unless a key moves between addresses.
\<close>

section \<open>Applying a snapshot\<close>

definition unexpired :: "time \<Rightarrow> Peer \<Rightarrow> bool" where
  "unexpired now p = (case pe_ValidUntil p of None \<Rightarrow> True | Some t \<Rightarrow> now < t)"

lemma livePeers_snoc:
  "livePeers (ps @ [p]) now = (if unexpired now p then AList.update (pe_OverlayIP p) p (livePeers ps now) else livePeers ps now)"
  by (simp add: livePeers_def unexpired_def)

lemma alist_update_in: "e \<in> set (AList.update k v al) \<Longrightarrow> e = (k, v) \<or> e \<in> set al"
  by (induction al) (auto split: if_splits)

lemma livePeers_sound:
  "distinct (map fst (livePeers ps now)) \<and>
   (\<forall>(ip, p) \<in> set (livePeers ps now). p \<in> set ps \<and> ip = pe_OverlayIP p \<and> unexpired now p)"
proof (induction ps rule: rev_induct)
  case Nil
  then show ?case by (simp add: livePeers_def)
next
  case (snoc p ps)
  then show ?case by (auto simp: livePeers_snoc distinct_update dest!: alist_update_in)
qed

lemmas livePeers_distinct = livePeers_sound [THEN conjunct1]

lemma livePeers_in: "map_of (livePeers ps now) ip = Some p \<Longrightarrow> p \<in> set ps \<and> ip = pe_OverlayIP p \<and> unexpired now p"
  using livePeers_sound [of ps now] by (auto dest!: map_of_SomeD)

definition open_at :: "'d home \<Rightarrow> string \<Rightarrow> bool" where
  "open_at h ip \<longleftrightarrow> (\<exists>i. (i, ip, True) \<in> set (hp_clients h))"

lemma open_close: "(\<exists>i. (i, ip, True) \<in> set (close_clients p cs)) \<longleftrightarrow> (\<exists>i. (i, ip, True) \<in> set cs) \<and> \<not> p ip"
  by (force simp: close_clients_def)

definition retained :: "peer_map \<Rightarrow> 'd home \<Rightarrow> string \<Rightarrow> bool" where
  "retained nxt h ip \<longleftrightarrow> (\<exists>p. map_of nxt ip = Some p \<and>
     (\<forall>q. map_of (hp_active h) ip = Some q \<longrightarrow> pe_PublicKey q = pe_PublicKey p))"

lemma open_retired: "open_at (closeRetiredClients nxt h) ip \<longleftrightarrow> open_at h ip \<and> retained nxt h ip"
  by (simp add: open_at_def closeRetiredClients_def open_close retained_def split: option.splits)

lemma closeRetired_fields [simp]:
  "hp_active (closeRetiredClients nxt h) = hp_active h" "hp_timer (closeRetiredClients nxt h) = hp_timer h"
  "hp_generation (closeRetiredClients nxt h) = hp_generation h" "hp_up (closeRetiredClients nxt h) = hp_up h"
  "hp_address (closeRetiredClients nxt h) = hp_address h" "hp_dev (closeRetiredClients nxt h) = hp_dev h"
  by (simp_all add: closeRetiredClients_def)

lemma open_fields [simp]:
  "open_at (h\<lparr>hp_dev := d\<rparr>) = open_at h" "open_at (h\<lparr>hp_active := m\<rparr>) = open_at h" "open_at (h\<lparr>hp_timer := t\<rparr>) = open_at h"
  "open_at (scheduleExpiry h) = open_at h"
  by (simp_all add: open_at_def scheduleExpiry_def Let_def fun_eq_iff)

lemma schedule_fields [simp]:
  "hp_active (scheduleExpiry h) = hp_active h" "hp_up (scheduleExpiry h) = hp_up h" "hp_address (scheduleExpiry h) = hp_address h"
  "hp_dev (scheduleExpiry h) = hp_dev h"
  "hp_timer (scheduleExpiry h) = map_option (\<lambda>t. (hp_generation (scheduleExpiry h), t)) (earliest (hp_active h))"
  by (simp_all add: scheduleExpiry_def Let_def)

text \<open>What a run of \<open>applyLocked\<close> leaves, whether it succeeds or not.\<close>

lemma applyLocked_cases:
  assumes "applyLocked D order now peers h = (ok, h')"
  obtains (unchanged) "\<not> ok" "h' = h"
  | (refused) "\<not> ok" "h' = closeRetiredClients (livePeers peers now) h"
  | (applied) d config where "ok" "h' = scheduleExpiry (closeRetiredClients (livePeers peers now) h\<lparr>hp_dev := d, hp_active := livePeers peers now\<rparr>)"
      "peerChanges (order (hp_active h)) (order (livePeers peers now)) = Some config"
      "(if config = [] then Some (hp_dev h) else IpcSet D config (hp_dev h)) = Some d"
  using assms by (auto simp: applyLocked_def Let_def split: option.splits if_splits)

section \<open>Serving only live peers\<close>

definition home_inv :: "time \<times> 'd home \<Rightarrow> bool" where
  "home_inv = (\<lambda>(t, h). (\<forall>ip. open_at h ip \<longrightarrow> hp_up h \<and> ip \<in> fst ` set (hp_active h)) \<and>
     distinct (map fst (hp_active h)) \<and>
     (hp_up h \<longrightarrow> hp_timer h = map_option (\<lambda>d. (hp_generation h, d)) (earliest (hp_active h))))"

lemma applyLocked_inv:
  assumes "applyLocked D order now peers h = (True, h')" "\<forall>ip. open_at h ip \<longrightarrow> hp_up h"
  shows "home_inv (now, h')"
  using assms(1)
proof (cases rule: applyLocked_cases)
  case (applied d config)
  have "ip \<in> fst ` set (livePeers peers now)" if "retained (livePeers peers now) h ip" for ip
    using that by (force simp: retained_def dest: map_of_SomeD)
  with applied livePeers_distinct [of peers now] assms(2) show ?thesis by (auto simp: home_inv_def open_retired)
qed simp_all

lemma home_Apply_inv:
  assumes "home_inv (t, h)" "home_Apply D order now s h = (ok, h')"
  shows "home_inv (now, h')"
proof (cases "applyLocked D order now (sn_Peers s) h = (ok, h') \<and> ok")
  case True
  then show ?thesis using applyLocked_inv [of D order now "sn_Peers s" h h'] assms(1) by (auto simp: home_inv_def)
next
  case False
  then have "h' = h \<or> applyLocked D order now (sn_Peers s) h = (False, h')"
    using assms(2) by (auto simp: home_Apply_def split: if_splits)
  then show ?thesis
  proof
    assume "applyLocked D order now (sn_Peers s) h = (False, h')"
    then show ?thesis using assms(1) by (cases rule: applyLocked_cases) (auto simp: home_inv_def open_retired)
  qed (use assms(1) in \<open>simp add: home_inv_def\<close>)
qed

lemma no_open_closed [simp]: "\<not> (\<exists>i. (i, ip, True) \<in> set (close_clients (\<lambda>_. True) cs))"
  by (simp add: open_close)

lemma expiry_fires_inv:
  assumes "home_inv (t, h)"
  shows "home_inv (now, expiry_fires D order now (hp_generation h) (h\<lparr>hp_timer := None\<rparr>))"
proof -
  obtain ok h' where a: "applyLocked D order now (map snd (order (hp_active h))) (h\<lparr>hp_timer := None\<rparr>) = (ok, h')"
    by (rule prod.exhaust)
  show ?thesis
  proof (cases ok)
    case True
    then show ?thesis
      using a assms applyLocked_inv [of D order now _ "h\<lparr>hp_timer := None\<rparr>" h'] by (auto simp: expiry_fires_def home_inv_def open_at_def)
  next
    case False
    then show ?thesis using a by (auto simp: expiry_fires_def home_inv_def open_at_def)
  qed
qed

lemma accept_client_inv:
  assumes "home_inv (t, h)" "hp_up h" "accept_client now i remote h = (ok, h')"
  shows "home_inv (now, h')"
  using assms
  by (auto simp: home_inv_def accept_client_def admitted_def open_at_def split: option.splits if_splits dest: map_of_SomeD)
    (force dest: map_of_SomeD)+

lemma home_inv_step: "home_inv s \<Longrightarrow> home_step D s s' \<Longrightarrow> home_inv s'"
proof (erule home_step.cases, goal_cases)
  case (1 t now order s h ok h')
  then show ?case using home_Apply_inv by blast
next
  case (2 t now order h g due)
  then have "hp_up h \<Longrightarrow> g = hp_generation h" by (cases "earliest (hp_active h)") (auto simp: home_inv_def)
  with 2 expiry_fires_inv [of t h now D order] show ?case
    by (cases "g = hp_generation h") (auto simp: expiry_fires_def home_inv_def open_at_def)
next
  case (3 t now g h order)
  then show ?case by (simp add: expiry_fires_def home_inv_def)
next
  case (4 t now h i remote ok h')
  then show ?case using accept_client_inv by blast
next
  case (5 t now h i)
  then show ?case by (auto simp: home_inv_def forward_ends_def open_at_def)
next
  case (6 t now h)
  then show ?case by (auto simp: home_inv_def home_Close_def open_at_def)
qed

interpretation homes: invariant_system "home_step D" home_inv for D :: "'d wg_device"
  by unfold_locales (rule home_inv_step)

lemma earliest_bound:
  assumes "map_of m ip = Some p" "pe_ValidUntil p = Some v"
  obtains d where "earliest m = Some d" "d \<le> v"
proof -
  have v: "v \<in> set (List.map_filter (\<lambda>(ip, p). pe_ValidUntil p) m)"
    using assms map_of_SomeD [OF assms(1)] by (force simp: set_map_filter)
  then obtain d where d: "earliest m = Some d" by (cases "earliest m") (auto simp: earliest_def sql_min_def split: list.splits)
  then have "d = Min (set (List.map_filter (\<lambda>(ip, p). pe_ValidUntil p) m))"
    by (auto simp: earliest_def sql_min_def Min.set_eq_fold simp del: set_simps split: list.splits)
  with v d that show thesis by simp
qed

text \<open>
  C10. The home machine serves nobody whose lease is over: from a fresh peer, whatever snapshots,
  connections, disconnections and timers come in any order, every open connection belongs to an
  address that is listed, the device is up, and the lease of that address still runs, as long as
  the expiry timer is not overdue.
\<close>

theorem home_serves_live_peers:
  assumes "home_New D tun up priv addr port d = Some h0" "reach (t0, h0) (home_step D) (t, h)"
    and "(i, ip, True) \<in> set (hp_clients h)" "\<forall>g due. hp_timer h = Some (g, due) \<longrightarrow> t < due"
  shows "hp_up h \<and> (\<exists>p. map_of (hp_active h) ip = Some p \<and> unexpired t p)"
proof -
  have "home_inv (t0, h0)"
    using assms(1) by (auto simp: home_New_def home_inv_def open_at_def earliest_def sql_min_def split: option.splits if_splits)
  from homes.reach_inv [OF assms(2) this] have inv: "home_inv (t, h)" .
  with assms(3) have up: "hp_up h" and "ip \<in> fst ` set (hp_active h)" by (auto simp: home_inv_def open_at_def)
  then obtain p where p: "map_of (hp_active h) ip = Some p" by (auto simp: weak_map_of_SomeI dest!: weak_map_of_SomeI)
  have "unexpired t p"
  proof (cases "pe_ValidUntil p")
    case (Some v)
    obtain due where due: "earliest (hp_active h) = Some due" "due \<le> v" by (rule earliest_bound [OF p Some])
    with inv up have "hp_timer h = Some (hp_generation h, due)" by (simp add: home_inv_def)
    with assms(4) due(2) Some show ?thesis by (auto simp: unexpired_def)
  qed (simp add: unexpired_def)
  with up p show ?thesis by blast
qed

text \<open>
  A snapshot cuts off whom it does not list: after it was applied, a connection is open only when
  it was open before, its address is in the snapshot with a running lease, and the key at that
  address has not changed.
\<close>

theorem snapshot_cuts_off:
  assumes "home_Apply D order now s h = (True, h')" "(i, ip, True) \<in> set (hp_clients h')"
  shows "(\<exists>j. (j, ip, True) \<in> set (hp_clients h)) \<and>
    (\<exists>p \<in> set (sn_Peers s). pe_OverlayIP p = ip \<and> unexpired now p \<and> map_of (hp_active h') ip = Some p \<and>
       (\<forall>q. map_of (hp_active h) ip = Some q \<longrightarrow> pe_PublicKey q = pe_PublicKey p))"
proof -
  from assms(1) have "applyLocked D order now (sn_Peers s) h = (True, h')" by (auto simp: home_Apply_def split: if_splits)
  then show ?thesis
  proof (cases rule: applyLocked_cases)
    case (applied d config)
    have "open_at h' ip" using assms(2) by (auto simp: open_at_def)
    with applied have "open_at h ip" "retained (livePeers (sn_Peers s) now) h ip" "hp_active h' = livePeers (sn_Peers s) now"
      by (simp_all add: open_retired)
    then show ?thesis by (auto simp: retained_def open_at_def dest: livePeers_in)
  qed simp_all
qed

section \<open>The device follows the snapshots\<close>

text \<open>What a section does to the routes of the device: a route belongs to one peer.\<close>

fun ipc_effect :: "ipc_section \<Rightarrow> (string \<Rightarrow> string set option) \<Rightarrow> string \<Rightarrow> string set option" where
  "ipc_effect (Upsert key ip endpoint) m = (\<lambda>k. if k = key then Some {ip @ ''/32''} else map_option (\<lambda>s. s - {ip @ ''/32''}) (m k))"
| "ipc_effect (Remove key) m = m(key := None)"

fun plain_section :: "ipc_section \<Rightarrow> bool" where
  "plain_section (Upsert key ip endpoint) \<longleftrightarrow> CHR 0x0A \<notin> set key \<union> set ip \<union> set endpoint"
| "plain_section (Remove key) \<longleftrightarrow> CHR 0x0A \<notin> set key"

text \<open>The configuration protocol: the sections of an accepted text take effect in their order.\<close>

definition uapi_law :: "'d wg_device \<Rightarrow> bool" where
  "uapi_law D \<longleftrightarrow> (\<forall>secs d d'. list_all plain_section secs \<longrightarrow> IpcSet D (concat (map ipc_text secs)) d = Some d' \<longrightarrow>
     dev_peers D d' = fold ipc_effect secs (dev_peers D d))"

definition hex_of :: "Peer \<Rightarrow> string" where
  "hex_of p = the (keyHex (pe_PublicKey p))"

definition peer_view :: "peer_map \<Rightarrow> string \<Rightarrow> string set option" where
  "peer_view m = map_of (map (\<lambda>(ip, p). (hex_of p, {ip @ ''/32''})) m)"

lemma fold_upserts:
  assumes "distinct (map hex_of (map snd L))" "distinct (map fst L)"
  shows "fold ipc_effect (map (\<lambda>(ip, p). Upsert (hex_of p) ip (pe_Endpoint p)) L) m k =
    (case peer_view L k of Some r \<Rightarrow> Some r | None \<Rightarrow> map_option (\<lambda>s. s - {ip @ ''/32'' | ip. ip \<in> fst ` set L}) (m k))"
  using assms
proof (induction L arbitrary: m)
  case Nil
  then show ?case by (simp add: peer_view_def option.map_ident)
next
  case (Cons e L)
  obtain ip p where e: "e = (ip, p)" by force
  have "peer_view L (hex_of p) = None"
    using Cons.prems(1) by (auto simp: e peer_view_def map_of_eq_None_iff image_iff split: prod.splits)
  moreover have "{ip @ ''/32''} - {ip @ ''/32'' | ip. ip \<in> fst ` set L} = {ip @ ''/32''}" using Cons.prems(2) by (auto simp: e)
  moreover have "s - {ip @ ''/32''} - {ip @ ''/32'' | ip. ip \<in> fst ` set L} = s - {i @ ''/32'' | i. i \<in> insert ip (fst ` set L)}" for s
    by auto
  ultimately show ?case
    using Cons by (simp add: e peer_view_def option.map_comp comp_def split: option.splits)
qed

lemma fold_removes: "fold ipc_effect (map (\<lambda>e. Remove (f e)) xs) m = (\<lambda>k. if k \<in> f ` set xs then None else m k)"
  by (induction xs arbitrary: m) (auto simp: fun_eq_iff)

lemma those_map: "those (map f xs) = Some ys \<Longrightarrow> ys = map (\<lambda>x. the (f x)) xs \<and> (\<forall>x \<in> set xs. f x \<noteq> None)"
  by (induction xs arbitrary: ys) (auto split: option.splits)

lemma peer_sections_SomeD:
  assumes "peer_sections A N = Some secs"
  shows "secs = map (\<lambda>(ip, p). Upsert (hex_of p) ip (pe_Endpoint p)) (filter (\<lambda>e. \<not> unchanged_peer A e) N) @
    map (\<lambda>e. Remove (hex_of (snd e))) (filter (\<lambda>e. \<not> kept_peer N e) A)"
proof -
  have u: "the (upsert_of e) = (case e of (ip, p) \<Rightarrow> Upsert (hex_of p) ip (pe_Endpoint p))" if "upsert_of e \<noteq> None" for e
    using that by (auto simp: upsert_of_def hex_of_def split: prod.splits)
  have r: "the (remove_of e) = Remove (hex_of (snd e))" if "remove_of e \<noteq> None" for e
    using that by (auto simp: remove_of_def hex_of_def split: prod.splits)
  from assms obtain us rs where "those (map upsert_of (filter (\<lambda>e. \<not> unchanged_peer A e) N)) = Some us"
    "those (map remove_of (filter (\<lambda>e. \<not> kept_peer N e) A)) = Some rs" "secs = us @ rs"
    by (auto simp: peer_sections_def split: option.splits)
  with those_map [OF this(1)] those_map [OF this(2)] u r show ?thesis by (auto intro!: map_cong)
qed

text \<open>The peers of a map have addresses and keys of their own; no key moves from one map to the other.\<close>

definition bijective_map :: "peer_map \<Rightarrow> bool" where
  "bijective_map m \<longleftrightarrow> distinct (map fst m) \<and> distinct (map (hex_of \<circ> snd) m)"

definition keys_stay :: "peer_map \<Rightarrow> peer_map \<Rightarrow> bool" where
  "keys_stay A N \<longleftrightarrow> (\<forall>(a, p) \<in> set A. \<forall>(b, q) \<in> set N. hex_of p = hex_of q \<longrightarrow> a = b \<and> pe_PublicKey p = pe_PublicKey q)"

lemma peer_view_Some: "bijective_map m \<Longrightarrow> peer_view m k = Some r \<longleftrightarrow> (\<exists>ip p. (ip, p) \<in> set m \<and> k = hex_of p \<and> r = {ip @ ''/32''})"
  unfolding peer_view_def bijective_map_def
  by (subst map_of_eq_Some_iff) (force simp: comp_def case_prod_unfold image_iff)+

lemma bijective_map_filter: "bijective_map m \<Longrightarrow> bijective_map (filter f m)"
  by (simp add: bijective_map_def distinct_map_filter)

lemma bijective_map_map_of: "bijective_map m \<Longrightarrow> map_of m ip = Some p \<longleftrightarrow> (ip, p) \<in> set m"
  by (simp add: bijective_map_def)

lemma sections_effect:
  assumes A: "bijective_map A" and N: "bijective_map N" and stay: "keys_stay A N" and secs: "peer_sections A N = Some secs"
  shows "fold ipc_effect secs (peer_view A) = peer_view N"
proof
  fix k
  let ?C = "filter (\<lambda>e. \<not> unchanged_peer A e) N" and ?G = "filter (\<lambda>e. \<not> kept_peer N e) A"
  have C: "bijective_map ?C" by (rule bijective_map_filter [OF N])
  have eff: "fold ipc_effect secs (peer_view A) k = (if k \<in> (\<lambda>e. hex_of (snd e)) ` set ?G then None
      else (case peer_view ?C k of Some r \<Rightarrow> Some r | None \<Rightarrow> map_option (\<lambda>s. s - {ip @ ''/32'' | ip. ip \<in> fst ` set ?C}) (peer_view A k)))"
    using fold_upserts [of ?C "peer_view A"] C
    by (simp add: peer_sections_SomeD [OF secs] fold_removes bijective_map_def)
  consider (gone) "k \<in> (\<lambda>e. hex_of (snd e)) ` set ?G" | (set_now) r where "k \<notin> (\<lambda>e. hex_of (snd e)) ` set ?G" "peer_view ?C k = Some r"
    | (fresh) "k \<notin> (\<lambda>e. hex_of (snd e)) ` set ?G" "peer_view ?C k = None" "peer_view A k = None"
    | (left) a p where "k \<notin> (\<lambda>e. hex_of (snd e)) ` set ?G" "peer_view ?C k = None" "(a, p) \<in> set A" "k = hex_of p"
  proof -
    have "peer_view A k = None \<or> (\<exists>a p. (a, p) \<in> set A \<and> k = hex_of p)"
      by (cases "peer_view A k") (use peer_view_Some [OF A] in blast)+
    with that show thesis by (cases "peer_view ?C k") metis+
  qed
  then show "fold ipc_effect secs (peer_view A) k = peer_view N k"
  proof cases
    case gone
    then obtain a p where p: "(a, p) \<in> set A" "\<not> kept_peer N (a, p)" "k = hex_of p" by auto
    have "peer_view N k = None"
    proof (rule ccontr)
      assume "peer_view N k \<noteq> None"
      then obtain b q where q: "(b, q) \<in> set N" "hex_of q = k" using peer_view_Some [OF N] by fastforce
      with stay p have "a = b" "pe_PublicKey p = pe_PublicKey q" by (fastforce simp: keys_stay_def)+
      with q p show False by (auto simp: kept_peer_def bijective_map_map_of [OF N, symmetric])
    qed
    with gone eff show ?thesis by simp
  next
    case set_now
    then have "peer_view N k = Some r" using peer_view_Some [OF C] peer_view_Some [OF N] by auto
    with set_now eff show ?thesis by simp
  next
    case fresh
    have "peer_view N k = None"
    proof (rule ccontr)
      assume "peer_view N k \<noteq> None"
      then obtain b q where q: "(b, q) \<in> set N" "hex_of q = k" using peer_view_Some [OF N] by fastforce
      have "unchanged_peer A (b, q)"
      proof (rule ccontr)
        assume "\<not> unchanged_peer A (b, q)"
        then have "peer_view ?C k = Some {b @ ''/32''}" using q peer_view_Some [OF C] by auto
        with fresh(2) show False by simp
      qed
      then obtain p where "(b, p) \<in> set A" "pe_PublicKey p = pe_PublicKey q"
        by (auto simp: unchanged_peer_def dest: map_of_SomeD split: option.splits)
      with fresh(3) q peer_view_Some [OF A] show False by (metis hex_of_def option.distinct(1))
    qed
    with fresh eff show ?thesis by simp
  next
    case (left a p)
    have "kept_peer N (a, p)" using left(1,3,4) by force
    then obtain q where q: "(a, q) \<in> set N" "hex_of q = k"
      using left(4) by (auto simp: kept_peer_def hex_of_def dest: map_of_SomeD split: option.splits)
    have "a \<notin> fst ` set ?C"
    proof
      assume "a \<in> fst ` set ?C"
      then obtain q' where q': "(a, q') \<in> set ?C" by auto
      then have "map_of N a = Some q'" "map_of N a = Some q" using q by (simp_all add: bijective_map_map_of [OF N])
      then have "peer_view ?C k = Some {a @ ''/32''}" using q' q(2) peer_view_Some [OF C] by auto
      with left(2) show False by simp
    qed
    then have "{a @ ''/32''} - {ip @ ''/32'' | ip. ip \<in> fst ` set ?C} = {a @ ''/32''}" by auto
    moreover have "peer_view A k = Some {a @ ''/32''}" "peer_view N k = Some {a @ ''/32''}"
      using left(3,4) q peer_view_Some [OF A] peer_view_Some [OF N] by auto
    ultimately show ?thesis using left(1,2) eff by simp
  qed
qed

lemma keyHex_plain: "keyHex key = Some k \<Longrightarrow> CHR 0x0A \<notin> set k"
proof -
  have "CHR 0x0A \<notin> set (hex_bytes s)" for s
  proof (induction s)
    case (Cons c s)
    have digit: "''0123456789abcdef'' ! n \<noteq> CHR 0x0A" if "n < 16" for n
      using that by (auto simp: less_Suc_eq numeral_eq_Suc nth_Cons')
    show ?case using Cons digit [of "of_char c div 16"] digit [of "of_char c mod 16"]
      by (auto simp: Let_def less_mult_imp_div_less)
  qed simp
  then show "keyHex key = Some k \<Longrightarrow> CHR 0x0A \<notin> set k" by (auto simp: keyHex_def split: option.splits if_splits)
qed

lemma ipc_text_neq_Nil [simp]: "ipc_text x \<noteq> []"
  by (cases x) simp_all

lemma same_Some: "(\<And>r. x = Some r \<longleftrightarrow> y = Some r) \<Longrightarrow> x = y"
  by (cases x; cases y) auto

lemma order_same:
  assumes "\<forall>m. mset (order m) = mset m"
  shows "bijective_map (order m) \<longleftrightarrow> bijective_map m" "bijective_map m \<Longrightarrow> peer_view (order m) = peer_view m"
    "keys_stay (order A) (order N) \<longleftrightarrow> keys_stay A N" "set (order m) = set m"
proof -
  have m: "mset (order m) = mset m" for m using assms by blast
  then show s: "set (order m) = set m" for m by (metis set_mset_mset)
  then show "keys_stay (order A) (order N) \<longleftrightarrow> keys_stay A N" by (simp add: keys_stay_def)
  have "distinct (map f (order m)) \<longleftrightarrow> distinct (map f m)" for f :: "string \<times> Peer \<Rightarrow> string" and m
    using m by (metis distinct_count_atmost_1 mset_map set_map set_mset_mset)
  then show o: "bijective_map (order m) \<longleftrightarrow> bijective_map m" for m by (simp add: bijective_map_def)
  show "bijective_map m \<Longrightarrow> peer_view (order m) = peer_view m"
    using peer_view_Some [of m] peer_view_Some [of "order m"] by (intro ext same_Some) (simp add: o s)
qed

lemma applied_sections:
  assumes D: "uapi_law D" and order: "\<forall>m. mset (order m) = mset m"
    and run: "home_Apply D order now s h = (True, h')"
    and plain: "\<forall>p \<in> set (sn_Peers s). CHR 0x0A \<notin> set (pe_OverlayIP p) \<union> set (pe_Endpoint p)"
  obtains secs where "peer_sections (order (hp_active h)) (order (livePeers (sn_Peers s) now)) = Some secs"
    "dev_peers D (hp_dev h') = fold ipc_effect secs (dev_peers D (hp_dev h))" "hp_active h' = livePeers (sn_Peers s) now"
proof -
  let ?N = "livePeers (sn_Peers s) now"
  from run have "applyLocked D order now (sn_Peers s) h = (True, h')" by (auto simp: home_Apply_def split: if_splits)
  then show thesis
  proof (cases rule: applyLocked_cases)
    case (applied d config)
    then obtain secs where secs: "peer_sections (order (hp_active h)) (order ?N) = Some secs" "config = concat (map ipc_text secs)"
      by (auto simp: peerChanges_def)
    have "list_all plain_section secs"
    proof -
      have "plain_section x" if x: "x \<in> set secs" for x
      proof -
        from secs(1) x consider e where "e \<in> set (order ?N)" "upsert_of e = Some x" | e where "remove_of e = Some x"
          by (auto simp: peer_sections_def split: option.splits dest!: those_map)
        then show ?thesis
          using plain livePeers_sound [of "sn_Peers s" now] order_same(4) [OF order]
          by cases (fastforce simp: upsert_of_def remove_of_def dest: keyHex_plain split: prod.splits)+
      qed
      then show ?thesis by (simp add: list_all_iff)
    qed
    with D applied(4) secs(2) have "dev_peers D d = fold ipc_effect secs (dev_peers D (hp_dev h))"
      by (cases "secs = []") (auto simp: uapi_law_def split: if_splits)
    with that secs(1) applied(2) show thesis by simp
  qed simp_all
qed

text \<open>
  C22. The device follows the snapshots: applying a snapshot to a peer whose device routes exactly its
  active peers leaves it routing exactly the peers of the snapshot whose lease runs, each to its
  address alone, in whatever order the maps are visited, provided that no key moves to another
  address.
\<close>

theorem device_follows_snapshot:
  assumes "uapi_law D" "\<forall>m. mset (order m) = mset m" "home_Apply D order now s h = (True, h')"
    and "\<forall>p \<in> set (sn_Peers s). CHR 0x0A \<notin> set (pe_OverlayIP p) \<union> set (pe_Endpoint p)"
    and "dev_peers D (hp_dev h) = peer_view (hp_active h)" "bijective_map (hp_active h)"
    and "bijective_map (livePeers (sn_Peers s) now)" "keys_stay (hp_active h) (livePeers (sn_Peers s) now)"
  shows "dev_peers D (hp_dev h') = peer_view (hp_active h') \<and> hp_active h' = livePeers (sn_Peers s) now"
proof -
  obtain secs where r: "peer_sections (order (hp_active h)) (order (livePeers (sn_Peers s) now)) = Some secs"
    "dev_peers D (hp_dev h') = fold ipc_effect secs (dev_peers D (hp_dev h))" "hp_active h' = livePeers (sn_Peers s) now"
    by (rule applied_sections [OF assms(1-4)])
  have "fold ipc_effect secs (peer_view (order (hp_active h))) = peer_view (order (livePeers (sn_Peers s) now))"
    by (rule sections_effect [OF _ _ _ r(1)]) (simp_all add: order_same [OF assms(2)] assms)
  with r(2,3) assms(5-7) show ?thesis by (simp add: order_same(2) [OF assms(2)])
qed

text \<open>
  C38. A key that moves is lost: when a snapshot lists an active key under another address, applying it
  sets the new route first and removes the key afterwards, so the device has no such peer although
  the home machine counts it as active.
\<close>

theorem moved_key_lost:
  assumes "uapi_law D" "\<forall>m. mset (order m) = mset m" "home_Apply D order now s h = (True, h')"
    and "\<forall>p \<in> set (sn_Peers s). CHR 0x0A \<notin> set (pe_OverlayIP p) \<union> set (pe_Endpoint p)"
    and "bijective_map (livePeers (sn_Peers s) now)"
    and "(a, p) \<in> set (hp_active h)" "(b, q) \<in> set (hp_active h')" "a \<noteq> b" "pe_PublicKey p = pe_PublicKey q"
  shows "dev_peers D (hp_dev h') (hex_of q) = None"
proof -
  let ?N = "livePeers (sn_Peers s) now"
  obtain secs where r: "peer_sections (order (hp_active h)) (order ?N) = Some secs"
    "dev_peers D (hp_dev h') = fold ipc_effect secs (dev_peers D (hp_dev h))" "hp_active h' = ?N"
    by (rule applied_sections [OF assms(1-4)])
  have N: "bijective_map (order ?N)" "(b, q) \<in> set (order ?N)" using order_same [OF assms(2)] assms(5,7) r(3) by simp_all
  have "\<not> kept_peer (order ?N) (a, p)"
  proof
    assume "kept_peer (order ?N) (a, p)"
    then obtain q' where q': "(a, q') \<in> set (order ?N)" "hex_of q' = hex_of q"
      using assms(9) by (auto simp: kept_peer_def hex_of_def dest: map_of_SomeD split: option.splits)
    with N assms(8) show False by (force simp: bijective_map_def distinct_map inj_on_def)
  qed
  then have "hex_of q \<in> (\<lambda>e. hex_of (snd e)) ` set (filter (\<lambda>e. \<not> kept_peer (order ?N) e) (order (hp_active h)))"
    using assms(6,9) order_same(4) [OF assms(2)] by (force simp: hex_of_def)
  then show ?thesis by (simp add: r(2) peer_sections_SomeD [OF r(1)] fold_removes)
qed

section \<open>Examples\<close>

text \<open>A device that reads its configuration line by line.\<close>

fun read_sections :: "string list \<Rightarrow> ipc_section list" where
  "read_sections (a # b # c # e # k # ls) =
     (if b = ''remove=true'' then Remove (drop 11 a) # read_sections (c # e # k # ls)
      else if take 9 e = ''endpoint='' then Upsert (drop 11 a) (take (length c - 14) (drop 11 c)) (drop 9 e) # read_sections ls
      else Upsert (drop 11 a) (take (length c - 14) (drop 11 c)) [] # read_sections (e # k # ls))"
| "read_sections (a # b # ls) =
     (if b = ''remove=true'' then Remove (drop 11 a) # read_sections ls
      else (case ls of [] \<Rightarrow> [] | c # _ \<Rightarrow> [Upsert (drop 11 a) (take (length c - 14) (drop 11 c)) []]))"
| "read_sections _ = []"

definition plain_device :: "(string \<Rightarrow> string set option) wg_device" where
  "plain_device = \<lparr>IpcSet = (\<lambda>text m. Some (if take 12 text = ''private_key='' then m
     else fold ipc_effect (read_sections (Split text (CHR 0x0A))) m)), dev_peers = id\<rparr>"

fun section_lines :: "ipc_section \<Rightarrow> string list" where
  "section_lines (Upsert key ip endpoint) = [''public_key='' @ key, ''replace_allowed_ips=true'', ''allowed_ip='' @ ip @ ''/32''] @
     (if endpoint \<noteq> [] then [''endpoint='' @ endpoint, ''persistent_keepalive_interval=25''] else [])"
| "section_lines (Remove key) = [''public_key='' @ key, ''remove=true'']"

lemma split_text: "plain_section x \<Longrightarrow> Split (ipc_text x @ rest) (CHR 0x0A) = section_lines x @ Split rest (CHR 0x0A)"
proof (cases x)
  case (Upsert key ip endpoint)
  moreover assume "plain_section x"
  ultimately show ?thesis
    using Split_append [of "CHR 0x0A" "''public_key='' @ key"] Split_append [of "CHR 0x0A" "''replace_allowed_ips=true''"]
      Split_append [of "CHR 0x0A" "''allowed_ip='' @ ip @ ''/32''"] Split_append [of "CHR 0x0A" "''endpoint='' @ endpoint"]
      Split_append [of "CHR 0x0A" "''persistent_keepalive_interval=25''"]
    by (simp add: nl_def)
next
  case (Remove key)
  moreover assume "plain_section x"
  ultimately show ?thesis
    using Split_append [of "CHR 0x0A" "''public_key='' @ key"] Split_append [of "CHR 0x0A" "''remove=true''"] by (simp add: nl_def)
qed

lemma section_lines_head: "\<exists>l ls. section_lines x = (''public_key='' @ l) # ls"
  by (cases x) simp_all

lemma read_upsert:
  assumes "rest = [[]] \<or> (\<exists>l ls. rest = (''public_key='' @ l) # ls)"
  shows "read_sections (section_lines x @ rest) = x # read_sections rest"
proof -
  from assms consider "rest = [[]]" | l ls where "rest = (''public_key='' @ l) # ls" by blast
  then show ?thesis
  proof cases
    case 1
    then show ?thesis by (cases x) simp_all
  next
    case (2 l ls)
    then show ?thesis by (cases x; cases ls; cases "tl ls"; cases "tl (tl ls)"; cases "tl (tl (tl ls))") simp_all
  qed
qed

lemma read_text: "list_all plain_section secs \<Longrightarrow> read_sections (Split (concat (map ipc_text secs)) (CHR 0x0A)) = secs"
proof (induction secs)
  case (Cons x secs)
  let ?rest = "Split (concat (map ipc_text secs)) (CHR 0x0A)"
  have "?rest = [[]] \<or> (\<exists>l ls. ?rest = (''public_key='' @ l) # ls)"
  proof (cases secs)
    case (Cons y ys)
    with Cons.prems split_text [of y "concat (map ipc_text ys)"] section_lines_head [of y] show ?thesis by auto
  qed simp
  with Cons read_upsert [of ?rest x] split_text [of x] show ?case by simp
qed simp

lemma plain_device_law: "uapi_law plain_device"
proof -
  have "take 12 (ipc_text x @ r) \<noteq> ''private_key=''" for x r by (cases x) simp_all
  then have "take 12 (concat (map ipc_text secs)) \<noteq> ''private_key=''" for secs by (cases secs) simp_all
  then show ?thesis by (simp add: uapi_law_def plain_device_def read_text)
qed

definition guest_peer :: "string \<Rightarrow> Peer" where
  "guest_peer ip = \<lparr>pe_ValidUntil = Some 20, pe_DeviceID = ''phone'', pe_PublicKey = b64_encode b64_std (replicate 32 7), pe_OverlayIP = ip,
     pe_Endpoint = [], pe_ServicePort = 0\<rparr>"

definition guest_snapshot :: "string \<Rightarrow> Snapshot" where
  "guest_snapshot ip = \<lparr>sn_AuthorizationExpiresAt = 90, sn_NextExpiry = None, sn_OverlayIP = ''10.0.0.3'', sn_Peers = [guest_peer ip], sn_WGConfig = []\<rparr>"

definition new_home :: "(string \<Rightarrow> string set option) home" where
  "new_home = the (home_New plain_device True True (b64_encode b64_std (replicate 32 1)) ''10.0.0.3'' 51821 Map.empty)"

definition home_at :: "string \<Rightarrow> (string \<Rightarrow> string set option) home \<Rightarrow> (string \<Rightarrow> string set option) home" where
  "home_at ip h = snd (home_Apply plain_device id 10 (guest_snapshot ip) h)"

lemma new_home: "home_New plain_device True True (b64_encode b64_std (replicate 32 1)) ''10.0.0.3'' 51821 Map.empty = Some new_home"
  "hp_active new_home = []" "hp_clients new_home = []" "hp_dev new_home = Map.empty"
proof -
  obtain k where "keyHex (b64_encode b64_std (replicate 32 1)) = Some k"
    by (cases "keyHex (b64_encode b64_std (replicate 32 1))") (simp_all, code_simp)
  moreover have "ParseAddr ''10.0.0.3'' = Some (IPv4 0x0A000003)" by code_simp
  ultimately have "home_New plain_device True True (b64_encode b64_std (replicate 32 1)) ''10.0.0.3'' 51821 Map.empty =
    Some \<lparr>hp_address = IPv4 0x0A000003, hp_clients = [], hp_active = [], hp_timer = None, hp_generation = 0, hp_dev = Map.empty, hp_up = True\<rparr>"
    by (simp add: home_New_def plain_device_def)
  then show "home_New plain_device True True (b64_encode b64_std (replicate 32 1)) ''10.0.0.3'' 51821 Map.empty = Some new_home"
    "hp_active new_home = []" "hp_clients new_home = []" "hp_dev new_home = Map.empty" by (simp_all add: new_home_def)
qed

lemma home_moves:
  "home_Apply plain_device id 10 (guest_snapshot ''10.0.0.8'') new_home = (True, home_at ''10.0.0.8'' new_home)"
  "home_Apply plain_device id 10 (guest_snapshot ''10.0.0.9'') (home_at ''10.0.0.8'' new_home) = (True, home_at ''10.0.0.9'' (home_at ''10.0.0.8'' new_home))"
  "hp_active (home_at ''10.0.0.8'' new_home) = [(''10.0.0.8'', guest_peer ''10.0.0.8'')]"
  "hp_active (home_at ''10.0.0.9'' (home_at ''10.0.0.8'' new_home)) = [(''10.0.0.9'', guest_peer ''10.0.0.9'')]"
  "hp_timer (home_at ''10.0.0.8'' new_home) = Some (1, 20)" "hp_up (home_at ''10.0.0.8'' new_home)"
proof -
  have "fst (home_Apply plain_device id 10 (guest_snapshot ''10.0.0.8'') new_home)" by code_simp
  then show "home_Apply plain_device id 10 (guest_snapshot ''10.0.0.8'') new_home = (True, home_at ''10.0.0.8'' new_home)"
    unfolding home_at_def by (metis prod.collapse)
  have "fst (home_Apply plain_device id 10 (guest_snapshot ''10.0.0.9'') (home_at ''10.0.0.8'' new_home))" by code_simp
  then show "home_Apply plain_device id 10 (guest_snapshot ''10.0.0.9'') (home_at ''10.0.0.8'' new_home) =
      (True, home_at ''10.0.0.9'' (home_at ''10.0.0.8'' new_home))"
    unfolding home_at_def [of "''10.0.0.9''"] by (metis prod.collapse)
  show "hp_active (home_at ''10.0.0.8'' new_home) = [(''10.0.0.8'', guest_peer ''10.0.0.8'')]"
    "hp_active (home_at ''10.0.0.9'' (home_at ''10.0.0.8'' new_home)) = [(''10.0.0.9'', guest_peer ''10.0.0.9'')]"
    "hp_timer (home_at ''10.0.0.8'' new_home) = Some (1, 20)" "hp_up (home_at ''10.0.0.8'' new_home)" by code_simp+
qed

lemma guest_map: "livePeers (sn_Peers (guest_snapshot ip)) 10 = [(ip, guest_peer ip)]" "bijective_map [(ip, guest_peer ip)]"
  by (simp_all add: livePeers_def guest_snapshot_def guest_peer_def bijective_map_def)

lemma guest_plain: "ip \<in> {''10.0.0.8'', ''10.0.0.9''} \<Longrightarrow>
    \<forall>p \<in> set (sn_Peers (guest_snapshot ip)). CHR 0x0A \<notin> set (pe_OverlayIP p) \<union> set (pe_Endpoint p)"
  by (auto simp: guest_snapshot_def guest_peer_def)

theorem device_follows_snapshot_witness:
  "dev_peers plain_device (hp_dev (home_at ''10.0.0.8'' new_home)) = peer_view [(''10.0.0.8'', guest_peer ''10.0.0.8'')]"
proof -
  have "dev_peers plain_device (hp_dev new_home) = peer_view (hp_active new_home)"
    by (simp add: new_home plain_device_def peer_view_def)
  moreover have "bijective_map (hp_active new_home)" "keys_stay (hp_active new_home) m" for m
    by (simp_all add: new_home bijective_map_def keys_stay_def)
  ultimately show ?thesis
    using device_follows_snapshot [OF plain_device_law _ home_moves(1) guest_plain] guest_map by simp
qed

theorem moved_key_lost_witness:
  "hp_active (home_at ''10.0.0.9'' (home_at ''10.0.0.8'' new_home)) = [(''10.0.0.9'', guest_peer ''10.0.0.9'')] \<and>
   dev_peers plain_device (hp_dev (home_at ''10.0.0.9'' (home_at ''10.0.0.8'' new_home))) (hex_of (guest_peer ''10.0.0.9'')) = None"
  using moved_key_lost [OF plain_device_law _ home_moves(2) guest_plain, of "''10.0.0.8''" "guest_peer ''10.0.0.8''" "''10.0.0.9''" "guest_peer ''10.0.0.9''"]
    home_moves(3,4) guest_map by (simp add: guest_peer_def)

definition served_home :: "(string \<Rightarrow> string set option) home" where
  "served_home = snd (accept_client 11 0 ''10.0.0.8:4000'' (home_at ''10.0.0.8'' new_home))"

lemma served_home:
  "accept_client 11 0 ''10.0.0.8:4000'' (home_at ''10.0.0.8'' new_home) = (True, served_home)"
  "hp_clients served_home = [(0, ''10.0.0.8'', True)]" "hp_active served_home = [(''10.0.0.8'', guest_peer ''10.0.0.8'')]"
  "hp_timer served_home = Some (1, 20)"
proof -
  have "fst (accept_client 11 0 ''10.0.0.8:4000'' (home_at ''10.0.0.8'' new_home))" by code_simp
  then show "accept_client 11 0 ''10.0.0.8:4000'' (home_at ''10.0.0.8'' new_home) = (True, served_home)"
    unfolding served_home_def by (metis prod.collapse)
  show "hp_clients served_home = [(0, ''10.0.0.8'', True)]" "hp_active served_home = [(''10.0.0.8'', guest_peer ''10.0.0.8'')]"
    "hp_timer served_home = Some (1, 20)" by code_simp+
qed

theorem home_serves_live_peers_witness:
  "reach (0, new_home) (home_step plain_device) (11, served_home) \<and> (0, ''10.0.0.8'', True) \<in> set (hp_clients served_home) \<and>
   (\<exists>p. map_of (hp_active served_home) ''10.0.0.8'' = Some p \<and> unexpired 11 p)"
proof -
  have "home_step plain_device (0, new_home) (10, home_at ''10.0.0.8'' new_home)"
    by (rule home_step.snapshot_in [of _ _ id, OF _ _ home_moves(1)]) simp_all
  moreover have "home_step plain_device (10, home_at ''10.0.0.8'' new_home) (11, served_home)"
    by (rule home_step.connect [OF _ home_moves(6) served_home(1)]) simp
  ultimately have "reach (0, new_home) (home_step plain_device) (11, served_home)"
    by (metis reach_start reach_step)
  with home_serves_live_peers [OF new_home(1) this, of 0 "''10.0.0.8''"] served_home show ?thesis by simp
qed

theorem snapshot_cuts_off_witness:
  "fst (home_Apply plain_device id 12 (guest_snapshot ''10.0.0.8'') served_home) \<and>
   (\<exists>j. (j, ''10.0.0.8'', True) \<in> set (hp_clients served_home)) \<and>
   (\<exists>p \<in> set (sn_Peers (guest_snapshot ''10.0.0.8'')). pe_OverlayIP p = ''10.0.0.8'' \<and> unexpired 12 p)"
proof -
  obtain ok h where r: "home_Apply plain_device id 12 (guest_snapshot ''10.0.0.8'') served_home = (ok, h)" by (rule prod.exhaust)
  have f: "fst (home_Apply plain_device id 12 (guest_snapshot ''10.0.0.8'') served_home)"
    "hp_clients (snd (home_Apply plain_device id 12 (guest_snapshot ''10.0.0.8'') served_home)) = [(0, ''10.0.0.8'', True)]" by code_simp+
  then have "home_Apply plain_device id 12 (guest_snapshot ''10.0.0.8'') served_home = (True, h)" "(0, ''10.0.0.8'', True) \<in> set (hp_clients h)"
    using r by simp_all
  from snapshot_cuts_off [OF this] f(1) show ?thesis by blast
qed

end
