(* ===== verification/Home_Commands.thy ===== *)
theory Home_Commands
  imports Home_Safety Home_Gateway Login_Safety Uoa_Runs
begin

text \<open>
  The two commands of a home machine: \<open>cmd/home-bootstrap\<close>, with which an operator makes a token for
  the first enrolment, and \<open>cmd/home-peer\<close>, the daemon that enrols once, registers its endpoint and
  serves sessions. Files are kept by their decoded contents, the control server is an argument.
\<close>

section \<open>home-bootstrap\<close>

datatype bootstrap_error = BootstrapFlags | BootstrapDatabase | BootstrapUnknown | BootstrapSign | BootstrapFile | BootstrapWrite

definition bootstrap_claims :: "time \<Rightarrow> string \<Rightarrow> sessionClaims" where
  "bootstrap_claims now userID = \<lparr>sc_capability_kind = [], sc_direct_home_id = [], sc_is_super = False, sc_issuer = Issuer,
     sc_subject = userID, sc_id = [], sc_audience = [AudienceAdmin], sc_issued_at = Some (NumericDate now),
     sc_expires_at = NumericDate (now + 10 * Minute)\<rparr>"

text \<open>A write that fails leaves the first \<open>written\<close> bytes of the token.\<close>

definition bootstrap_run :: "crypto \<Rightarrow> env \<Rightarrow> nat \<Rightarrow> string \<Rightarrow> string \<Rightarrow> string \<Rightarrow> string \<Rightarrow> db \<Rightarrow> (string \<rightharpoonup> string) \<Rightarrow>
    bootstrap_error option \<times> (string \<rightharpoonup> string)" where
  "bootstrap_run C E written reference output secret databaseURL d files =
     (if reference = [] \<or> output = [] \<or> length secret < 32 \<or> databaseURL = [] then (Some BootstrapFlags, files)
      else if fails E 0 then (Some BootstrapDatabase, files)
      else (case (if fails E 1 then None else List.find (\<lambda>u. u_external_id u = reference \<and> u_status u = ''active'') (users d)) of
              None \<Rightarrow> (Some BootstrapUnknown, files)
            | Some u \<Rightarrow>
                (case jwt_sign C secret (bootstrap_claims (clock E) (u_id u)) of None \<Rightarrow> (Some BootstrapSign, files)
                 | Some token \<Rightarrow>
                     if files output \<noteq> None \<or> fails E 2 then (Some BootstrapFile, files)
                     else if fails E 3 then (Some BootstrapWrite, files(output \<mapsto> take written token))
                     else (None, files(output \<mapsto> token)))))"

lemma no_session_no_request:
  assumes "SessionID claims = []" "CapabilityKind claims = []"
  shows "\<exists>e. fst (sso_validator H U E oth cache rvk claims w) = Inl e"
proof -
  have "resolve H U E oth [] u s \<noteq> (Inr p, s')" for u s p s'
    by (auto simp: resolve_def resolveLocked_def split: option.splits)
  with assms show ?thesis
    by (auto simp: sso_validator_def sm_Validate_def RafikiDirectCapability_def split: prod.splits sum.splits)
qed

text \<open>
  C39. The token of \<open>home-bootstrap\<close> opens nothing: it names no session, and the middleware of every
  protected route, the pairing routes the home daemon calls included, asks for one. Whenever it is
  presented, the answer is 401 or 503, whatever the handler behind the route would do.
\<close>

theorem bootstrap_token_refused:
  assumes "jwt_laws (h_crypto H)" "bootstrap_run (h_crypto H) E0 written reference output (InternalSessionSecret (h_cfg H)) url d files = (None, files')"
    and "files' output = Some token" "authorization r = ''Bearer '' @ token" "clock E < NumericDate (clock E0 + 10 * Minute) + JWTLeeway"
  shows "fst (Middleware.Middleware H E n (Some (sso_validator H U E oth cache rvk)) r nxt w) \<in>
      {Error 401 ''unauthorized'', Error 503 ''session temporarily unavailable''}"
proof -
  let ?k = "InternalSessionSecret (h_cfg H)"
  from assms(2,3) obtain u where t: "jwt_sign (h_crypto H) ?k (bootstrap_claims (clock E0) u) = Some token"
    by (auto simp: bootstrap_run_def split: if_splits option.splits)
  have p: "jwt_parse (h_crypto H) ?k (clock E) token = Some (bootstrap_claims (clock E0) u)"
    using assms(1,5) t unfolding jwt_laws_def by (auto simp: bootstrap_claims_def)
  have "plain_word token" using assms(1) t unfolding jwt_laws_def by blast
  from bearer_token [OF this] p assms(4) have
    "\<exists>e. authenticateBearer (h_crypto H) (clock E) (authorization r) ?k = Inl e \<or>
      (\<exists>c. authenticateBearer (h_crypto H) (clock E) (authorization r) ?k = Inr c \<and> SessionID c = [] \<and> CapabilityKind c = [])"
    by (auto simp: authenticateBearer_def Let_def bootstrap_claims_def)
  then show ?thesis
  proof (elim exE disjE conjE)
    fix e assume "authenticateBearer (h_crypto H) (clock E) (authorization r) ?k = Inl e"
    then show ?thesis by (simp add: Middleware_def reject_def)
  next
    fix c assume c: "authenticateBearer (h_crypto H) (clock E) (authorization r) ?k = Inr c" "SessionID c = []" "CapabilityKind c = []"
    from no_session_no_request [OF c(2,3)] obtain e w' where "sso_validator H U E oth cache rvk c w = (Inl e, w')"
      by (metis prod.collapse)
    with c(1) show ?thesis by (cases e) (simp_all add: Middleware_def reject_def)
  qed
qed

section \<open>home-peer: enrolment\<close>

record home_state =
  hs_credential :: string
  hs_device_id :: string
  hs_overlay_ip :: string
  hs_private_key :: string

text \<open>A file is a state in JSON or something else.\<close>

datatype content = StateJson home_state | OtherText string

datatype json_val = JStr string | JInt int

text \<open>
  The control server: the answer to a request (token, path, body), with the status and the fields of
  the body if it decodes; \<^const>\<open>None\<close> when the exchange fails.
\<close>

type_synonym 'c control = "'c \<Rightarrow> string \<Rightarrow> string \<Rightarrow> (string \<times> json_val) list \<Rightarrow>
    (nat \<times> (string \<rightharpoonup> string) option) option \<times> 'c"

definition client_post :: "'c control \<Rightarrow> string \<Rightarrow> string \<Rightarrow> (string \<times> json_val) list \<Rightarrow> 'c \<Rightarrow> (string \<rightharpoonup> string) option \<times> 'c" where
  "client_post K token path body c = (case K c token path body of
     (None, c') \<Rightarrow> (None, c')
   | (Some (status, result), c') \<Rightarrow> if status < 200 \<or> status \<ge> 300 then (None, c') else (result, c'))"

text \<open>A post whose answer is not read succeeds by its status.\<close>

definition client_send :: "'c control \<Rightarrow> string \<Rightarrow> string \<Rightarrow> (string \<times> json_val) list \<Rightarrow> 'c \<Rightarrow> bool \<times> 'c" where
  "client_send K token path body c = (case K c token path body of
     (None, c') \<Rightarrow> (False, c') | (Some (status, result), c') \<Rightarrow> (200 \<le> status \<and> status < 300, c'))"

definition field :: "(string \<rightharpoonup> string) \<Rightarrow> string \<Rightarrow> string" where
  "field m k = (case m k of None \<Rightarrow> [] | Some v \<Rightarrow> v)"

datatype enroll_error =
    StateUnreadable | StateInvalid | NoRandom | NoPublicKey | NoHostname | PairStartFailed | PairClaimFailed | StateNotCreated | StateWriteFailed | StateCloseFailed

text \<open>The machine: random bytes, X25519 with the base point, its name and platform, and file errors.\<close>

record machine =
  mc_random :: "nat list option"
  mc_x25519 :: "nat list \<Rightarrow> nat list option"
  mc_hostname :: "string option"
  mc_goos :: string
  mc_goarch :: string
  mc_read_error :: bool
  mc_create_error :: bool
  mc_write_error :: bool
  mc_close_error :: bool

definition pair_start_body :: "machine \<Rightarrow> nat list \<Rightarrow> string \<Rightarrow> (string \<times> json_val) list" where
  "pair_start_body M public hostname = [(''wg_public_key'', JStr (b64_encode b64_std public)), (''hostname'', JStr hostname),
     (''os_platform'', JStr (mc_goos M)), (''os_arch'', JStr (mc_goarch M)), (''agent_version'', JStr ''direct-home-1'')]"

text \<open>
  \<open>enroll\<close>: the two requests take time, during which other programs may change the files (\<open>others\<close>);
  the state file is created exclusively.
\<close>

definition save_state :: "machine \<Rightarrow> string \<Rightarrow> home_state \<Rightarrow> (string \<rightharpoonup> content) \<Rightarrow> (enroll_error + home_state) \<times> (string \<rightharpoonup> content)" where
  "save_state M path st files =
     (if files path \<noteq> None \<or> mc_create_error M then (Inl StateNotCreated, files)
      else if mc_write_error M then (Inl StateWriteFailed, files(path \<mapsto> OtherText []))
      else (if mc_close_error M then Inl StateCloseFailed else Inr st, files(path \<mapsto> StateJson st)))"

definition enroll_new :: "'c control \<Rightarrow> machine \<Rightarrow> ((string \<rightharpoonup> content) \<Rightarrow> (string \<rightharpoonup> content)) \<Rightarrow> string \<Rightarrow> string \<Rightarrow>
    (string \<rightharpoonup> content) \<Rightarrow> 'c \<Rightarrow> (enroll_error + home_state) \<times> (string \<rightharpoonup> content) \<times> 'c" where
  "enroll_new K M others token path files c =
     (case mc_random M of None \<Rightarrow> (Inl NoRandom, files, c)
      | Some raw \<Rightarrow>
     (case mc_x25519 M raw of None \<Rightarrow> (Inl NoPublicKey, files, c)
      | Some public \<Rightarrow>
     (case mc_hostname M of None \<Rightarrow> (Inl NoHostname, files, c)
      | Some hostname \<Rightarrow>
     (case client_post K token ''/api/v1/auth/pair/start'' (pair_start_body M public hostname) c of
        (None, c1) \<Rightarrow> (Inl PairStartFailed, files, c1)
      | (Some pair, c1) \<Rightarrow>
     (case client_post K token ''/api/v1/auth/pair/claim'' [(''code'', JStr (field pair ''code'')), (''device_name'', JStr hostname)] c1 of
        (None, c2) \<Rightarrow> (Inl PairClaimFailed, files, c2)
      | (Some dev, c2) \<Rightarrow>
          (case save_state M path \<lparr>hs_credential = field dev ''credential'', hs_device_id = field dev ''device_id'',
                 hs_overlay_ip = field dev ''overlay_ip'', hs_private_key = b64_encode b64_std raw\<rparr> (others files) of
             (res, files') \<Rightarrow> (res, files', c2)))))))"

definition enroll :: "'c control \<Rightarrow> machine \<Rightarrow> ((string \<rightharpoonup> content) \<Rightarrow> (string \<rightharpoonup> content)) \<Rightarrow> string \<Rightarrow> string \<Rightarrow>
    (string \<rightharpoonup> content) \<Rightarrow> 'c \<Rightarrow> (enroll_error + home_state) \<times> (string \<rightharpoonup> content) \<times> 'c" where
  "enroll K M others token path files c =
     (if mc_read_error M then (Inl StateUnreadable, files, c)
      else (case files path of
              Some (StateJson st) \<Rightarrow> (Inr st, files, c)
            | Some (OtherText t) \<Rightarrow> (Inl StateInvalid, files, c)
            | None \<Rightarrow> enroll_new K M others token path files c))"

text \<open>
  A home machine enrols once and never overwrites its identity: with a state file it makes no
  request, changes no file and uses exactly that state; without one, the file holds the new identity
  only if nobody created it in the meantime, and then the private key in it is the one whose public
  half was sent for pairing. Every other file stays as others left it.
\<close>

theorem enroll_keeps_identity:
  assumes "enroll K M others token path files c = (res, files', c')" "\<not> mc_read_error M"
  shows "(files path \<noteq> None \<longrightarrow> files' = files \<and> c' = c \<and>
      res = (case the (files path) of StateJson st \<Rightarrow> Inr st | OtherText t \<Rightarrow> Inl StateInvalid)) \<and>
    (files path = None \<longrightarrow>
      (\<forall>q. q \<noteq> path \<longrightarrow> files' q = files q \<or> files' q = others files q) \<and>
      (others files path \<noteq> None \<longrightarrow> files' path \<in> {None, others files path} \<and> (\<forall>st. res \<noteq> Inr st)) \<and>
      (\<forall>st. res = Inr st \<longrightarrow> files' = (others files)(path \<mapsto> StateJson st) \<and>
         (\<exists>raw public hostname. mc_random M = Some raw \<and> mc_x25519 M raw = Some public \<and> mc_hostname M = Some hostname \<and>
            fst (client_post K token ''/api/v1/auth/pair/start'' (pair_start_body M public hostname) c) \<noteq> None \<and>
            hs_private_key st = b64_encode b64_std raw)))"
proof (cases "files path")
  case None
  with assms have e: "enroll_new K M others token path files c = (res, files', c')" by (simp add: enroll_def)
  from None e show ?thesis
    by (auto simp: enroll_new_def save_state_def split: option.splits prod.splits if_splits)
next
  case (Some x)
  with assms show ?thesis by (auto simp: enroll_def split: content.splits)
qed

section \<open>home-peer: the daemon\<close>

datatype home_error =
    NotHTTPS | TokenFileUnreadable | EnrollFailed enroll_error | NoCredential | MappingFailed | BadEndpoint | RegisterFailed

text \<open>A URL as \<open>url.Parse\<close> gives it: scheme, host, whether it names a user, and its query.\<close>

record server_url =
  su_scheme :: string
  su_host :: string
  su_user :: bool
  su_query :: string

definition control_url_ok :: "server_url option \<Rightarrow> bool" where
  "control_url_ok u = (case u of None \<Rightarrow> False
     | Some s \<Rightarrow> su_scheme s = ''https'' \<and> su_host s \<noteq> [] \<and> \<not> su_user s \<and> su_query s = [])"

text \<open>
  \<open>run\<close> up to its loop: the identity and the registered endpoint. \<open>tokenFile\<close> is the text of the
  token file (\<open>Some None\<close>: none was given), \<open>leased\<close> the endpoint of a new port mapping.
\<close>

definition home_setup :: "'c control \<Rightarrow> machine \<Rightarrow> ((string \<rightharpoonup> content) \<Rightarrow> (string \<rightharpoonup> content)) \<Rightarrow> server_url option \<Rightarrow>
    string option option \<Rightarrow> string \<Rightarrow> string \<Rightarrow> string option \<Rightarrow> int \<Rightarrow> (string \<rightharpoonup> content) \<Rightarrow> 'c \<Rightarrow>
    (home_error + home_state \<times> string) \<times> (string \<rightharpoonup> content) \<times> 'c" where
  "home_setup K M others url tokenFile path endpoint leased servicePort files c =
     (if \<not> control_url_ok url then (Inl NotHTTPS, files, c)
      else (case tokenFile of None \<Rightarrow> (Inl TokenFileUnreadable, files, c)
        | Some given \<Rightarrow>
            (case enroll K M others (case given of None \<Rightarrow> [] | Some t \<Rightarrow> TrimSpace t) path files c of
               (Inl e, files1, c1) \<Rightarrow> (Inl (EnrollFailed e), files1, c1)
             | (Inr identity, files1, c1) \<Rightarrow>
                 if hs_credential identity = [] then (Inl NoCredential, files1, c1)
                 else (case (if endpoint \<noteq> [] then Some endpoint else leased) of None \<Rightarrow> (Inl MappingFailed, files1, c1)
                   | Some ep \<Rightarrow>
                       if \<not> ValidateEndpoint ep then (Inl BadEndpoint, files1, c1)
                       else (case client_send K (hs_credential identity) (''/api/v1/direct/home/'' @ hs_device_id identity @ ''/register'')
                               [(''endpoint'', JStr ep), (''service_port'', JInt servicePort)] c1 of
                               (False, c2) \<Rightarrow> (Inl RegisterFailed, files1, c2)
                             | (True, c2) \<Rightarrow> (Inr (identity, ep), files1, c2))))))"

text \<open>The delay before the next session.\<close>

definition next_delay :: "duration \<Rightarrow> duration" where
  "next_delay delay = (if delay < 30 * Second then (if 30 * Second < 2 * delay then 30 * Second else 2 * delay) else delay)"

definition reconnect_delay :: "nat \<Rightarrow> duration" where
  "reconnect_delay n = (next_delay ^^ n) Second"

text \<open>
  The daemon backs off: before its \<open>n\<close>-th reconnection it waits \<open>2 ^ n\<close> seconds, but never more
  than thirty.
\<close>

theorem reconnect_delay_doubles: "reconnect_delay n = min (2 ^ n * Second) (30 * Second)"
proof (induction n)
  case (Suc n)
  have "reconnect_delay (Suc n) = next_delay (min (2 ^ n * Second) (30 * Second))"
    using Suc by (simp add: reconnect_delay_def)
  then show ?case by (auto simp: next_delay_def Second_def min_def)
qed (simp add: reconnect_delay_def Second_def)

section \<open>home-peer: a session\<close>

text \<open>What happens during a session, each with its time.\<close>

datatype session_event =
    PeerSnapshot Snapshot | StreamEnded | Connection nat string | ConnectionOver nat | TimerDue nat | PingLost | ServeEnded | SignalReceived

datatype session_end =
    StillRunning | NoStream | NoInterface | NoFirstSnapshot | SnapshotRefused | StreamLost | LivenessLost | ServiceEnded | Stopped

fun session_loop :: "'d wg_device \<Rightarrow> (peer_map \<Rightarrow> peer_map) \<Rightarrow> (time \<times> session_event) list \<Rightarrow> 'd home \<Rightarrow> session_end \<times> 'd home" where
  "session_loop D order [] h = (StillRunning, h)"
| "session_loop D order ((now, PeerSnapshot s) # evs) h =
     (case home_Apply D order now s h of
        (True, h') \<Rightarrow> session_loop D order evs h' | (False, h') \<Rightarrow> (SnapshotRefused, home_Close h'))"
| "session_loop D order ((now, StreamEnded) # evs) h = (StreamLost, home_Close h)"
| "session_loop D order ((now, Connection i remote) # evs) h =
     session_loop D order evs (if hp_up h then snd (accept_client now i remote h) else h)"
| "session_loop D order ((now, ConnectionOver i) # evs) h = session_loop D order evs (forward_ends i h)"
| "session_loop D order ((now, TimerDue g) # evs) h = session_loop D order evs
     (case hp_timer h of None \<Rightarrow> h
      | Some (g', at) \<Rightarrow> if g = g' \<and> at \<le> now then expiry_fires D order now g (h\<lparr>hp_timer := None\<rparr>) else h)"
| "session_loop D order ((now, PingLost) # evs) h = (LivenessLost, home_Close h)"
| "session_loop D order ((now, ServeEnded) # evs) h = (ServiceEnded, home_Close h)"
| "session_loop D order ((now, SignalReceived) # evs) h = (Stopped, home_Close h)"

text \<open>\<open>runSession\<close>: the first snapshot arrives at \<open>t0\<close> or not at all; \<^const>\<open>None\<close>: no interface was made.\<close>

definition runSession :: "'d wg_device \<Rightarrow> (peer_map \<Rightarrow> peer_map) \<Rightarrow> bool \<Rightarrow> bool \<Rightarrow> bool \<Rightarrow> home_state \<Rightarrow> int \<Rightarrow> int \<Rightarrow> string \<Rightarrow>
    'd \<Rightarrow> (time \<times> Snapshot) option \<Rightarrow> (time \<times> session_event) list \<Rightarrow> session_end \<times> 'd home option" where
  "runSession D order dial tun up identity udpPort servicePort target d first evs =
     (if \<not> dial then (NoStream, None)
      else (case home_New D tun up (hs_private_key identity) (hs_overlay_ip identity) udpPort d of None \<Rightarrow> (NoInterface, None)
        | Some h \<Rightarrow>
            (case first of None \<Rightarrow> (NoFirstSnapshot, Some (home_Close h))
             | Some (t0, s) \<Rightarrow>
                 (case home_Apply D order t0 s h of
                    (False, h1) \<Rightarrow> (SnapshotRefused, Some (home_Close h1))
                  | (True, h1) \<Rightarrow>
                      (case session_loop D order (if servable servicePort target then evs else [(t0, ServeEnded)]) h1 of
                         (res, h2) \<Rightarrow> (res, Some h2))))))"

lemma closed_home: "\<not> hp_up (home_Close h) \<and> \<not> open_at (home_Close h) ip"
  by (auto simp: home_Close_def open_at_def close_clients_def)

lemma session_loop_inv:
  assumes "session_loop D order evs h = (res, h')" "home_inv (t, h)" "sorted (t # map fst evs)" "\<forall>m. mset (order m) = mset m"
  shows "if res = StillRunning then home_inv (last (t # map fst evs), h') else \<not> hp_up h' \<and> (\<forall>ip. \<not> open_at h' ip)"
  using assms
proof (induction D order evs h arbitrary: t rule: session_loop.induct)
  case (2 D order now s evs h)
  obtain ok h1 where a: "home_Apply D order now s h = (ok, h1)" by force
  show ?case
  proof (cases ok)
    case True
    then have "session_loop D order evs h1 = (res, h')" using 2(2) a by simp
    with 2(1) [OF a [symmetric, unfolded True]] home_Apply_inv [OF 2(3) a] 2(4,5) True show ?thesis by fastforce
  next
    case False
    then show ?thesis using 2(2) a closed_home by auto
  qed
next
  case (4 D order now i remote evs h)
  have "home_inv (now, if hp_up h then snd (accept_client now i remote h) else h)"
  proof (cases "hp_up h")
    case True
    then show ?thesis using accept_client_inv [OF 4(3) True prod.collapse [symmetric]] by simp
  next
    case False
    then show ?thesis using 4(3) by (simp add: home_inv_def)
  qed
  then show ?case using 4(1) [OF _ _ _ 4(5)] 4(2,4) by fastforce
next
  case (5 D order now i evs h)
  have "home_inv (now, forward_ends i h)" using 5(3) by (auto simp: home_inv_def forward_ends_def open_at_def)
  then show ?case using 5(1) [OF _ _ _ 5(5)] 5(2,4) by fastforce
next
  case (6 D order now g evs h)
  let ?h = "case hp_timer h of None \<Rightarrow> h
      | Some (g', at) \<Rightarrow> if g = g' \<and> at \<le> now then expiry_fires D order now g (h\<lparr>hp_timer := None\<rparr>) else h"
  have "home_inv (now, ?h)"
  proof (cases "\<exists>at. hp_timer h = Some (g, at) \<and> at \<le> now")
    case True
    then obtain at where "hp_timer h = Some (g, at)" "at \<le> now" by blast
    moreover from this 6(4) have "home_step D (t, h) (now, expiry_fires D order now g (h\<lparr>hp_timer := None\<rparr>))"
      by (intro home_step.timer [OF _ 6(5)]) auto
    ultimately show ?thesis using home_inv_step [OF 6(3)] by simp
  next
    case False
    then have "?h = h" by (auto split: option.splits)
    then show ?thesis using 6(3) by (simp add: home_inv_def)
  qed
  then show ?case using 6(1) [OF _ _ _ 6(5)] 6(2,4) by fastforce
qed (use closed_home in auto)

text \<open>
  C29. A session fails closed: whatever ends it, a lost stream, a refused snapshot, a missed ping, a
  failed service or a signal, the WireGuard device is down and no connection is open when it
  returns; and while it runs, open connections belong to addresses of the last snapshot only.
\<close>

theorem session_fails_closed:
  assumes "runSession D order dial tun up identity udpPort servicePort target d first evs = (res, Some h)"
    and "\<forall>m. mset (order m) = mset m" "\<forall>t0 s. first = Some (t0, s) \<longrightarrow> sorted (t0 # map fst evs)"
  shows "(res \<noteq> StillRunning \<longrightarrow> \<not> hp_up h \<and> (\<forall>i ip. (i, ip, True) \<notin> set (hp_clients h))) \<and>
    (res = StillRunning \<longrightarrow> (\<forall>i ip. (i, ip, True) \<in> set (hp_clients h) \<longrightarrow> hp_up h \<and> ip \<in> fst ` set (hp_active h)))"
proof -
  from assms(1) obtain h0 where n: "home_New D tun up (hs_private_key identity) (hs_overlay_ip identity) udpPort d = Some h0"
    by (auto simp: runSession_def split: if_splits option.splits)
  have i0: "home_inv (t, h0)" for t
    using n by (auto simp: home_New_def home_inv_def open_at_def earliest_def sql_min_def split: option.splits if_splits)
  show ?thesis
  proof (cases first)
    case None
    then show ?thesis using assms(1) n closed_home [of h0] by (auto simp: runSession_def open_at_def split: if_splits)
  next
    case (Some p)
    then obtain t0 s where f: "first = Some (t0, s)" by (cases p) auto
    obtain ok h1 where a: "home_Apply D order t0 s h0 = (ok, h1)" by force
    show ?thesis
    proof (cases ok)
      case True
      let ?evs = "if servable servicePort target then evs else [(t0, ServeEnded)]"
      from assms(1) n f a True have l: "session_loop D order ?evs h1 = (res, h)" by (auto simp: runSession_def split: if_splits prod.splits)
      have "sorted (t0 # map fst ?evs)" using assms(3) f by simp
      from session_loop_inv [OF l home_Apply_inv [OF i0 a] this assms(2)] show ?thesis
        by (auto simp: home_inv_def open_at_def split: if_splits)
    next
      case False
      then show ?thesis using assms(1) n f a closed_home [of h1] by (auto simp: runSession_def open_at_def split: if_splits)
    qed
  qed
qed

section \<open>Examples\<close>

definition operator_claims :: sessionClaims where
  "operator_claims = bootstrap_claims 5 ''u1''"

theorem bootstrap_token_refused_witness:
  "\<exists>files. bootstrap_run (token_for operator_claims) (calm 5 []) 0 ''x1'' ''out'' (InternalSessionSecret sample_cfg) ''db'' (so_db sample_sso) Map.empty = (None, files) \<and>
     files ''out'' = Some ''token'' \<and>
     fst (Middleware.Middleware (sso_handler\<lparr>h_crypto := token_for operator_claims\<rparr>) (calm 8 []) 0
       (Some (sso_validator (sso_handler\<lparr>h_crypto := token_for operator_claims\<rparr>) sample_uoa (calm 8 []) (\<lambda>n s. s) \<lparr>entries = [], flights = []\<rparr> []))
       sample_req (\<lambda>c w. (Reply 200 (), w)) (sample_world (so_db sample_sso))) \<noteq> Reply 200 ()"
proof -
  let ?H = "sso_handler\<lparr>h_crypto := token_for operator_claims\<rparr>"
  let ?run = "bootstrap_run (h_crypto ?H) (calm 5 []) 0 ''x1'' ''out'' (InternalSessionSecret (h_cfg ?H)) ''db'' (so_db sample_sso) Map.empty"
  have k: "InternalSessionSecret (h_cfg ?H) = InternalSessionSecret sample_cfg" "h_crypto ?H = token_for operator_claims"
    by (simp_all add: sso_handler_def)
  have f: "fst ?run = None" "snd ?run ''out'' = Some ''token''" "authorization sample_req = ''Bearer '' @ ''token''" by code_simp+
  then obtain files where r: "?run = (None, files)" "files ''out'' = Some ''token''" by (metis prod.collapse)
  have "jwt_laws (h_crypto ?H)" unfolding k by (rule token_for_laws) (simp add: operator_claims_def bootstrap_claims_def)
  from bootstrap_token_refused [OF this r f(3), of "calm 8 []" 0 sample_uoa "\<lambda>n s. s" "\<lparr>entries = [], flights = []\<rparr>" "[]"
      "\<lambda>c w. (Reply 200 (), w)" "sample_world (so_db sample_sso)"]
  have "fst (Middleware.Middleware ?H (calm 8 []) 0 (Some (sso_validator ?H sample_uoa (calm 8 []) (\<lambda>n s. s) \<lparr>entries = [], flights = []\<rparr> []))
       sample_req (\<lambda>c w. (Reply 200 (), w)) (sample_world (so_db sample_sso))) \<noteq> Reply 200 ()"
    by (auto simp: NumericDate_def JWTLeeway_def Minute_def Second_def)
  with r show ?thesis unfolding k by blast
qed

definition home_machine :: machine where
  "home_machine = \<lparr>mc_random = Some (replicate 32 7), mc_x25519 = Some, mc_hostname = Some ''home'', mc_goos = ''linux'', mc_goarch = ''amd64'',
     mc_read_error = False, mc_create_error = False, mc_write_error = False, mc_close_error = False\<rparr>"

definition willing_server :: "nat control" where
  "willing_server n token path body = (Some (200, Some (map_of [(''code'', ''C''), (''device_id'', ''d''), (''credential'', ''secret'')])), n + 1)"

theorem enroll_keeps_identity_witness:
  "\<exists>st files c. enroll willing_server home_machine id ''t'' ''home.json'' Map.empty 0 = (Inr st, files, c) \<and>
     files ''home.json'' = Some (StateJson st) \<and> hs_private_key st = b64_encode b64_std (replicate 32 7) \<and>
     enroll willing_server home_machine id ''t'' ''home.json'' files c = (Inr st, files, c)"
proof -
  let ?run = "enroll willing_server home_machine id ''t'' ''home.json'' Map.empty 0"
  have "isl (fst ?run) = False" by code_simp
  then obtain st files c where r: "?run = (Inr st, files, c)" by (cases ?run; cases "fst ?run") auto
  have m: "\<not> mc_read_error home_machine" "mc_random home_machine = Some (replicate 32 7)" by (simp_all add: home_machine_def)
  from enroll_keeps_identity [OF r m(1)] m(2) have s: "files ''home.json'' = Some (StateJson st)"
    "hs_private_key st = b64_encode b64_std (replicate 32 7)" by auto
  moreover have "enroll willing_server home_machine id ''t'' ''home.json'' files c = (Inr st, files, c)"
    using s m(1) by (simp add: enroll_def)
  ultimately show ?thesis using r by blast
qed

definition home_identity :: home_state where
  "home_identity = \<lparr>hs_credential = ''secret'', hs_device_id = ''d'', hs_overlay_ip = ''10.0.0.3'',
     hs_private_key = b64_encode b64_std (replicate 32 1)\<rparr>"

theorem session_fails_closed_witness:
  "\<exists>h. runSession plain_device id True True True home_identity 51821 8790 ''127.0.0.1:8790'' Map.empty
      (Some (10, guest_snapshot ''10.0.0.8'')) [(11, Connection 0 ''10.0.0.8:4000''), (12, StreamEnded)] = (StreamLost, Some h) \<and>
     \<not> hp_up h \<and> (0, ''10.0.0.8'', True) \<notin> set (hp_clients h)"
proof -
  let ?run = "runSession plain_device id True True True home_identity 51821 8790 ''127.0.0.1:8790'' Map.empty
      (Some (10, guest_snapshot ''10.0.0.8'')) [(11, Connection 0 ''10.0.0.8:4000''), (12, StreamEnded)]"
  have n: "home_New plain_device True True (hs_private_key home_identity) (hs_overlay_ip home_identity) 51821 Map.empty = Some new_home"
    using new_home(1) by (simp add: home_identity_def)
  have v: "servable 8790 ''127.0.0.1:8790''" by code_simp
  have r: "?run = (StreamLost, Some (home_Close served_home))"
    using n v home_moves(1,6) served_home(1) by (simp add: runSession_def)
  from session_fails_closed [OF r] r show ?thesis by simp
qed

end
