(* ===== verification/Uoa_Config.thy ===== *)
theory Uoa_Config
  imports Login
begin

text \<open>
  What this server publishes about itself to the identity provider (\<open>internal/auth/uoa_config.go\<close>,
  \<open>configjwt.go\<close>): a signed configuration and the key to verify it with. RSA, PEM and X.509 are
  arguments, and so is the URL parser.
\<close>

section \<open>The signing key\<close>

text \<open>Claims of the configuration are JSON values.\<close>

datatype json = CStr string | CBool bool | CNum int | CArr "json list" | CObj "(string \<times> json) list"

record jwk =
  jw_kty :: string
  jw_kid :: string
  jw_alg :: string
  jw_use :: string
  jw_n :: string
  jw_e :: string

text \<open>
  \<open>parse_pkcs8\<close> gives \<open>Some None\<close> for a key that is not RSA; \<open>rs256\<close> signs claims under a key and a
  key identifier; \<open>jwk_verify\<close> is the provider reading a published key and a token.
\<close>

record 'k rsa =
  pem_decode :: "string \<Rightarrow> string option"
  parse_pkcs1 :: "string \<Rightarrow> 'k option"
  parse_pkcs8 :: "string \<Rightarrow> 'k option option"
  rsa_modulus :: "'k \<Rightarrow> nat list"
  rsa_exponent :: "'k \<Rightarrow> nat"
  rs256 :: "'k \<Rightarrow> string \<Rightarrow> json \<Rightarrow> string option"
  jwk_verify :: "jwk \<Rightarrow> string \<Rightarrow> json option"

definition b64_text :: "string \<Rightarrow> string option" where
  "b64_text s = map_option bytes_string (b64_decode (filter (\<lambda>c. c \<noteq> CHR 0x0D \<and> c \<noteq> CHR 0x0A) s))"

definition decodeRSAPrivateKey :: "'k rsa \<Rightarrow> string \<Rightarrow> 'k option" where
  "decodeRSAPrivateKey R pemStr =
     (let text = (if Contains pemStr ''BEGIN'' then pemStr
                  else (case b64_text (TrimSpace pemStr) of None \<Rightarrow> pemStr | Some decoded \<Rightarrow> decoded)) in
      (case pem_decode R text of None \<Rightarrow> None
       | Some block \<Rightarrow>
           (case parse_pkcs1 R block of Some key \<Rightarrow> Some key
            | None \<Rightarrow> (case parse_pkcs8 R block of None \<Rightarrow> None | Some key \<Rightarrow> key))))"

text \<open>The first key is kept with its text and what decoding it gave; another text is decoded afresh.\<close>

type_synonym 'k key_cache = "(string \<times> 'k option) option"

definition parseConfigSigningKey :: "'k rsa \<Rightarrow> string \<Rightarrow> 'k key_cache \<Rightarrow> 'k option \<times> 'k key_cache" where
  "parseConfigSigningKey R pem cache =
     (let pemStr = TrimSpace pem in
      if pemStr = [] then (None, cache)
      else let kept = (case cache of None \<Rightarrow> (pemStr, decodeRSAPrivateKey R pemStr) | Some c \<Rightarrow> c) in
        (if fst kept \<noteq> pemStr then decodeRSAPrivateKey R pemStr else snd kept, Some kept))"

definition configSigningKID :: "Config \<Rightarrow> string" where
  "configSigningKID cfg = (let kid = TrimSpace (UOAConfigSigningKID cfg) in if kid \<noteq> [] then kid else ''selkie-config'')"

definition signConfigJWT :: "'k rsa \<Rightarrow> json \<Rightarrow> string \<Rightarrow> string \<Rightarrow> 'k key_cache \<Rightarrow> string option \<times> 'k key_cache" where
  "signConfigJWT R claims keyPEM kid cache = (case parseConfigSigningKey R keyPEM cache of
     (None, cache') \<Rightarrow> (None, cache') | (Some key, cache') \<Rightarrow> (rs256 R key kid claims, cache'))"

text \<open>\<open>big.Int.Bytes\<close>.\<close>

fun be_bytes :: "nat \<Rightarrow> nat list" where
  "be_bytes n = (if n = 0 then [] else be_bytes (n div 256) @ [n mod 256])"

declare be_bytes.simps [simp del]

definition key_jwk :: "'k rsa \<Rightarrow> string \<Rightarrow> 'k \<Rightarrow> jwk" where
  "key_jwk R kid key = \<lparr>jw_kty = ''RSA'', jw_kid = kid, jw_alg = ''RS256'', jw_use = ''sig'',
     jw_n = RawURL (rsa_modulus R key), jw_e = RawURL (be_bytes (rsa_exponent R key))\<rparr>"

definition publicJWK :: "'k rsa \<Rightarrow> string \<Rightarrow> string \<Rightarrow> 'k key_cache \<Rightarrow> jwk option \<times> 'k key_cache" where
  "publicJWK R keyPEM kid cache = (case parseConfigSigningKey R keyPEM cache of
     (None, cache') \<Rightarrow> (None, cache') | (Some key, cache') \<Rightarrow> (Some (key_jwk R kid key), cache'))"

definition ServeJWKS :: "'k rsa \<Rightarrow> Config \<Rightarrow> 'k key_cache \<Rightarrow> jwk list response \<times> 'k key_cache" where
  "ServeJWKS R cfg cache = (case publicJWK R (UOAConfigSigningKeyPEM cfg) (configSigningKID cfg) cache of
     (None, cache') \<Rightarrow> (Error 500 ''jwks unavailable'', cache') | (Some k, cache') \<Rightarrow> (Reply 200 [k], cache'))"

section \<open>The configuration\<close>

definition uoaConfigRedirectURLs :: "Config \<Rightarrow> string list" where
  "uoaConfigRedirectURLs cfg = fold (\<lambda>candidate urls. if candidate = [] \<or> candidate \<in> set urls then urls else urls @ [candidate])
     [TrimSpace (UOARedirectURL cfg), TrimSpace (UOAMobileRedirectURL cfg)] []"

definition uoaDefaultTheme :: json where
  "uoaDefaultTheme = CObj [
     (''colors'', CObj [(''bg'', CStr ''#0f172a''), (''surface'', CStr ''#111827''), (''text'', CStr ''#e2e8f0''),
        (''muted'', CStr ''#94a3b8''), (''primary'', CStr ''#0f766e''), (''primary_text'', CStr ''#f0fdfa''),
        (''border'', CStr ''#334155''), (''danger'', CStr ''#dc2626''), (''danger_text'', CStr ''#fef2f2'')]),
     (''radii'', CObj [(''card'', CStr ''20px''), (''button'', CStr ''12px''), (''input'', CStr ''12px'')]),
     (''density'', CStr ''comfortable''), (''button'', CObj [(''style'', CStr ''solid'')]), (''card'', CObj [(''style'', CStr ''bordered'')]),
     (''typography'', CObj [(''font_family'', CStr ''sans''), (''base_text_size'', CStr ''md'')]),
     (''logo'', CObj [(''url'', CStr []), (''alt'', CStr ''Selkie logo''), (''text'', CStr ''Selkie'')])]"

definition uoaAllowedSocialProviders :: "string list \<Rightarrow> string list" where
  "uoaAllowedSocialProviders methods =
     filter (\<lambda>m. m \<in> {''google'', ''apple'', ''facebook'', ''github'', ''linkedin''}) methods"

text \<open>A URL as \<open>url.Parse\<close> gives it: scheme, host with port, and host name.\<close>

record parsed_url =
  pu_scheme :: string
  pu_host :: string
  pu_hostname :: string

definition uoaJWKSURL :: "(string \<Rightarrow> parsed_url option) \<Rightarrow> string \<Rightarrow> string option" where
  "uoaJWKSURL parse configURL = (case parse (TrimSpace configURL) of None \<Rightarrow> None
     | Some p \<Rightarrow> if pu_scheme p = [] \<or> pu_host p = [] then None
         else Some (pu_scheme p @ ''://'' @ pu_host p @ ''/.well-known/jwks.json''))"

definition config_claims :: "time \<Rightarrow> string \<Rightarrow> string \<Rightarrow> string \<Rightarrow> string list \<Rightarrow> json" where
  "config_claims now domain jwksURL contactEmail redirectURLs =
     (let authMethods = [''email_password'', ''google''] in CObj [
       (''domain'', CStr domain), (''jwks_url'', CStr jwksURL), (''contact_email'', CStr contactEmail),
       (''redirect_urls'', CArr (map CStr redirectURLs)), (''enabled_auth_methods'', CArr (map CStr authMethods)),
       (''allowed_social_providers'', CArr (map CStr (uoaAllowedSocialProviders authMethods))),
       (''user_scope'', CStr ''global''), (''ui_theme'', uoaDefaultTheme), (''language_config'', CStr ''en''),
       (''2fa_enabled'', CBool False), (''debug_enabled'', CBool False), (''allow_registration'', CBool True),
       (''registration_mode'', CStr ''password_required''),
       (''access_requests'', CObj [(''enabled'', CBool False), (''notify_org_roles'', CArr [CStr ''owner'', CStr ''admin''])]),
       (''session'', CObj [(''remember_me_enabled'', CBool True), (''remember_me_default'', CBool True),
          (''short_refresh_token_ttl_hours'', CNum 1), (''long_refresh_token_ttl_days'', CNum 30)]),
       (''org_features'', CObj [(''enabled'', CBool False)]),
       (''iat'', CNum (now div Second)), (''exp'', CNum ((now + 5 * Minute) div Second))])"

definition ServeUOAConfig :: "'k rsa \<Rightarrow> (string \<Rightarrow> parsed_url option) \<Rightarrow> uoa \<Rightarrow> Config \<Rightarrow> time \<Rightarrow> 'k key_cache \<Rightarrow>
    string response \<times> 'k key_cache" where
  "ServeUOAConfig R parse U cfg now cache =
     (case (uoaConfigDomain U cfg, uoaJWKSURL parse (UOAConfigURL cfg)) of
        (Some domain, Some jwksURL) \<Rightarrow>
          if TrimSpace (UOAConfigURL cfg) = [] \<or> uoaConfigRedirectURLs cfg = [] \<or> TrimSpace (UOAConfigSigningKeyPEM cfg) = [] \<or>
             TrimSpace (UOAContactEmail cfg) = [] then (Error 500 ''uoa config is incomplete'', cache)
          else (case signConfigJWT R (config_claims now domain jwksURL (TrimSpace (UOAContactEmail cfg)) (uoaConfigRedirectURLs cfg))
                  (UOAConfigSigningKeyPEM cfg) (configSigningKID cfg) cache of
                  (None, cache') \<Rightarrow> (Error 500 ''failed to sign config'', cache')
                | (Some token, cache') \<Rightarrow> (Reply 200 token, cache'))
      | _ \<Rightarrow> (Error 500 ''uoa config is incomplete'', cache))"

section \<open>The cache is invisible\<close>

definition cache_faithful :: "'k rsa \<Rightarrow> 'k key_cache \<Rightarrow> bool" where
  "cache_faithful R cache = (case cache of None \<Rightarrow> True | Some (pem, key) \<Rightarrow> key = decodeRSAPrivateKey R pem)"

definition fresh_key :: "'k rsa \<Rightarrow> string \<Rightarrow> 'k option" where
  "fresh_key R pem = (if TrimSpace pem = [] then None else decodeRSAPrivateKey R (TrimSpace pem))"

lemma parse_faithful:
  assumes "cache_faithful R cache"
  shows "fst (parseConfigSigningKey R pem cache) = fresh_key R pem \<and> cache_faithful R (snd (parseConfigSigningKey R pem cache))"
  using assms by (auto simp: parseConfigSigningKey_def fresh_key_def cache_faithful_def Let_def split: option.splits)

interpretation key_caches: invariant_system "\<lambda>c c'. \<exists>pem. c' = snd (parseConfigSigningKey R pem c)" "cache_faithful R" for R
  by unfold_locales (use parse_faithful in blast)

text \<open>
  Keeping the parsed key changes nothing: starting without one, after any sequence of requests with
  any key texts, a key text still yields exactly the key that decoding it yields.
\<close>

theorem config_key_cache_transparent:
  assumes "reach None (\<lambda>c c'. \<exists>pem. c' = snd (parseConfigSigningKey R pem c)) cache"
  shows "fst (parseConfigSigningKey R pem cache) = (if TrimSpace pem = [] then None else decodeRSAPrivateKey R (TrimSpace pem))"
  using parse_faithful [OF key_caches.reach_inv [OF assms]] by (simp add: cache_faithful_def fresh_key_def)

section \<open>The provider can verify the configuration\<close>

text \<open>What RFC 7515 and RFC 7517 promise: a published key verifies what its private half signed under that key identifier.\<close>

definition rsa_law :: "'k rsa \<Rightarrow> bool" where
  "rsa_law R \<longleftrightarrow> (\<forall>key kid claims t. rs256 R key kid claims = Some t \<longrightarrow> jwk_verify R (key_jwk R kid key) t = Some claims)"


section \<open>Examples\<close>

text \<open>A key is its text, and signing yields a fixed token for fixed claims.\<close>

definition toy_claims :: json where
  "toy_claims = config_claims 7 ''selkie.test'' ''https://selkie.test/.well-known/jwks.json'' ''a@b'' [''https://selkie.test/cb'']"

definition toy_rsa :: "string rsa" where
  "toy_rsa = \<lparr>pem_decode = Some, parse_pkcs1 = Some, parse_pkcs8 = (\<lambda>_. None), rsa_modulus = str_bytes, rsa_exponent = (\<lambda>_. 65537),
     rs256 = (\<lambda>k kid c. if c = toy_claims then Some ''jwt'' else None), jwk_verify = (\<lambda>k t. Some toy_claims)\<rparr>"

definition toy_cfg :: Config where
  "toy_cfg = sample_cfg\<lparr>UOAConfigURL := ''https://selkie.test/config'', UOARedirectURL := '' https://selkie.test/cb'',
     UOAMobileRedirectURL := [], UOAConfigSigningKeyPEM := ''BEGIN'', UOAContactEmail := ''a@b''\<rparr>"

definition toy_parse :: "string \<Rightarrow> parsed_url option" where
  "toy_parse s = Some \<lparr>pu_scheme = ''https'', pu_host = ''selkie.test'', pu_hostname = ''selkie.test''\<rparr>"


end
