(* ===== verification/Telemetry.thy ===== *)
theory Telemetry
  imports Prelude
begin

text \<open>
  Traces and metrics (\<open>internal/telemetry/telemetry.go\<close>): setting the exporters up, and what is released
  when that fails half way and at the end of the process. The OpenTelemetry library is an argument;
  the state is what the code does to it: the providers installed and the providers shut down, in order.
\<close>

record telemetry_config =
  tc_Endpoint :: string
  tc_ServiceName :: string
  tc_ServiceVersion :: string

text \<open>The providers the code makes, by the exporter they send to and the resource they describe.\<close>

datatype ('x, 'z) provider = TracerProvider 'x 'z | MeterProvider 'x 'z

text \<open>
  The library: a resource with the name and version of the service, exporters for an endpoint, and the
  error of the n-th \<open>Shutdown\<close>.
\<close>

record ('x, 'z, 'e) otel_lib =
  resource_New :: "string \<Rightarrow> string \<Rightarrow> 'e + 'z"
  otlptracegrpc_New :: "string \<Rightarrow> 'e + 'x"
  otlpmetricgrpc_New :: "string \<Rightarrow> 'e + 'x"
  provider_Shutdown :: "nat \<Rightarrow> ('x, 'z) provider \<Rightarrow> 'e option"

record ('x, 'z) otel =
  ot_tracer :: "('x, 'z) provider option"
  ot_meter :: "('x, 'z) provider option"
  ot_shut :: "('x, 'z) provider list"

text \<open>The state of a new process.\<close>

definition otel_off :: "('x, 'z) otel" where
  "otel_off = \<lparr>ot_tracer = None, ot_meter = None, ot_shut = []\<rparr>"

definition SetTracerProvider :: "('x, 'z) provider \<Rightarrow> ('x, 'z) otel \<Rightarrow> ('x, 'z) otel" where
  "SetTracerProvider p s = s\<lparr>ot_tracer := Some p\<rparr>"

definition SetMeterProvider :: "('x, 'z) provider \<Rightarrow> ('x, 'z) otel \<Rightarrow> ('x, 'z) otel" where
  "SetMeterProvider p s = s\<lparr>ot_meter := Some p\<rparr>"

definition Shutdown :: "('x, 'z, 'e) otel_lib \<Rightarrow> ('x, 'z) provider \<Rightarrow> ('x, 'z) otel \<Rightarrow> 'e option \<times> ('x, 'z) otel" where
  "Shutdown L p s = (provider_Shutdown L (length (ot_shut s)) p, s\<lparr>ot_shut := ot_shut s @ [p]\<rparr>)"

text \<open>The function the caller gets to call at the end: nothing, or both providers.\<close>

type_synonym ('x, 'z, 'e) stopper = "('x, 'z) otel \<Rightarrow> 'e option \<times> ('x, 'z) otel"

definition shutdown_both :: "('x, 'z, 'e) otel_lib \<Rightarrow> ('x, 'z) provider \<Rightarrow> ('x, 'z) provider \<Rightarrow> ('x, 'z, 'e) stopper" where
  "shutdown_both L tp mp s =
     (let (tpErr, s1) = Shutdown L tp s;
          (mpErr, s2) = Shutdown L mp s1
      in (if tpErr \<noteq> None then tpErr else mpErr, s2))"

definition telemetry_Init :: "('x, 'z, 'e) otel_lib \<Rightarrow> telemetry_config \<Rightarrow> ('x, 'z) otel \<Rightarrow>
    ('e + ('x, 'z, 'e) stopper) \<times> ('x, 'z) otel" where
  "telemetry_Init L cfg s =
     (if tc_Endpoint cfg = [] then (Inr (\<lambda>s'. (None, s')), s)
      else (case resource_New L (tc_ServiceName cfg) (tc_ServiceVersion cfg) of Inl err \<Rightarrow> (Inl err, s)
      | Inr res \<Rightarrow>
     (case otlptracegrpc_New L (tc_Endpoint cfg) of Inl err \<Rightarrow> (Inl err, s)
      | Inr traceExp \<Rightarrow>
          let tp = TracerProvider traceExp res;
              s1 = SetTracerProvider tp s in
     (case otlpmetricgrpc_New L (tc_Endpoint cfg) of
        Inl err \<Rightarrow>
          (case Shutdown L tp s1 of
             (Some tpErr, s2) \<Rightarrow> (Inl tpErr, s2)
           | (None, s2) \<Rightarrow> (Inl err, s2))
      | Inr metricExp \<Rightarrow>
          let mp = MeterProvider metricExp res in
          (Inr (shutdown_both L tp mp), SetMeterProvider mp s1)))))"

text \<open>The middleware: requests pass unchanged without an endpoint, and through the library's handler
  with spans named by method and path otherwise.\<close>

definition span_name :: "string \<Rightarrow> string \<Rightarrow> string" where
  "span_name method path = method @ '' '' @ path"

definition telemetry_Middleware :: "((string \<Rightarrow> string \<Rightarrow> string) \<Rightarrow> 'h \<Rightarrow> 'h) \<Rightarrow> string \<Rightarrow> 'h \<Rightarrow> 'h" where
  "telemetry_Middleware otelhttp endpoint next = (if endpoint = [] then next else otelhttp span_name next)"

text \<open>The providers installed in a state.\<close>

definition installed :: "('x, 'z) otel \<Rightarrow> ('x, 'z) provider set" where
  "installed s = set_option (ot_tracer s) \<union> set_option (ot_meter s)"

text \<open>
  No provider is left running. When the setup fails, every provider it installed has been shut down;
  it fails exactly when there is an endpoint and the resource or an exporter cannot be made. When it
  succeeds, nothing was shut down, and the function it returns shuts down every provider it installed,
  each once, even if the first of them fails, and reports an error exactly when one of them did.
  Without an endpoint nothing is installed and that function does nothing.
\<close>

theorem telemetry_released:
  "(isl (fst (telemetry_Init L cfg otel_off)) \<longleftrightarrow> tc_Endpoint cfg \<noteq> [] \<and>
      (isl (resource_New L (tc_ServiceName cfg) (tc_ServiceVersion cfg)) \<or> isl (otlptracegrpc_New L (tc_Endpoint cfg)) \<or>
       isl (otlpmetricgrpc_New L (tc_Endpoint cfg)))) \<and>
    (case telemetry_Init L cfg otel_off of
      (Inl err, s1) \<Rightarrow> installed s1 = set (ot_shut s1)
    | (Inr stop, s1) \<Rightarrow> ot_shut s1 = [] \<and> (tc_Endpoint cfg = [] \<longleftrightarrow> installed s1 = {}) \<and>
        (case stop s1 of (e, s2) \<Rightarrow>
           set (ot_shut s2) = installed s1 \<and> distinct (ot_shut s2) \<and>
           (e = None \<longleftrightarrow> list_all (\<lambda>(n, p). provider_Shutdown L n p = None) (enumerate 0 (ot_shut s2)))))"
  by (auto simp: otel_off_def telemetry_Init_def shutdown_both_def Shutdown_def SetTracerProvider_def SetMeterProvider_def
      installed_def Let_def split: sum.split option.split prod.split)

end
