(* ===== verification/Spec2Isabelle.thy ===== *)
theory Spec2Isabelle
  imports Whole_Server Browser_Login Home_Gateway Home_Commands Uoa_Config Telemetry
begin

text \<open>
  Selkie is a control plane for a WireGuard overlay network. A server (\<open>cmd/control-server\<close>) logs
  users in through the identity provider UOA, pairs and enrols their devices, gives each an address
  and a key, keeps the WireGuard interface of the hub in step with its database, hands out
  credentials for a TURN relay and tells phones and home machines how to reach each other without
  the hub. A home machine runs \<open>cmd/home-peer\<close>. This library models the Go sources under \<open>internal\<close>
  and \<open>cmd\<close> as executable functions on explicit state and proves what makes them correct.

  \<^bold>\<open>How the parts interact.\<close> A request passes the middleware (a signed token, then a live session in
  the database, resolved against UOA), a rate limiter and a handler, which runs statements and
  transactions on PostgreSQL, may run \<open>ip\<close> and \<open>wg\<close> through the hub, and writes an audit row. Sessions
  are kept alive, closed and cleaned up concurrently with requests. Device and phone handlers share
  the tables of devices and keys, the overlay allocator and the hub; the direct handlers share them
  with the home daemon through streamed snapshots. The router composes them: \<open>serve\<close> takes any request
  through its gates to its handler, and \<open>server_step\<close> is the server as a whole, with its requests, the
  messages of the relay and the maintenance of sessions.

  \<^bold>\<open>Conventions.\<close> A table is a list of records (\<open>Schema\<close>), a statement a function on the database that
  fails when a constraint of \<open>migrations/*.sql\<close> would be violated (\<open>statement\<close>), a transaction a
  sequence of them that keeps all or nothing. A handler takes its dependencies (\<open>handler\<close>), an
  environment (\<open>env\<close>: the clock, which of its external calls fail, fresh identifiers, conversions of
  PostgreSQL) and the state (\<open>world\<close>: database, limiter, commands run, published events) and returns a
  \<open>response\<close> (an error status with its message, a 429 with its delay, or a payload) with the new
  state. External calls are numbered in program order, so every error branch can be taken. Go strings
  are byte lists, times nanoseconds as integers, addresses words of 32 and 128 bits (\<open>Netip\<close>); where
  64-bit integers can overflow (\<open>Atoi\<close>, host offsets) their range is written out.

  \<^bold>\<open>Parameters.\<close> Code outside the repository is an argument with the documented laws the proofs use:
  Redis (\<open>redis_ops\<close>, \<open>redis_laws\<close>), the shell and WireGuard (\<open>shell\<close>, \<open>wg_laws\<close>), hashes, random
  bytes and tokens (\<open>crypto\<close>, \<open>jwt_laws\<close>), UOA and AES-GCM (\<open>uoa\<close>, \<open>gcm_laws\<close>), the user-space WireGuard
  device (\<open>wg_device\<close>, \<open>uapi_law\<close>), a home router (\<open>gateway\<close>), RSA (\<open>rsa\<close>, \<open>rsa_law\<close>), the browser
  (\<open>agent\<close>, \<open>agent_laws\<close>), OpenTelemetry (\<open>otel_lib\<close>), the machine around a boot (\<open>outside\<close>) and the
  console of coturn. Each law is shown for a concrete instance, which the
  witnesses of the theorems use.

  \<^bold>\<open>Theories.\<close>
  \<^item> \<open>Prelude\<close>: fact collections, Go strings and numbers, responses, environments, relational
    operations and the locale \<open>invariant_system\<close> for state machines with an invariant, interpreted by
    every component that has one.
  \<^item> \<open>Netip\<close>, \<open>Encoding\<close>: addresses, prefixes, base64 and UTF-8 of the standard library.
  \<^item> \<open>Schema\<close>: the tables and constraints.
  \<^item> \<open>Ratelimit\<close> (\<open>internal/ratelimit\<close>): both limiters. A locale states what a limiter promises; both
    are interpretations, and at most the limit of requests passes per window.
  \<^item> \<open>Overlay\<close> (\<open>internal/overlay\<close>): an allocation takes the lowest free host address of the network.
  \<^item> \<open>Auditing\<close> (\<open>internal/audit\<close>): the client address behind trusted proxies, and audit rows.
  \<^item> \<open>Config\<close> (\<open>internal/config\<close>): loading and validation.
  \<^item> \<open>Hub\<close> (\<open>internal/wg\<close>): after a synchronisation the interface has exactly the peers of the database.
  \<^item> \<open>Server\<close>, \<open>Middleware\<close> (\<open>internal/auth/middleware.go\<close>, tokens): what handlers share, and the gate
    in front of them.
  \<^item> \<open>Devices\<close>, \<open>Device_Safety\<close> (\<open>internal/devices\<close>): pairing, claiming, heartbeat, revocation, rotation;
    a pair code works once, guessing is bounded, users are isolated.
  \<^item> \<open>Mobile\<close>, \<open>Mobile_Safety\<close> (\<open>internal/mobile\<close>): enrolment and disconnecting; one active key per device
    with the highest version, and a disconnect that tears down.
  \<^item> \<open>Catalog\<close> (\<open>internal/services\<close>), \<open>Signaling\<close> (\<open>internal/sessions\<close>, \<open>internal/policy\<close>), \<open>Relay_Stats\<close>
    (\<open>internal/nat/statsdb.go\<close>): services, connect sessions under a policy that fails closed, relay
    credentials and their statistics.
  \<^item> \<open>Uoa_Sessions\<close>, \<open>Uoa_Safety\<close>, \<open>Uoa_Runs\<close> (\<open>internal/auth\<close>: sessions): sealed token families as a step
    relation with arbitrary interleaving; a logout is final, a request needs a live session, a login
    attaches its family or leaves it revoked or due for cleanup, and the cleanup makes progress.
  \<^item> \<open>Login\<close>, \<open>Login_Safety\<close> (\<open>internal/auth\<close>: login routes): browser, phone, broker, debug and
    development logins; a handoff code is exchanged once, and brokered sessions are bounded.
  \<^item> \<open>Browser_Login\<close> (\<open>login_http.go\<close>): the cookie with the PKCE verifier; a login is bound to the browser
    that started it.
  \<^item> \<open>Uoa_Config\<close> (\<open>uoa_config.go\<close>, \<open>configjwt.go\<close>): what is published to UOA verifies with the key that
    is published.
  \<^item> \<open>Direct\<close>, \<open>Direct_Safety\<close> (\<open>internal/direct\<close>): which peers a device may see, leases and the stream;
    nothing is sent past the authorization, and routes are single addresses.
  \<^item> \<open>Home_Peer\<close>, \<open>Home_Safety\<close>, \<open>Home_Gateway\<close> (\<open>internal/homepeer\<close>): the home machine as a step
    relation; it serves live peers only, its device follows the snapshots, and the port it maps is
    nobody else's.
  \<^item> \<open>Migrations\<close> (\<open>internal/store\<close>), \<open>Control_Server\<close> (\<open>cmd/control-server\<close>): migrations resume after any
    failure, a booted server is complete, and a signal ends it in bounded time.
  \<^item> \<open>Operations\<close> (\<open>internal/admin\<close>, \<open>internal/nat/cli.go\<close>), \<open>Home_Commands\<close> (\<open>cmd/home-bootstrap\<close>,
    \<open>cmd/home-peer\<close>): the admin API, the console client, enrolment and the sessions of the daemon.
  \<^item> \<open>Telemetry\<close> (\<open>internal/telemetry\<close>): exporters that are released when their setup fails.
  \<^item> \<open>Routes\<close> (\<open>cmd/control-server/main.go\<close> and every \<open>Mount\<close>): the table of routes with the gates of each, and
    a request served through them. \<open>Transactions\<close>: a request with its gates is a sequence of the
    transactions of its handler, made by whom the gates admitted, with those of others between them; the
    locales \<open>interleaved\<close> and \<open>server_invariant\<close> carry what every transaction keeps to all runs of the
    server. \<open>Server_Invariants\<close>: seven such invariants, shown for every transaction of every component.
    \<open>Whole_Server\<close>: what follows for the server, whatever is requested by anyone on any route.

  \<^bold>\<open>Bounds and loops.\<close> Every loop of the sources is a structural recursion or a function with a
  termination proof; no fuel is used. Loops that wait for the outside (the event stream, the
  statistics subscriber, the session of a home machine, renewing a port mapping) recurse over the
  list of what arrives, so their theorems hold for every finite part of a run. Retry loops have the
  bound of the code.

  \<^bold>\<open>Not modelled.\<close> Logging and the choice of the log level (calls into libraries); the vendored
  WireGuardKit bridge; matching a path to the pattern of a route (chi); reading JSON bodies and query strings (handlers take the decoded
  values, \<^const>\<open>None\<close> for a body that does not decode); copying bytes between two connections; columns that no modelled statement reads; the order of rows that SQL leaves open,
  which is that of the table; the deferred closings after a shutdown. A handler of devices, phones,
  services, connect sessions and direct peers is atomic, while logins, the middleware and the home
  machine interleave with other requests at each of their statements; the applications, the admin
  user interface and the web pages are other languages.
\<close>

end
